theory Spec2Isabelle
  imports Main "HOL-Library.Word"
begin

chapter \<open>The model\<close>

section \<open>Values of the platform\<close>

text \<open>
  A \<^verbatim>\<open>Uint8Array\<close> is a list of bytes.  A JavaScript string is a list of 16-bit code
  units; the plaintexts and the passwords, which the code hands to \<^verbatim>\<open>TextEncoder\<close>, are
  modelled so.  Identifiers, names, addresses and error messages are only compared or
  passed on, and are plain strings.  A raised exception is a value of \<open>js_error\<close>; an
  \<^verbatim>\<open>Error\<close> object is identified with its message.
\<close>

type_synonym byte = "8 word"

type_synonym jsstring = "16 word list"

datatype js_error =
  RangeError | InvalidCharacterError | OperationError | TypeError string | Error string

section \<open>The encoder and the decoder of text\<close>

text \<open>
  \<^verbatim>\<open>new TextEncoder().encode(s)\<close> converts the code units of \<open>s\<close> to scalar values, an
  unpaired surrogate becoming U+FFFD, and writes each scalar value in UTF-8.
\<close>

fun scalar_values :: "nat list \<Rightarrow> nat list" where
  "scalar_values [] = []"
| "scalar_values [c] = (if 0xD800 \<le> c \<and> c \<le> 0xDFFF then [0xFFFD] else [c])"
| "scalar_values (c # d # cs) =
     (if 0xD800 \<le> c \<and> c \<le> 0xDBFF \<and> 0xDC00 \<le> d \<and> d \<le> 0xDFFF
      then (0x10000 + (c - 0xD800) * 0x400 + (d - 0xDC00)) # scalar_values cs
      else if 0xD800 \<le> c \<and> c \<le> 0xDFFF then 0xFFFD # scalar_values (d # cs)
      else c # scalar_values (d # cs))"

definition utf8_bytes :: "nat \<Rightarrow> nat list" where
  "utf8_bytes cp =
     (if cp < 0x80 then [cp]
      else if cp < 0x800 then [0xC0 + cp div 0x40, 0x80 + cp mod 0x40]
      else if cp < 0x10000 then
        [0xE0 + cp div 0x1000, 0x80 + cp div 0x40 mod 0x40, 0x80 + cp mod 0x40]
      else [0xF0 + cp div 0x40000, 0x80 + cp div 0x1000 mod 0x40,
            0x80 + cp div 0x40 mod 0x40, 0x80 + cp mod 0x40])"

definition TextEncoder_encode :: "jsstring \<Rightarrow> byte list" where
  "TextEncoder_encode s = map of_nat (concat (map utf8_bytes (scalar_values (map unat s))))"

text \<open>
  \<^verbatim>\<open>new TextDecoder().decode(bytes)\<close> is the UTF-8 decoder of the Encoding standard with
  the error mode "replacement" and \<^verbatim>\<open>ignoreBOM = false\<close>: a leading byte order mark is
  dropped, every ill-formed sequence gives U+FFFD, and a byte that ends a sequence early is
  read again as the start of the next one.  The arguments of \<open>utf8_decode\<close> are the code
  point collected so far, the number of continuation bytes still needed, and the bounds
  of the next continuation byte.
\<close>

fun utf8_decode :: "nat \<Rightarrow> nat \<Rightarrow> nat \<Rightarrow> nat \<Rightarrow> nat list \<Rightarrow> nat list" where
  "utf8_decode cp needed lo hi [] = (if needed \<noteq> 0 then [0xFFFD] else [])"
| "utf8_decode cp needed lo hi (b # bs) =
     (if needed = 0 then
        (if b \<le> 0x7F then b # utf8_decode 0 0 0x80 0xBF bs
         else if 0xC2 \<le> b \<and> b \<le> 0xDF then utf8_decode (b mod 0x20) 1 0x80 0xBF bs
         else if 0xE0 \<le> b \<and> b \<le> 0xEF then
           utf8_decode (b mod 0x10) 2 (if b = 0xE0 then 0xA0 else 0x80)
             (if b = 0xED then 0x9F else 0xBF) bs
         else if 0xF0 \<le> b \<and> b \<le> 0xF4 then
           utf8_decode (b mod 0x8) 3 (if b = 0xF0 then 0x90 else 0x80)
             (if b = 0xF4 then 0x8F else 0xBF) bs
         else 0xFFFD # utf8_decode 0 0 0x80 0xBF bs)
      else if b < lo \<or> hi < b then 0xFFFD # utf8_decode 0 0 0x80 0xBF (b # bs)
      else if needed = 1 then (cp * 0x40 + b mod 0x40) # utf8_decode 0 0 0x80 0xBF bs
      else utf8_decode (cp * 0x40 + b mod 0x40) (needed - 1) 0x80 0xBF bs)"

definition strip_bom :: "nat list \<Rightarrow> nat list" where
  "strip_bom bs = (if take 3 bs = [0xEF, 0xBB, 0xBF] then drop 3 bs else bs)"

definition utf16_units :: "nat \<Rightarrow> nat list" where
  "utf16_units cp =
     (if cp < 0x10000 then [cp]
      else [0xD800 + (cp - 0x10000) div 0x400, 0xDC00 + (cp - 0x10000) mod 0x400])"

definition TextDecoder_decode :: "byte list \<Rightarrow> jsstring" where
  "TextDecoder_decode bs =
     map of_nat (concat (map utf16_units (utf8_decode 0 0 0x80 0xBF (strip_bom (map unat bs)))))"

text \<open>
  A string is well formed when every surrogate code unit is part of a pair: a lead
  surrogate followed by a trail surrogate.
\<close>

fun well_formed_units :: "nat list \<Rightarrow> bool" where
  "well_formed_units [] = True"
| "well_formed_units [c] = (\<not> (0xD800 \<le> c \<and> c \<le> 0xDFFF))"
| "well_formed_units (c # d # cs) =
     (if 0xD800 \<le> c \<and> c \<le> 0xDBFF then 0xDC00 \<le> d \<and> d \<le> 0xDFFF \<and> well_formed_units cs
      else \<not> (0xDC00 \<le> c \<and> c \<le> 0xDFFF) \<and> well_formed_units (d # cs))"

definition well_formed :: "jsstring \<Rightarrow> bool" where
  "well_formed s = well_formed_units (map unat s)"

definition starts_with_bom :: "jsstring \<Rightarrow> bool" where
  "starts_with_bom s = (case s of [] \<Rightarrow> False | c # _ \<Rightarrow> c = 0xFEFF)"

text \<open>A scalar value is a code point that is not a surrogate.\<close>

definition scalar :: "nat \<Rightarrow> bool" where
  "scalar cp = (cp < 0x110000 \<and> \<not> (0xD800 \<le> cp \<and> cp \<le> 0xDFFF))"

section \<open>The crypto module\<close>

text \<open>
  \<^verbatim>\<open>src/shared/types/index.ts\<close>, lines 231-389 (the file \<^verbatim>\<open>@shared/wallet/crypto\<close>).
  The module calls the Web Crypto API and the base64 functions of the browser.  They are
  the fields of \<open>webcrypto\<close>:
  \<^item> \<open>pbkdf2\<close>: \<^verbatim>\<open>importKey\<close> and \<^verbatim>\<open>deriveKey\<close> with PBKDF2 and SHA-256, from the bytes
    of the password, the salt and the number of iterations to the AES key;
  \<^item> \<open>aes_gcm_encrypt\<close>, \<open>aes_gcm_decrypt\<close>: \<^verbatim>\<open>crypto.subtle.encrypt\<close> and
    \<^verbatim>\<open>crypto.subtle.decrypt\<close> with AES-GCM, from the key, the nonce and the data;
    decryption gives \<open>None\<close> where the API raises its \<^verbatim>\<open>OperationError\<close>;
  \<^item> \<open>btoa\<close>, \<open>atob\<close>: base64 of a binary string; \<open>None\<close> where the function raises
    its \<^verbatim>\<open>InvalidCharacterError\<close>.
  The values that \<^verbatim>\<open>crypto.getRandomValues\<close> draws are arguments of \<open>encrypt\<close>.
\<close>

record webcrypto =
  pbkdf2 :: "byte list \<Rightarrow> byte list \<Rightarrow> nat \<Rightarrow> byte list"
  aes_gcm_encrypt :: "byte list \<Rightarrow> byte list \<Rightarrow> byte list \<Rightarrow> byte list"
  aes_gcm_decrypt :: "byte list \<Rightarrow> byte list \<Rightarrow> byte list \<Rightarrow> byte list option"
  btoa :: "jsstring \<Rightarrow> jsstring option"
  atob :: "jsstring \<Rightarrow> jsstring option"

record kdfParams =
  iterations :: "nat option"
  hash :: "string option"

record EncryptedData =
  ciphertext :: jsstring
  iv :: jsstring
  salt :: jsstring
  algorithm :: string
  kdf :: string
  kdfParams :: "kdfParams option"

definition PBKDF2_ITERATIONS :: nat where
  "PBKDF2_ITERATIONS = 900000"

definition SALT_BYTES :: nat where
  "SALT_BYTES = 32"

definition IV_BYTES :: nat where
  "IV_BYTES = 12"

definition uint8ArrayToBase64 :: "webcrypto \<Rightarrow> byte list \<Rightarrow> js_error + jsstring" where
  "uint8ArrayToBase64 wc bytes =
     (let binary = map ucast bytes
      in case btoa wc binary of None \<Rightarrow> Inl InvalidCharacterError | Some s \<Rightarrow> Inr s)"

definition base64ToUint8Array :: "webcrypto \<Rightarrow> jsstring \<Rightarrow> js_error + byte list" where
  "base64ToUint8Array wc base64 =
     (case atob wc base64 of
        None \<Rightarrow> Inl InvalidCharacterError
      | Some binaryString \<Rightarrow> Inr (map ucast binaryString))"

definition deriveKey :: "webcrypto \<Rightarrow> jsstring \<Rightarrow> byte list \<Rightarrow> nat \<Rightarrow> byte list" where
  "deriveKey wc password salt_bytes iters =
     (let passwordBytes = TextEncoder_encode password
      in pbkdf2 wc passwordBytes salt_bytes iters)"

definition encrypt ::
  "webcrypto \<Rightarrow> jsstring \<Rightarrow> jsstring \<Rightarrow> byte list \<Rightarrow> byte list \<Rightarrow> js_error + EncryptedData" where
  "encrypt wc data password salt_bytes iv_bytes =
     (let dataBytes = TextEncoder_encode data;
          key = deriveKey wc password salt_bytes PBKDF2_ITERATIONS;
          encryptedBytes = aes_gcm_encrypt wc key iv_bytes dataBytes
      in case uint8ArrayToBase64 wc encryptedBytes of
           Inl e \<Rightarrow> Inl e
         | Inr c \<Rightarrow>
             (case uint8ArrayToBase64 wc iv_bytes of
                Inl e \<Rightarrow> Inl e
              | Inr i \<Rightarrow>
                  (case uint8ArrayToBase64 wc salt_bytes of
                     Inl e \<Rightarrow> Inl e
                   | Inr s \<Rightarrow>
                       Inr \<lparr>ciphertext = c, iv = i, salt = s, algorithm = ''aes-256-gcm'',
                            kdf = ''pbkdf2'',
                            kdfParams = Some \<lparr>iterations = Some PBKDF2_ITERATIONS,
                                              hash = Some ''SHA-256''\<rparr>\<rparr>)))"

definition iterations_or_default :: "EncryptedData \<Rightarrow> nat" where
  "iterations_or_default encryptedData =
     (case kdfParams encryptedData of
        None \<Rightarrow> PBKDF2_ITERATIONS
      | Some kp \<Rightarrow>
          (case iterations kp of
             None \<Rightarrow> PBKDF2_ITERATIONS
           | Some n \<Rightarrow> if n = 0 then PBKDF2_ITERATIONS else n))"

definition decrypt :: "webcrypto \<Rightarrow> EncryptedData \<Rightarrow> jsstring \<Rightarrow> js_error + jsstring" where
  "decrypt wc encryptedData password =
     (case base64ToUint8Array wc (ciphertext encryptedData) of
        Inl e \<Rightarrow> Inl e
      | Inr ciphertext_bytes \<Rightarrow>
          (case base64ToUint8Array wc (iv encryptedData) of
             Inl e \<Rightarrow> Inl e
           | Inr iv_bytes \<Rightarrow>
               (case base64ToUint8Array wc (salt encryptedData) of
                  Inl e \<Rightarrow> Inl e
                | Inr salt_bytes \<Rightarrow>
                    (let key = deriveKey wc password salt_bytes
                                 (iterations_or_default encryptedData)
                     in case aes_gcm_decrypt wc key iv_bytes ciphertext_bytes of
                          None \<Rightarrow> Inl OperationError
                        | Some decryptedBuffer \<Rightarrow> Inr (TextDecoder_decode decryptedBuffer)))))"

text \<open>
  What the module relies on.  A binary string has no code unit above 255; base64 encodes
  every binary string and decodes the result to the same string.  The cipher decrypts,
  under the same key and nonce, what it has encrypted.  The key derivation gives different
  keys for different password bytes, and the cipher rejects a wrong key: PBKDF2 and AES-GCM
  do so up to a collision of the derivation and up to the probability that a forged tag is
  accepted, which the model leaves out.
\<close>

definition binary :: "jsstring \<Rightarrow> bool" where
  "binary s = list_all (\<lambda>c. c \<le> 0xFF) s"

definition base64_roundtrip :: "webcrypto \<Rightarrow> bool" where
  "base64_roundtrip wc = (\<forall>b. binary b \<longrightarrow> (\<exists>s. btoa wc b = Some s \<and> atob wc s = Some b))"

definition aead_correct :: "webcrypto \<Rightarrow> bool" where
  "aead_correct wc =
     (\<forall>k n d. aes_gcm_decrypt wc k n (aes_gcm_encrypt wc k n d) = Some d)"



section \<open>The wallet service\<close>

text \<open>
  \<^verbatim>\<open>background/walletService.ts\<close> with the types of \<^verbatim>\<open>@shared/wallet/types\<close> and the
  stores of \<^verbatim>\<open>lib/storage.ts\<close>.  The state is the two persisted stores (wallets and
  hotkeys), the persisted lock state and the private fields of the class.  A call runs to
  its end before the next one starts.  \<^verbatim>\<open>Date.now()\<close> is the argument \<open>now\<close>.
\<close>

datatype WalletType = HD | PrivateKey | Keystore | Multisig | Watch | Dev

record EncryptedWallet =
  w_id :: string
  w_version :: nat
  w_type :: WalletType
  w_name :: string
  w_address :: string
  w_encrypted :: EncryptedData
  w_derivationPath :: "jsstring option"
  w_keystorePassword :: "EncryptedData option"
  w_createdAt :: int
  w_updatedAt :: int

record EncryptedHotkey =
  h_id :: string
  h_name :: string
  h_address :: string
  h_coldkeyId :: string
  h_encrypted :: EncryptedData
  h_registeredNeuronets :: "nat list"
  h_createdAt :: int
  h_backedUp :: bool

record UnlockAttempt =
  count :: nat
  lastAttempt :: int

record LockState =
  isLocked :: bool
  lastUnlockedAt :: "int option"

text \<open>
  A \<^verbatim>\<open>KeyringPair\<close> is the signing capability of an address.  The keyring of
  \<^verbatim>\<open>@polkadot/keyring\<close> is a parameter; each of its functions gives \<open>None\<close> where the
  library raises.  \<open>addFromSeed\<close> stands for \<^verbatim>\<open>hexToU8a\<close>, \<^verbatim>\<open>slice(0, 32)\<close> and
  \<^verbatim>\<open>addFromSeed\<close>; \<open>addFromJson\<close> for \<^verbatim>\<open>JSON.parse\<close>, \<^verbatim>\<open>addFromJson\<close>,
  \<^verbatim>\<open>decodePkcs8\<close> and \<^verbatim>\<open>addPair\<close>.
\<close>

datatype KeyringPair = KeyringPair string

record keyring =
  addFromUri :: "jsstring \<Rightarrow> KeyringPair option"
  addFromSeed :: "jsstring \<Rightarrow> KeyringPair option"
  addFromJson :: "jsstring \<Rightarrow> jsstring \<Rightarrow> KeyringPair option"

record WalletService =
  wallets :: "EncryptedWallet list"
  activeWalletId :: "string option"
  autoLockTimeout :: int
  hotkeys :: "EncryptedHotkey list"
  lockState :: LockState
  unlockedWallets :: "string \<rightharpoonup> KeyringPair"
  unlockedHotkeys :: "string \<rightharpoonup> KeyringPair"
  unlockAttempts :: "string \<rightharpoonup> UnlockAttempt"
  lockTimeout :: "int option"

definition resetLockTimeout :: "int \<Rightarrow> int \<Rightarrow> int option" where
  "resetLockTimeout minutes now = (if minutes > 0 then Some (now + minutes * 60 * 1000) else None)"

text \<open>
  The body of the \<^verbatim>\<open>try\<close> block of \<^verbatim>\<open>unlockWallet\<close> up to the pair it caches; \<open>None\<close>
  when any step raises.
\<close>

definition unlockPair ::
  "webcrypto \<Rightarrow> keyring \<Rightarrow> EncryptedWallet \<Rightarrow> jsstring \<Rightarrow> KeyringPair option" where
  "unlockPair wc kr wallet password =
     (case decrypt wc (w_encrypted wallet) password of
        Inl e \<Rightarrow> None
      | Inr decrypted \<Rightarrow>
          (case w_type wallet of
             HD \<Rightarrow>
               addFromUri kr
                 (decrypted @ (case w_derivationPath wallet of None \<Rightarrow> [] | Some p \<Rightarrow> p))
           | PrivateKey \<Rightarrow> addFromSeed kr decrypted
           | Keystore \<Rightarrow>
               (case w_keystorePassword wallet of
                  None \<Rightarrow> None
                | Some kp \<Rightarrow>
                    (case decrypt wc kp password of
                       Inl e \<Rightarrow> None
                     | Inr keystorePass \<Rightarrow> addFromJson kr decrypted keystorePass))
           | Multisig \<Rightarrow> None
           | Watch \<Rightarrow> None
           | Dev \<Rightarrow> None))"

text \<open>
  \<^verbatim>\<open>unlockWallet\<close>, lines 352-426.  \<^verbatim>\<open>this.unlockAttempts.get(walletId)\<close> gives the
  stored object itself, so the reset of its \<^verbatim>\<open>count\<close> after 15 minutes is a write to
  the map when the id has an entry.
\<close>

definition unlockWallet ::
  "webcrypto \<Rightarrow> keyring \<Rightarrow> WalletService \<Rightarrow> string \<Rightarrow> jsstring \<Rightarrow> int
     \<Rightarrow> (js_error + bool) \<times> WalletService" where
  "unlockWallet wc kr s walletId password now =
     (let stored = unlockAttempts s walletId;
          attempts0 = (case stored of Some a \<Rightarrow> a | None \<Rightarrow> \<lparr>count = 0, lastAttempt = 0\<rparr>);
          expired = (now - lastAttempt attempts0 > 15 * 60 * 1000);
          attempts = (if expired then attempts0\<lparr>count := 0\<rparr> else attempts0);
          s1 = (if expired \<and> stored \<noteq> None
                then s\<lparr>unlockAttempts := (unlockAttempts s)(walletId \<mapsto> attempts)\<rparr> else s)
      in if count attempts \<ge> 5
         then (Inl (Error ''Too many failed attempts. Please wait 15 minutes.''), s1)
         else
           (case find (\<lambda>w. w_id w = walletId) (wallets s1) of
              None \<Rightarrow> (Inl (Error ''Wallet not found''), s1)
            | Some wallet \<Rightarrow>
                if w_type wallet = Watch \<or> w_type wallet = Multisig then (Inr True, s1)
                else
                  (case unlockPair wc kr wallet password of
                     Some pair \<Rightarrow>
                       (Inr True,
                        s1\<lparr>unlockedWallets := (unlockedWallets s1)(walletId \<mapsto> pair),
                           unlockAttempts := (unlockAttempts s1)(walletId := None),
                           lockTimeout := resetLockTimeout (autoLockTimeout s1) now,
                           lockState := \<lparr>isLocked = False, lastUnlockedAt = Some now\<rparr>\<rparr>)
                   | None \<Rightarrow>
                       (Inr False,
                        s1\<lparr>unlockAttempts := (unlockAttempts s1)
                             (walletId \<mapsto> attempts\<lparr>count := count attempts + 1,
                                                   lastAttempt := now\<rparr>)\<rparr>))))"

text \<open>
  Consecutive calls of \<^verbatim>\<open>unlockWallet\<close> for one id, each with its own password and
  its own time; the results in the order of the calls, and the state after the last one.
\<close>

fun unlockWalletRepeatedly ::
  "webcrypto \<Rightarrow> keyring \<Rightarrow> WalletService \<Rightarrow> string \<Rightarrow> (jsstring \<times> int) list
     \<Rightarrow> (js_error + bool) list \<times> WalletService" where
  "unlockWalletRepeatedly wc kr s walletId [] = ([], s)"
| "unlockWalletRepeatedly wc kr s walletId (try # tries) =
     (let r = unlockWallet wc kr s walletId (fst try) (snd try);
          rest = unlockWalletRepeatedly wc kr (snd r) walletId tries
      in (fst r # fst rest, snd rest))"

definition lock :: "WalletService \<Rightarrow> WalletService" where
  "lock s = s\<lparr>unlockedWallets := Map.empty, unlockedHotkeys := Map.empty,
              lockTimeout := None,
              lockState := \<lparr>isLocked = True, lastUnlockedAt = None\<rparr>\<rparr>"

definition isUnlocked :: "WalletService \<Rightarrow> string \<Rightarrow> bool" where
  "isUnlocked s walletId = (unlockedWallets s walletId \<noteq> None)"

definition getKeypair :: "WalletService \<Rightarrow> string \<Rightarrow> KeyringPair option" where
  "getKeypair s walletId = unlockedWallets s walletId"

text \<open>
  \<^verbatim>\<open>deleteWallet\<close>, lines 476-491.  \<^verbatim>\<open>store.wallets[0]?.id || null\<close> is \<^verbatim>\<open>null\<close> also
  when the first remaining wallet has the empty id.
\<close>

definition deleteWallet :: "WalletService \<Rightarrow> string \<Rightarrow> WalletService" where
  "deleteWallet s walletId =
     (let remaining = filter (\<lambda>w. w_id w \<noteq> walletId) (wallets s);
          active =
            (if activeWalletId s = Some walletId
             then (case remaining of
                     [] \<Rightarrow> None
                   | w # _ \<Rightarrow> if w_id w = [] then None else Some (w_id w))
             else activeWalletId s);
          filtered = filter (\<lambda>h. h_coldkeyId h \<noteq> walletId) (hotkeys s)
      in s\<lparr>wallets := remaining,
           unlockedWallets := (unlockedWallets s)(walletId := None),
           activeWalletId := active,
           hotkeys := filtered\<rparr>)"

text \<open>
  \<^verbatim>\<open>changePassword\<close>, lines 543-585.  \<^verbatim>\<open>find\<close> gives the first wallet with the id, and
  the assignments to it change that element of the store.  Every call of \<open>encrypt\<close> draws
  a salt and a nonce: \<open>draws k\<close> is what the call number \<open>k\<close> draws.  The loop over the
  hotkeys skips, without a trace, a hotkey for which \<open>decrypt\<close> or \<open>encrypt\<close> raises.
  The method returns nothing.
\<close>

fun update_first :: "('a \<Rightarrow> bool) \<Rightarrow> ('a \<Rightarrow> 'a) \<Rightarrow> 'a list \<Rightarrow> 'a list" where
  "update_first P f [] = []"
| "update_first P f (x # xs) = (if P x then f x # xs else x # update_first P f xs)"

fun reencryptHotkeys ::
  "webcrypto \<Rightarrow> string \<Rightarrow> jsstring \<Rightarrow> jsstring \<Rightarrow> (nat \<Rightarrow> byte list \<times> byte list) \<Rightarrow> nat
     \<Rightarrow> EncryptedHotkey list \<Rightarrow> EncryptedHotkey list" where
  "reencryptHotkeys wc walletId currentPassword newPassword draws k [] = []"
| "reencryptHotkeys wc walletId currentPassword newPassword draws k (hotkey # rest) =
     (if h_coldkeyId hotkey = walletId then
        (case decrypt wc (h_encrypted hotkey) currentPassword of
           Inl e \<Rightarrow>
             hotkey # reencryptHotkeys wc walletId currentPassword newPassword draws k rest
         | Inr hotkeyMnemonic \<Rightarrow>
             (case encrypt wc hotkeyMnemonic newPassword (fst (draws k)) (snd (draws k)) of
                Inl e \<Rightarrow>
                  hotkey
                    # reencryptHotkeys wc walletId currentPassword newPassword draws (Suc k) rest
              | Inr enc \<Rightarrow>
                  hotkey\<lparr>h_encrypted := enc\<rparr>
                    # reencryptHotkeys wc walletId currentPassword newPassword draws (Suc k) rest))
      else hotkey # reencryptHotkeys wc walletId currentPassword newPassword draws k rest)"

definition changePassword ::
  "webcrypto \<Rightarrow> WalletService \<Rightarrow> string \<Rightarrow> jsstring \<Rightarrow> jsstring
     \<Rightarrow> (nat \<Rightarrow> byte list \<times> byte list) \<Rightarrow> int \<Rightarrow> (js_error + unit) \<times> WalletService" where
  "changePassword wc s walletId currentPassword newPassword draws now =
     (case find (\<lambda>w. w_id w = walletId) (wallets s) of
        None \<Rightarrow> (Inl (Error ''Wallet not found''), s)
      | Some wallet \<Rightarrow>
          if w_type wallet = Watch \<or> w_type wallet = Multisig
          then (Inl (Error ''Cannot change password for this wallet type''), s)
          else
            (case decrypt wc (w_encrypted wallet) currentPassword of
               Inl e \<Rightarrow> (Inl (Error ''Current password is incorrect''), s)
             | Inr decrypted \<Rightarrow>
                 (case encrypt wc decrypted newPassword (fst (draws 0)) (snd (draws 0)) of
                    Inl e \<Rightarrow> (Inl e, s)
                  | Inr enc \<Rightarrow>
                      (Inr (),
                       s\<lparr>wallets :=
                            update_first (\<lambda>w. w_id w = walletId)
                              (\<lambda>w. w\<lparr>w_encrypted := enc, w_updatedAt := now\<rparr>) (wallets s),
                          hotkeys :=
                            reencryptHotkeys wc walletId currentPassword newPassword draws 1
                              (hotkeys s)\<rparr>))))"

text \<open>
  The hotkeys that \<^verbatim>\<open>changePassword\<close> skips, as the specification names them: the hotkeys
  of the coldkey that do not decrypt under the current password.
\<close>

definition skippedHotkeys :: "webcrypto \<Rightarrow> WalletService \<Rightarrow> string \<Rightarrow> jsstring \<Rightarrow> string list" where
  "skippedHotkeys wc s walletId currentPassword =
     map h_id
       (filter (\<lambda>h. h_coldkeyId h = walletId
                  \<and> (case decrypt wc (h_encrypted h) currentPassword of
                        Inl e \<Rightarrow> True | Inr m \<Rightarrow> False))
          (hotkeys s))"

text \<open>
  What the loop of \<^verbatim>\<open>changePassword\<close> makes of one hotkey: a hotkey of another coldkey,
  or one that does not decrypt under the current password, stays as it is; a hotkey of the
  coldkey that decrypts is encrypted again under the new password, with the draws of one of
  the calls of \<open>encrypt\<close> from number \<open>k\<close> on (and stays as it is if that call raises).
\<close>

definition reencrypted ::
  "webcrypto \<Rightarrow> string \<Rightarrow> jsstring \<Rightarrow> jsstring \<Rightarrow> (nat \<Rightarrow> byte list \<times> byte list) \<Rightarrow> nat
     \<Rightarrow> EncryptedHotkey \<Rightarrow> EncryptedHotkey \<Rightarrow> bool" where
  "reencrypted wc walletId currentPassword newPassword draws k h h' =
     (if h_coldkeyId h = walletId then
        (case decrypt wc (h_encrypted h) currentPassword of
           Inl e \<Rightarrow> h' = h
         | Inr m \<Rightarrow>
             (\<exists>j\<ge>k. case encrypt wc m newPassword (fst (draws j)) (snd (draws j)) of
                       Inl e \<Rightarrow> h' = h
                     | Inr enc \<Rightarrow> h' = h\<lparr>h_encrypted := enc\<rparr>))
      else h' = h)"

section \<open>The connection manager: the signature wrapper\<close>

text \<open>
  \<^verbatim>\<open>background/connectionManager.ts\<close>, lines 8 and 15-20.  \<^verbatim>\<open>new Uint8Array(65)\<close> is
  65 zero bytes.  \<^verbatim>\<open>target.set(source, offset)\<close> raises a \<^verbatim>\<open>RangeError\<close> when
  \<^verbatim>\<open>source.length + offset\<close> exceeds the length of the target, and copies the source to
  the positions from the offset on otherwise.
\<close>

definition SR25519_TYPE_PREFIX :: byte where
  "SR25519_TYPE_PREFIX = 0x01"

definition typed_array_set :: "byte list \<Rightarrow> byte list \<Rightarrow> nat \<Rightarrow> js_error + byte list" where
  "typed_array_set target source off =
     (if length source + off > length target then Inl RangeError
      else Inr (take off target @ source @ drop (off + length source) target))"

definition wrapSignature :: "byte list \<Rightarrow> js_error + byte list" where
  "wrapSignature rawSignature =
     (let multiSignature = replicate 65 (0 :: byte);
          multiSignature = multiSignature[0 := SR25519_TYPE_PREFIX]
      in typed_array_set multiSignature rawSignature 1)"

section \<open>The connection manager: connecting and reconnecting\<close>

text \<open>
  \<^verbatim>\<open>background/connectionManager.ts\<close>, lines 39-185, with \<^verbatim>\<open>NETWORKS\<close> of
  \<^verbatim>\<open>shared/types/index.ts\<close>.

  \<^verbatim>\<open>NETWORKS\<close> is an object literal, so \<^verbatim>\<open>NETWORKS[networkId]\<close> finds its three own
  properties and, for the names of \<^verbatim>\<open>Object.prototype\<close>, the inherited members.  Such a
  member is truthy and has neither \<^verbatim>\<open>id\<close> nor \<^verbatim>\<open>url\<close>: \<open>None\<close> stands for
  \<^verbatim>\<open>undefined\<close> in \<open>network_id\<close> and \<open>network_url\<close>, and \<^verbatim>\<open>new WsProvider(undefined, false)\<close>
  takes the default endpoint of the library.
\<close>

record NetworkConfig =
  n_id :: string
  n_name :: string
  n_url :: string

definition NETWORKS :: "string \<rightharpoonup> NetworkConfig" where
  "NETWORKS =
     [''mainnet'' \<mapsto> \<lparr>n_id = ''mainnet'', n_name = ''Mainnet'',
                       n_url = ''wss://entrypoint-mainnet.aetron.ai:443''\<rparr>,
      ''test'' \<mapsto> \<lparr>n_id = ''test'', n_name = ''Test Network'',
                    n_url = ''wss://entrypoint-test.aetron.ai:443''\<rparr>,
      ''local'' \<mapsto> \<lparr>n_id = ''local'', n_name = ''Local Node'', n_url = ''ws://127.0.0.1:9944''\<rparr>]"

definition Object_prototype :: "string list" where
  "Object_prototype =
     [''constructor'', ''__defineGetter__'', ''__defineSetter__'', ''hasOwnProperty'',
      ''__lookupGetter__'', ''__lookupSetter__'', ''isPrototypeOf'', ''propertyIsEnumerable'',
      ''toString'', ''valueOf'', ''__proto__'', ''toLocaleString'']"

datatype network = Config NetworkConfig | Inherited string

definition network_id :: "network \<Rightarrow> string option" where
  "network_id network = (case network of Config n \<Rightarrow> Some (n_id n) | Inherited name \<Rightarrow> None)"

definition network_url :: "network \<Rightarrow> string option" where
  "network_url network = (case network of Config n \<Rightarrow> Some (n_url n) | Inherited name \<Rightarrow> None)"

definition WS_URL :: string where
  "WS_URL = ''ws://127.0.0.1:9944''"

text \<open>
  The providers that the manager has created are kept in a list, and a provider is named
  by its position there: the fields \<open>provider\<close> and \<open>api\<close> of the manager hold such a
  position (the API handle is identified with the provider it was created over, whose
  socket it reports in \<^verbatim>\<open>isConnected\<close>).  A provider has the state of its socket and
  whether the handler of lines 105-107 is registered on it.  \<^verbatim>\<open>provider.disconnect()\<close>
  closes the socket; the provider emits \<^verbatim>\<open>disconnected\<close> when the socket reports that
  it is closed, which is a later event (\<open>SocketClosed\<close> below), whoever closed it.
\<close>

datatype readyState = CONNECTING | OPEN | CLOSING | CLOSED

record WsProvider =
  endpoint :: string
  socket :: readyState
  onDisconnected :: bool

text \<open>
  A call of \<^verbatim>\<open>connect\<close> that has not returned early waits: first for the provider to
  report \<^verbatim>\<open>connected\<close> (line 103), then for the API to be ready (lines 109-124).  Its
  local variables \<^verbatim>\<open>network\<close> and \<^verbatim>\<open>provider\<close> are kept with the place where it waits.
\<close>

datatype handshake = Idle | AwaitingSocket network nat | AwaitingApi network nat

text \<open>
  The state: the private fields of the class; then the providers, the call of \<^verbatim>\<open>connect\<close>
  in progress, the delays of the reconnect timers that \<^verbatim>\<open>setTimeout\<close> has set so far (in
  the order they were set), how many of these timers have fired, and the values that the
  callback \<^verbatim>\<open>onConnectionChange\<close> was called with.
\<close>

record ConnectionManager =
  api :: "nat option"
  provider :: "nat option"
  currentNetwork :: "network option"
  isConnecting :: bool
  reconnectAttempts :: nat
  providers :: "WsProvider list"
  pendingConnect :: handshake
  reconnectDelays :: "nat list"
  timersFired :: nat
  connectionChanges :: "bool list"

definition maxReconnectAttempts :: nat where
  "maxReconnectAttempts = 5"

definition CONNECTION_TIMEOUT :: nat where
  "CONNECTION_TIMEOUT = 10000"

definition socketOf :: "ConnectionManager \<Rightarrow> nat \<Rightarrow> readyState" where
  "socketOf s k = (if k < length (providers s) then socket (providers s ! k) else CLOSED)"

definition listens :: "ConnectionManager \<Rightarrow> nat \<Rightarrow> bool" where
  "listens s k = (k < length (providers s) \<and> onDisconnected (providers s ! k))"

definition updateProvider ::
  "ConnectionManager \<Rightarrow> nat \<Rightarrow> (WsProvider \<Rightarrow> WsProvider) \<Rightarrow> ConnectionManager" where
  "updateProvider s k f =
     (if k < length (providers s) then s\<lparr>providers := (providers s)[k := f (providers s ! k)]\<rparr>
      else s)"

text \<open>\<^verbatim>\<open>isConnected()\<close>, lines 183-185, which is also the test of line 74.\<close>

definition isConnected :: "ConnectionManager \<Rightarrow> bool" where
  "isConnected s = (case api s of None \<Rightarrow> False | Some k \<Rightarrow> socketOf s k = OPEN)"

text \<open>
  \<^verbatim>\<open>provider.disconnect()\<close>: an open or opening socket starts to close; nothing happens to
  one that is closing or closed.
\<close>

definition closeSocket :: "ConnectionManager \<Rightarrow> nat \<Rightarrow> ConnectionManager" where
  "closeSocket s k =
     updateProvider s k
       (\<lambda>p. if socket p = OPEN \<or> socket p = CONNECTING then p\<lparr>socket := CLOSING\<rparr> else p)"

definition handleDisconnect :: "ConnectionManager \<Rightarrow> ConnectionManager" where
  "handleDisconnect s =
     (let s1 = s\<lparr>connectionChanges := connectionChanges s @ [False]\<rparr>
      in if reconnectAttempts s1 < maxReconnectAttempts \<and> currentNetwork s1 \<noteq> None
         then (let attempts = reconnectAttempts s1 + 1;
                   delay = min (2000 * attempts) 30000
               in s1\<lparr>reconnectAttempts := attempts,
                     reconnectDelays := reconnectDelays s1 @ [delay]\<rparr>)
         else s1)"

definition disconnectInternal :: "ConnectionManager \<Rightarrow> ConnectionManager" where
  "disconnectInternal s =
     (let s1 = (case api s of None \<Rightarrow> s | Some k \<Rightarrow> (closeSocket s k)\<lparr>api := None\<rparr>)
      in case provider s1 of None \<Rightarrow> s1 | Some k \<Rightarrow> (closeSocket s1 k)\<lparr>provider := None\<rparr>)"

definition disconnect :: "ConnectionManager \<Rightarrow> ConnectionManager" where
  "disconnect s = (disconnectInternal s)\<lparr>currentNetwork := None, reconnectAttempts := 0\<rparr>"

definition lookupNetwork :: "string \<Rightarrow> string option \<Rightarrow> network option" where
  "lookupNetwork networkId customUrl =
     (if (networkId = ''custom'' \<or> take 7 networkId = ''custom_'')
         \<and> customUrl \<noteq> None \<and> customUrl \<noteq> Some []
      then Some (Config \<lparr>n_id = networkId, n_name = ''Custom Node'', n_url = the customUrl\<rparr>)
      else
        (case NETWORKS networkId of
           Some n \<Rightarrow> Some (Config n)
         | None \<Rightarrow> if networkId \<in> set Object_prototype then Some (Inherited networkId) else None))"

text \<open>
  \<^verbatim>\<open>connect\<close>, lines 52-101: up to the point where the call waits for the provider.  The
  first component is what the call returns or raises when it ends here, and \<open>None\<close> when it
  goes on to wait.
\<close>

definition connect ::
  "ConnectionManager \<Rightarrow> string \<Rightarrow> string option
     \<Rightarrow> (js_error + bool) option \<times> ConnectionManager" where
  "connect s networkId customUrl =
     (if isConnecting s then (Some (Inr False), s)
      else
        (case lookupNetwork networkId customUrl of
           None \<Rightarrow> (Some (Inl (Error (''Unknown network: '' @ networkId))), s)
         | Some network \<Rightarrow>
             if isConnected s
                \<and> (case currentNetwork s of
                      None \<Rightarrow> False
                    | Some n \<Rightarrow> network_id n = Some networkId)
             then (Some (Inr True), s)
             else
               (let s1 = disconnectInternal (s\<lparr>isConnecting := True\<rparr>);
                    k = length (providers s1);
                    url = (case network_url network of None \<Rightarrow> WS_URL | Some u \<Rightarrow> u)
                in (None,
                    s1\<lparr>providers :=
                         providers s1
                         @ [\<lparr>endpoint = url, socket = CONNECTING, onDisconnected = False\<rparr>],
                       pendingConnect := AwaitingSocket network k\<rparr>))))"

text \<open>
  Lines 90-93 and 103-107: the provider of the call in progress reports \<^verbatim>\<open>connected\<close>.
  The call stores the provider, registers the handler of \<^verbatim>\<open>disconnected\<close> and waits
  for the API.
\<close>

definition socketConnected :: "ConnectionManager \<Rightarrow> ConnectionManager" where
  "socketConnected s =
     (case pendingConnect s of
        AwaitingSocket network k \<Rightarrow>
          if socketOf s k = CONNECTING
          then (updateProvider s k (\<lambda>p. p\<lparr>socket := OPEN, onDisconnected := True\<rparr>))
                 \<lparr>provider := Some k, pendingConnect := AwaitingApi network k\<rparr>
          else s
      | _ \<Rightarrow> s)"

text \<open>Lines 109-132: the API is ready, over a socket that is still open.  The call returns \<^verbatim>\<open>true\<close>.\<close>

definition apiReady :: "ConnectionManager \<Rightarrow> ConnectionManager" where
  "apiReady s =
     (case pendingConnect s of
        AwaitingApi network k \<Rightarrow>
          if socketOf s k = OPEN
          then s\<lparr>api := Some k,
                 currentNetwork := Some network,
                 reconnectAttempts := 0,
                 isConnecting := False,
                 connectionChanges := connectionChanges s @ [True],
                 pendingConnect := Idle\<rparr>
          else s
      | _ \<Rightarrow> s)"

text \<open>
  Lines 133-140, the \<^verbatim>\<open>catch\<close>: what the call waits for does not come (the provider
  reports an error, or one of the timeouts of 10 seconds passes; the timeout of lines 85-88
  closes the provider, on which no handler is registered yet).  The call returns \<^verbatim>\<open>false\<close>.
\<close>

definition connectCatch :: "ConnectionManager \<Rightarrow> network \<Rightarrow> ConnectionManager" where
  "connectCatch s network =
     handleDisconnect
       ((disconnectInternal s)\<lparr>isConnecting := False, currentNetwork := Some network,
                               pendingConnect := Idle\<rparr>)"

definition handshakeFailed :: "ConnectionManager \<Rightarrow> ConnectionManager" where
  "handshakeFailed s =
     (case pendingConnect s of
        Idle \<Rightarrow> s
      | AwaitingSocket network k \<Rightarrow> connectCatch (closeSocket s k) network
      | AwaitingApi network k \<Rightarrow> connectCatch s network)"

text \<open>
  The socket of the provider \<open>k\<close> reports that it is closed, because the manager closed it
  or because the link was lost.  The provider emits \<^verbatim>\<open>disconnected\<close>, and the handler of
  lines 105-107, where it is registered, calls \<^verbatim>\<open>handleDisconnect\<close>.
\<close>

definition socketClosed :: "ConnectionManager \<Rightarrow> nat \<Rightarrow> ConnectionManager" where
  "socketClosed s k =
     (if socketOf s k = CLOSED then s
      else
        (let s1 = updateProvider s k (\<lambda>p. p\<lparr>socket := CLOSED\<rparr>)
         in if listens s1 k then handleDisconnect s1 else s1))"

text \<open>
  Lines 152-158, the callback of a reconnect timer: \<^verbatim>\<open>connect(this.currentNetwork!.id)\<close>,
  without the custom URL, inside a \<^verbatim>\<open>try\<close> whose \<^verbatim>\<open>catch\<close> only logs.  With no network
  selected, and with a network that has no \<^verbatim>\<open>id\<close>, a \<^verbatim>\<open>TypeError\<close> is raised before
  anything is changed (or \<^verbatim>\<open>connect\<close> returns at line 55).
\<close>

definition timerFired :: "ConnectionManager \<Rightarrow> ConnectionManager" where
  "timerFired s =
     (if timersFired s < length (reconnectDelays s)
      then (let s1 = s\<lparr>timersFired := timersFired s + 1\<rparr>
            in case currentNetwork s1 of
                 None \<Rightarrow> s1
               | Some n \<Rightarrow>
                   (case network_id n of
                      None \<Rightarrow> s1
                    | Some networkId \<Rightarrow> snd (connect s1 networkId None)))
      else s)"

text \<open>
  What happens to a manager, one event after the other.  An event that cannot happen in
  the state (a provider reports \<^verbatim>\<open>connected\<close> while no call waits for it, a timer fires
  that was never set) leaves the state as it is.
\<close>

datatype conn_event =
  ConnectCall string "string option"
| SocketConnected
| ApiReady
| HandshakeFailed
| SocketClosed nat
| TimerFired
| DisconnectCall

fun conn_step :: "ConnectionManager \<Rightarrow> conn_event \<Rightarrow> ConnectionManager" where
  "conn_step s (ConnectCall networkId customUrl) = snd (connect s networkId customUrl)"
| "conn_step s SocketConnected = socketConnected s"
| "conn_step s ApiReady = apiReady s"
| "conn_step s HandshakeFailed = handshakeFailed s"
| "conn_step s (SocketClosed k) = socketClosed s k"
| "conn_step s TimerFired = timerFired s"
| "conn_step s DisconnectCall = disconnect s"

definition conn_run :: "ConnectionManager \<Rightarrow> conn_event list \<Rightarrow> ConnectionManager" where
  "conn_run s events = foldl conn_step s events"

text \<open>
  One step of the backoff: the counter and the recorded delays stay; or the counter is set
  to 0; or the counter was below 5, goes up by one and the delay for its new value is
  recorded.
\<close>

definition backoff_step :: "ConnectionManager \<Rightarrow> ConnectionManager \<Rightarrow> bool" where
  "backoff_step s s' =
     ((reconnectAttempts s' = reconnectAttempts s \<and> reconnectDelays s' = reconnectDelays s)
      \<or> (reconnectAttempts s' = 0 \<and> reconnectDelays s' = reconnectDelays s)
      \<or> (reconnectAttempts s < 5 \<and> reconnectAttempts s' = Suc (reconnectAttempts s)
          \<and> reconnectDelays s' =
              reconnectDelays s @ [min (2000 * Suc (reconnectAttempts s)) 30000]))"

section \<open>The connection manager: the signing pipeline\<close>

text \<open>
  Lines 311-502 and 911-964.  A call of a method is \<open>Returns\<close> with the value its promise
  resolves to, \<open>Raises\<close> with the error its promise rejects with, or \<open>Pending\<close> when the
  promise never settles.  What the chain API answers during one call is the record
  \<open>Chain\<close>:
  \<^item> \<open>hasModule m\<close>: \<^verbatim>\<open>api.tx.m\<close> is defined; \<open>extrinsic m f args\<close>: \<open>None\<close> when
    \<^verbatim>\<open>api.tx.m.f\<close> is not defined, else what the call \<^verbatim>\<open>api.tx.m.f(args)\<close> gives;
  \<^item> \<open>accountNextIndex\<close>; \<open>createSignerPayload\<close>, the bytes to sign;
  \<^item> \<open>addSignature\<close>: the error that \<^verbatim>\<open>tx.addSignature(address, signature, payload)\<close>
    raises, if it raises one; otherwise the library stores the signer and the signature in
    the transaction;
  \<^item> \<open>send\<close>: \<^verbatim>\<open>tx.send(callback)\<close> is rejected, or calls the callback with a list of
    status updates; \<open>sendPlain\<close>: \<^verbatim>\<open>tx.send()\<close> gives the hash or is rejected;
  \<^item> \<open>txHash\<close>: \<^verbatim>\<open>tx.hash.toHex()\<close>.
  The errors are \<^verbatim>\<open>Error\<close> objects, and \<open>message\<close> is their \<^verbatim>\<open>message\<close>.  The texts of the
  two \<^verbatim>\<open>TypeError\<close>s of line 355 are the ones that Chrome gives.
\<close>

datatype 'a outcome = Returns 'a | Raises js_error | Pending

datatype Arg = AString string | ANumber int | ABool bool

record Tx =
  tx_method :: string
  tx_args :: "Arg list"
  tx_signature :: "(string \<times> byte list) option"

text \<open>
  A dispatch error: a module error with the section, the name and the documentation that
  \<^verbatim>\<open>findMetaError\<close> gives for it, or another error; both with their \<^verbatim>\<open>toString()\<close>.
\<close>

datatype DispatchError = ModuleError string string "string list" string | OtherError string

record TxUpdate =
  isInBlock :: bool
  isFinalized :: bool
  dispatchError :: "DispatchError option"

datatype send_outcome = Rejected js_error | Updates "TxUpdate list"

record Chain =
  hasModule :: "string \<Rightarrow> bool"
  extrinsic :: "string \<Rightarrow> string \<Rightarrow> Arg list \<Rightarrow> (js_error + Tx) option"
  accountNextIndex :: "string \<Rightarrow> js_error + nat"
  createSignerPayload :: "Tx \<Rightarrow> nat \<Rightarrow> js_error + byte list"
  addSignature :: "Tx \<Rightarrow> string \<Rightarrow> byte list \<Rightarrow> js_error option"
  send :: "Tx \<Rightarrow> send_outcome"
  sendPlain :: "Tx \<Rightarrow> js_error + string"
  txHash :: "Tx \<Rightarrow> string"

record Signer =
  address :: string
  sign :: "byte list \<Rightarrow> js_error + byte list"

record TransactionResult =
  success :: bool
  r_hash :: "string option"
  r_error :: "string option"

definition message :: "js_error \<Rightarrow> string" where
  "message e =
     (case e of
        Error m \<Rightarrow> m
      | TypeError m \<Rightarrow> m
      | RangeError \<Rightarrow> ''offset is out of bounds''
      | InvalidCharacterError \<Rightarrow> ''The string to be decoded is not correctly encoded.''
      | OperationError \<Rightarrow> ''The operation failed for an operation-specific reason'')"

definition failure :: "string \<Rightarrow> TransactionResult" where
  "failure m = \<lparr>success = False, r_hash = None, r_error = Some m\<rparr>"

definition included :: "string \<Rightarrow> TransactionResult" where
  "included h = \<lparr>success = True, r_hash = Some h, r_error = None\<rparr>"

fun join :: "string list \<Rightarrow> string" where
  "join [] = []"
| "join [d] = d"
| "join (d # ds) = d @ '' '' @ join ds"

text \<open>Lines 316-337, the callback of \<^verbatim>\<open>tx.send\<close>, and lines 338-343.\<close>

definition inBlock :: "TxUpdate \<Rightarrow> bool" where
  "inBlock u = (isInBlock u \<or> isFinalized u)"

definition dispatchText :: "ConnectionManager \<Rightarrow> DispatchError \<Rightarrow> string" where
  "dispatchText s d =
     (case d of
        ModuleError section_name error_name docs str \<Rightarrow>
          if api s \<noteq> None then section_name @ ''.'' @ error_name @ '': '' @ join docs else str
      | OtherError str \<Rightarrow> str)"

definition submitAndWaitForBlock ::
  "ConnectionManager \<Rightarrow> Chain \<Rightarrow> Tx \<Rightarrow> TransactionResult outcome" where
  "submitAndWaitForBlock s chain tx =
     (case send chain tx of
        Rejected e \<Rightarrow> Returns (failure (message e))
      | Updates updates \<Rightarrow>
          (case find inBlock updates of
             None \<Rightarrow> Pending
           | Some u \<Rightarrow>
               (case dispatchError u of
                  Some d \<Rightarrow> Returns (failure (dispatchText s d))
                | None \<Rightarrow> Returns (included (txHash chain tx)))))"

text \<open>
  The lines that every method repeats (358-374 in \<^verbatim>\<open>transfer\<close>): the nonce, the payload,
  the signature of the signer, its wrapping, and \<^verbatim>\<open>addSignature\<close>.  \<open>Inl\<close> is the error
  that the enclosing \<^verbatim>\<open>try\<close> catches; \<open>Inr\<close> is the transaction with the signature
  attached.
\<close>

definition signTx :: "Chain \<Rightarrow> Signer \<Rightarrow> Tx \<Rightarrow> js_error + Tx" where
  "signTx chain signer tx =
     (case accountNextIndex chain (address signer) of
        Inl e \<Rightarrow> Inl e
      | Inr nonce \<Rightarrow>
          (case createSignerPayload chain tx nonce of
             Inl e \<Rightarrow> Inl e
           | Inr data \<Rightarrow>
               (case sign signer data of
                  Inl e \<Rightarrow> Inl e
                | Inr rawSignature \<Rightarrow>
                    (case wrapSignature rawSignature of
                       Inl e \<Rightarrow> Inl e
                     | Inr multiSignature \<Rightarrow>
                         (case addSignature chain tx (address signer) multiSignature of
                            Some e \<Rightarrow> Inl e
                          | None \<Rightarrow>
                              Inr (tx\<lparr>tx_signature :=
                                        Some (address signer, multiSignature)\<rparr>))))))"

text \<open>
  \<^verbatim>\<open>a?.f?.(args) || b?.g?.(args) || ...\<close>: the first extrinsic that is defined is called;
  \<open>Inr None\<close> when none is.
\<close>

fun firstExtrinsic :: "Chain \<Rightarrow> (string \<times> string) list \<Rightarrow> Arg list \<Rightarrow> js_error + Tx option" where
  "firstExtrinsic chain [] args = Inr None"
| "firstExtrinsic chain ((m, f) # rest) args =
     (case (if hasModule chain m then extrinsic chain m f args else None) of
        None \<Rightarrow> firstExtrinsic chain rest args
      | Some (Inl e) \<Rightarrow> Inl e
      | Some (Inr tx) \<Rightarrow> Inr (Some tx))"

text \<open>
  The first statements of each \<^verbatim>\<open>try\<close>, which build the transaction: line 355, and lines
  393-399, 433-439 and 474-480 with their \<^verbatim>\<open>throw\<close>.
\<close>

definition transferKeepAlive :: "Chain \<Rightarrow> string \<Rightarrow> int \<Rightarrow> js_error + Tx" where
  "transferKeepAlive chain to amount =
     (if \<not> hasModule chain ''balances''
      then Inl (TypeError ''Cannot read properties of undefined (reading 'transferKeepAlive')'')
      else
        (case extrinsic chain ''balances'' ''transferKeepAlive'' [AString to, ANumber amount] of
           None \<Rightarrow> Inl (TypeError ''this.api.tx.balances.transferKeepAlive is not a function'')
         | Some r \<Rightarrow> r))"

definition orThrow :: "js_error + Tx option \<Rightarrow> string \<Rightarrow> js_error + Tx" where
  "orThrow r unavailable =
     (case r of
        Inl e \<Rightarrow> Inl e
      | Inr None \<Rightarrow> Inl (Error unavailable)
      | Inr (Some tx) \<Rightarrow> Inr tx)"

definition addStakeExtrinsic :: "Chain \<Rightarrow> string \<Rightarrow> int \<Rightarrow> int \<Rightarrow> js_error + Tx" where
  "addStakeExtrinsic chain hotkey netuid amount =
     orThrow
       (firstExtrinsic chain
          [(''aetensorModule'', ''addStake''), (''aetensorModule'', ''add_stake''),
           (''subtensorModule'', ''addStake'')]
          [AString hotkey, ANumber netuid, ANumber amount])
       ''Staking not available on this network''"

definition removeStakeExtrinsic :: "Chain \<Rightarrow> string \<Rightarrow> int \<Rightarrow> int \<Rightarrow> js_error + Tx" where
  "removeStakeExtrinsic chain hotkey netuid amount =
     orThrow
       (firstExtrinsic chain
          [(''aetensorModule'', ''removeStake''), (''aetensorModule'', ''remove_stake''),
           (''subtensorModule'', ''removeStake'')]
          [AString hotkey, ANumber netuid, ANumber amount])
       ''Unstaking not available on this network''"

definition moveStakeExtrinsic :: "Chain \<Rightarrow> string \<Rightarrow> string \<Rightarrow> int \<Rightarrow> int \<Rightarrow> js_error + Tx" where
  "moveStakeExtrinsic chain srcHotkey destHotkey netuid amount =
     orThrow
       (firstExtrinsic chain
          [(''aetensorModule'', ''moveStake''), (''aetensorModule'', ''move_stake''),
           (''subtensorModule'', ''moveStake'')]
          [AString srcHotkey, AString destHotkey, ANumber netuid, ANumber amount])
       ''Move stake not available on this network''"

definition addStakeLimitExtrinsic ::
  "Chain \<Rightarrow> string \<Rightarrow> int \<Rightarrow> int \<Rightarrow> int \<Rightarrow> bool \<Rightarrow> js_error + Tx option" where
  "addStakeLimitExtrinsic chain hotkey netuid amount limitPrice allowPartial =
     firstExtrinsic chain
       [(''aetensorModule'', ''addStakeLimit''), (''subtensorModule'', ''addStakeLimit'')]
       [AString hotkey, ANumber netuid, ANumber amount, ANumber limitPrice, ABool allowPartial]"

text \<open>
  The body that \<^verbatim>\<open>transfer\<close>, \<^verbatim>\<open>addStake\<close>, \<^verbatim>\<open>removeStake\<close> and \<^verbatim>\<open>moveStake\<close> share:
  the check of the handle, which stands before the \<^verbatim>\<open>try\<close>, and the \<^verbatim>\<open>try\<close> whose
  \<^verbatim>\<open>catch\<close> returns the message of the error.
\<close>

definition signAndSubmit ::
  "ConnectionManager \<Rightarrow> Chain \<Rightarrow> Signer \<Rightarrow> js_error + Tx \<Rightarrow> TransactionResult outcome" where
  "signAndSubmit s chain signer built =
     (if api s = None then Raises (Error ''Not connected'')
      else
        (case built of
           Inl e \<Rightarrow> Returns (failure (message e))
         | Inr tx \<Rightarrow>
             (case signTx chain signer tx of
                Inl e \<Rightarrow> Returns (failure (message e))
              | Inr signedTx \<Rightarrow> submitAndWaitForBlock s chain signedTx)))"

definition transfer ::
  "ConnectionManager \<Rightarrow> Chain \<Rightarrow> Signer \<Rightarrow> string \<Rightarrow> int \<Rightarrow> TransactionResult outcome" where
  "transfer s chain signer to amount =
     signAndSubmit s chain signer (transferKeepAlive chain to amount)"

definition addStake ::
  "ConnectionManager \<Rightarrow> Chain \<Rightarrow> Signer \<Rightarrow> string \<Rightarrow> int \<Rightarrow> int \<Rightarrow> TransactionResult outcome" where
  "addStake s chain signer hotkey netuid amount =
     signAndSubmit s chain signer (addStakeExtrinsic chain hotkey netuid amount)"

definition removeStake ::
  "ConnectionManager \<Rightarrow> Chain \<Rightarrow> Signer \<Rightarrow> string \<Rightarrow> int \<Rightarrow> int \<Rightarrow> TransactionResult outcome" where
  "removeStake s chain signer hotkey netuid amount =
     signAndSubmit s chain signer (removeStakeExtrinsic chain hotkey netuid amount)"

definition moveStake ::
  "ConnectionManager \<Rightarrow> Chain \<Rightarrow> Signer \<Rightarrow> string \<Rightarrow> string \<Rightarrow> int \<Rightarrow> int
     \<Rightarrow> TransactionResult outcome" where
  "moveStake s chain signer srcHotkey destHotkey netuid amount =
     signAndSubmit s chain signer (moveStakeExtrinsic chain srcHotkey destHotkey netuid amount)"

text \<open>
  \<^verbatim>\<open>addStakeLimit\<close>, lines 911-964: without the extrinsic it returns what \<^verbatim>\<open>addStake\<close>
  gives; with it, it signs in the same way and returns the hash that \<^verbatim>\<open>tx.send()\<close>
  gives, without waiting for a block.
\<close>

definition addStakeLimit ::
  "ConnectionManager \<Rightarrow> Chain \<Rightarrow> Signer \<Rightarrow> string \<Rightarrow> int \<Rightarrow> int \<Rightarrow> int \<Rightarrow> bool
     \<Rightarrow> TransactionResult outcome" where
  "addStakeLimit s chain signer hotkey netuid amount limitPrice allowPartial =
     (if api s = None then Raises (Error ''Not connected'')
      else
        (case addStakeLimitExtrinsic chain hotkey netuid amount limitPrice allowPartial of
           Inl e \<Rightarrow> Returns (failure (message e))
         | Inr None \<Rightarrow> addStake s chain signer hotkey netuid amount
         | Inr (Some tx) \<Rightarrow>
             (case signTx chain signer tx of
                Inl e \<Rightarrow> Returns (failure (message e))
              | Inr signedTx \<Rightarrow>
                  (case sendPlain chain signedTx of
                     Inl e \<Rightarrow> Returns (failure (message e))
                   | Inr h \<Rightarrow> Returns (included h)))))"

text \<open>
  What a structured outcome is, for a method whose \<^verbatim>\<open>try\<close> builds the transaction \<open>built\<close>
  and hands it to \<^verbatim>\<open>submitAndWaitForBlock\<close>.
  \<^item> The call does not raise, and a result has the hash and no error, or the error and
    no hash.
  \<^item> An error raised while the transaction is built or signed, and the error that
    \<^verbatim>\<open>tx.send\<close> is rejected with, are returned as \<open>failure\<close> with their message; so is a
    dispatch error that comes with the block.
  \<^item> Success is returned when, and only when, the chain reports the signed
    transaction in a block or finalized, without a dispatch error; the hash is the one of
    the signed transaction.
  \<^item> The call is pending when, and only when, the chain reports the signed transaction
    neither in a block nor finalized.
\<close>

definition accepted :: "Chain \<Rightarrow> Tx \<Rightarrow> bool" where
  "accepted chain tx =
     (\<exists>updates u. send chain tx = Updates updates \<and> find inBlock updates = Some u
        \<and> dispatchError u = None)"

definition neverInBlock :: "Chain \<Rightarrow> Tx \<Rightarrow> bool" where
  "neverInBlock chain tx =
     (\<exists>updates. send chain tx = Updates updates \<and> find inBlock updates = None)"

definition structured ::
  "ConnectionManager \<Rightarrow> Chain \<Rightarrow> Signer \<Rightarrow> js_error + Tx \<Rightarrow> TransactionResult outcome \<Rightarrow> bool" where
  "structured s chain signer built r =
     ((\<forall>e. r \<noteq> Raises e)
      \<and> (\<forall>res. r = Returns res \<longrightarrow> (\<exists>h. res = included h) \<or> (\<exists>m. res = failure m))
      \<and> (\<forall>e. built = Inl e \<longrightarrow> r = Returns (failure (message e)))
      \<and> (\<forall>tx e. built = Inr tx \<and> signTx chain signer tx = Inl e
            \<longrightarrow> r = Returns (failure (message e)))
      \<and> (\<forall>tx signedTx e.
            built = Inr tx \<and> signTx chain signer tx = Inr signedTx
            \<and> send chain signedTx = Rejected e
            \<longrightarrow> r = Returns (failure (message e)))
      \<and> (\<forall>tx signedTx updates u d.
            built = Inr tx \<and> signTx chain signer tx = Inr signedTx
            \<and> send chain signedTx = Updates updates \<and> find inBlock updates = Some u
            \<and> dispatchError u = Some d
            \<longrightarrow> r = Returns (failure (dispatchText s d)))
      \<and> (\<forall>res. r = Returns res \<and> success res
            \<longrightarrow> (\<exists>tx signedTx. built = Inr tx \<and> signTx chain signer tx = Inr signedTx
                   \<and> accepted chain signedTx \<and> res = included (txHash chain signedTx)))
      \<and> (\<forall>tx signedTx.
            built = Inr tx \<and> signTx chain signer tx = Inr signedTx \<and> accepted chain signedTx
            \<longrightarrow> r = Returns (included (txHash chain signedTx)))
      \<and> ((r = Pending)
           = (\<exists>tx signedTx. built = Inr tx \<and> signTx chain signer tx = Inr signedTx
                \<and> neverInBlock chain signedTx)))"

text \<open>
  The same for \<^verbatim>\<open>addStakeLimit\<close>, which returns what \<open>fallback\<close> gives when the extrinsic
  is not defined, and returns the hash that \<^verbatim>\<open>tx.send()\<close> gives otherwise.
\<close>

definition structured_limit ::
  "Chain \<Rightarrow> Signer \<Rightarrow> js_error + Tx option \<Rightarrow> TransactionResult outcome
     \<Rightarrow> TransactionResult outcome \<Rightarrow> bool" where
  "structured_limit chain signer built fallback r =
     ((\<forall>e. r \<noteq> Raises e)
      \<and> (\<forall>res. r = Returns res \<longrightarrow> (\<exists>h. res = included h) \<or> (\<exists>m. res = failure m))
      \<and> (\<forall>e. built = Inl e \<longrightarrow> r = Returns (failure (message e)))
      \<and> (built = Inr None \<longrightarrow> r = fallback)
      \<and> (\<forall>tx e. built = Inr (Some tx) \<and> signTx chain signer tx = Inl e
            \<longrightarrow> r = Returns (failure (message e)))
      \<and> (\<forall>tx signedTx e.
            built = Inr (Some tx) \<and> signTx chain signer tx = Inr signedTx
            \<and> sendPlain chain signedTx = Inl e
            \<longrightarrow> r = Returns (failure (message e)))
      \<and> (\<forall>tx signedTx h.
            built = Inr (Some tx) \<and> signTx chain signer tx = Inr signedTx
            \<and> sendPlain chain signedTx = Inr h
            \<longrightarrow> r = Returns (included h)))"

text \<open>
  The error \<open>e\<close> is raised while the transaction \<open>tx\<close> is signed: by the query of the
  nonce, by the creation of the payload, by the signer, by the wrapper (a signature of more
  than 64 bytes), or by \<^verbatim>\<open>addSignature\<close>; each after the steps before it have passed.
\<close>

definition raisedWhileSigning :: "Chain \<Rightarrow> Signer \<Rightarrow> Tx \<Rightarrow> js_error \<Rightarrow> bool" where
  "raisedWhileSigning chain signer tx e =
     (accountNextIndex chain (address signer) = Inl e
      \<or> (\<exists>nonce. accountNextIndex chain (address signer) = Inr nonce
            \<and> (createSignerPayload chain tx nonce = Inl e
                \<or> (\<exists>data. createSignerPayload chain tx nonce = Inr data
                      \<and> (sign signer data = Inl e
                          \<or> (\<exists>rawSignature. sign signer data = Inr rawSignature
                                \<and> (wrapSignature rawSignature = Inl e
                                    \<or> (\<exists>multiSignature.
                                          wrapSignature rawSignature = Inr multiSignature
                                          \<and> addSignature chain tx (address signer) multiSignature
                                              = Some e))))))))"

section \<open>The dApp handler: approvals\<close>

text \<open>
  \<^verbatim>\<open>background/dappHandler.ts\<close>, lines 9-20, 134-201.  The parameters of a request and the
  result of an approval are opaque strings.  The functions \<^verbatim>\<open>resolve\<close> and \<^verbatim>\<open>reject\<close> of a
  pending approval settle the promise that \<^verbatim>\<open>requestApproval\<close> returned; \<open>settlements\<close>
  records every call of one of them, with the id of the approval, in the order of the
  calls.  \<open>approvalTimers\<close> are the timers that \<^verbatim>\<open>setTimeout\<close> has set and that have not
  fired: the time each is due and the id its callback holds.  \<open>pendingDappRequest\<close> is
  the entry of the session storage that \<^verbatim>\<open>openApprovalPopup\<close> writes.
\<close>

record PendingApproval =
  pa_id :: nat
  pa_origin :: string
  pa_method :: string
  pa_params :: string

datatype settlement = Resolved string | Refused js_error

record DappHandler =
  pendingApprovals :: "nat \<rightharpoonup> PendingApproval"
  nextApprovalId :: nat
  approvalTimers :: "(int \<times> nat) list"
  settlements :: "(nat \<times> settlement) list"
  pendingDappRequest :: "(string \<times> string \<times> string \<times> int) option"

text \<open>
  \<^verbatim>\<open>openApprovalPopup\<close>: writing the session storage or opening the popup may raise.
\<close>

datatype popup = PopupOpened | StorageRaises js_error | OpenRaises js_error

definition openApprovalPopup ::
  "DappHandler \<Rightarrow> string \<Rightarrow> string \<Rightarrow> string \<Rightarrow> int \<Rightarrow> popup \<Rightarrow> js_error option \<times> DappHandler" where
  "openApprovalPopup s methodName origin params now p =
     (case p of
        StorageRaises e \<Rightarrow> (Some e, s)
      | OpenRaises e \<Rightarrow> (Some e, s\<lparr>pendingDappRequest := Some (methodName, origin, params, now)\<rparr>)
      | PopupOpened \<Rightarrow> (None, s\<lparr>pendingDappRequest := Some (methodName, origin, params, now)\<rparr>))"

text \<open>
  \<^verbatim>\<open>requestApproval\<close> gives the id of the approval whose promise it returns, or the error
  of the popup.
\<close>

definition requestApproval ::
  "DappHandler \<Rightarrow> string \<Rightarrow> string \<Rightarrow> string \<Rightarrow> int \<Rightarrow> popup \<Rightarrow> (js_error + nat) \<times> DappHandler" where
  "requestApproval s origin methodName params now p =
     (case openApprovalPopup s methodName origin params now p of
        (Some e, s1) \<Rightarrow> (Inl e, s1)
      | (None, s1) \<Rightarrow>
          (let i = nextApprovalId s1
           in (Inr i,
               s1\<lparr>nextApprovalId := i + 1,
                  pendingApprovals := (pendingApprovals s1)
                    (i \<mapsto> \<lparr>pa_id = i, pa_origin = origin, pa_method = methodName,
                            pa_params = params\<rparr>),
                  approvalTimers := approvalTimers s1 @ [(now + 5 * 60 * 1000, i)]\<rparr>)))"

text \<open>The callback of the timer of the approval \<open>i\<close>.\<close>

definition approvalTimeout :: "DappHandler \<Rightarrow> nat \<Rightarrow> DappHandler" where
  "approvalTimeout s i =
     (case pendingApprovals s i of
        Some pending \<Rightarrow>
          s\<lparr>settlements := settlements s @ [(i, Refused (Error ''Request timeout''))],
            pendingApprovals := (pendingApprovals s)(i := None)\<rparr>
      | None \<Rightarrow> s)"

definition resolveApproval :: "DappHandler \<Rightarrow> nat \<Rightarrow> bool \<Rightarrow> string \<Rightarrow> DappHandler" where
  "resolveApproval s approvalId approved result =
     (case pendingApprovals s approvalId of
        None \<Rightarrow> s
      | Some pending \<Rightarrow>
          (let s1 = s\<lparr>pendingApprovals := (pendingApprovals s)(approvalId := None)\<rparr>
           in if approved
              then s1\<lparr>settlements := settlements s1 @ [(approvalId, Resolved result)]\<rparr>
              else s1\<lparr>settlements :=
                        settlements s1 @ [(approvalId, Refused (Error ''User rejected''))]\<rparr>))"

text \<open>
  Time passes to \<open>now\<close>: the timers due by then fire, in the order they were set.
\<close>

definition timePasses :: "DappHandler \<Rightarrow> int \<Rightarrow> DappHandler" where
  "timePasses s now =
     foldl approvalTimeout
       (s\<lparr>approvalTimers := filter (\<lambda>t. \<not> fst t \<le> now) (approvalTimers s)\<rparr>)
       (map snd (filter (\<lambda>t. fst t \<le> now) (approvalTimers s)))"

text \<open>What happens to a handler, and a run of such events.\<close>

datatype dapp_event =
  Request string string string int popup | Resolve nat bool string | TimePasses int

fun dapp_step :: "DappHandler \<Rightarrow> dapp_event \<Rightarrow> DappHandler" where
  "dapp_step s (Request origin methodName params now p) =
     snd (requestApproval s origin methodName params now p)"
| "dapp_step s (Resolve approvalId approved result) = resolveApproval s approvalId approved result"
| "dapp_step s (TimePasses now) = timePasses s now"

definition dapp_run :: "DappHandler \<Rightarrow> dapp_event list \<Rightarrow> DappHandler" where
  "dapp_run s events = foldl dapp_step s events"

fun resolves :: "nat \<Rightarrow> dapp_event \<Rightarrow> bool" where
  "resolves i (Resolve approvalId approved result) = (approvalId = i)"
| "resolves i (Request origin methodName params now p) = False"
| "resolves i (TimePasses now) = False"

text \<open>
  The approval \<open>i\<close>, requested with its timer due at \<open>due\<close>, is waiting (pending, its timer
  set, not settled, its id already given out) or has timed out (not pending, refused once
  with the timeout error and not settled otherwise).  In a handler that runs from its
  start, every id that is pending or settled has been given out: it is below the counter.
\<close>

definition waiting :: "DappHandler \<Rightarrow> nat \<Rightarrow> int \<Rightarrow> bool" where
  "waiting s i due =
     (pendingApprovals s i \<noteq> None \<and> (due, i) \<in> set (approvalTimers s)
      \<and> i < nextApprovalId s \<and> i \<notin> fst ` set (settlements s))"

definition timedOut :: "DappHandler \<Rightarrow> nat \<Rightarrow> bool" where
  "timedOut s i =
     (pendingApprovals s i = None \<and> i < nextApprovalId s
      \<and> filter (\<lambda>x. fst x = i) (settlements s) = [(i, Refused (Error ''Request timeout''))])"

definition unsettled :: "DappHandler \<Rightarrow> nat \<Rightarrow> bool" where
  "unsettled s i = (pendingApprovals s i \<noteq> None \<and> i < nextApprovalId s
                    \<and> i \<notin> fst ` set (settlements s))"

definition givenOut :: "DappHandler \<Rightarrow> bool" where
  "givenOut s =
     (\<forall>j. pendingApprovals s j \<noteq> None \<or> j \<in> fst ` set (settlements s)
          \<longrightarrow> j < nextApprovalId s)"

section \<open>An instance of the platform\<close>

text \<open>
  A small executable platform, on which the theorems below are run at concrete inputs.
  Its key derivation appends the salt to the bytes of the password; its cipher writes the
  key and the nonce, each byte behind a mark, in front of the data and checks them when
  it decrypts; its base64 is the identity on binary strings.
\<close>

fun demo_wrap :: "byte list \<Rightarrow> byte list \<Rightarrow> byte list" where
  "demo_wrap [] d = 0 # d"
| "demo_wrap (b # k) d = 1 # b # demo_wrap k d"

fun demo_unwrap :: "byte list \<Rightarrow> byte list \<Rightarrow> byte list option" where
  "demo_unwrap [] [] = None"
| "demo_unwrap [] (m # c) = (if m = 0 then Some c else None)"
| "demo_unwrap (b # k) [] = None"
| "demo_unwrap (b # k) [m] = None"
| "demo_unwrap (b # k) (m # b' # c) = (if m = 1 \<and> b' = b then demo_unwrap k c else None)"

definition demo_binary :: "jsstring \<Rightarrow> jsstring option" where
  "demo_binary s = (if list_all (\<lambda>c. c \<le> 0xFF) s then Some s else None)"

definition demo_api :: webcrypto where
  "demo_api =
     \<lparr>pbkdf2 = (\<lambda>pw salt_bytes n. pw @ salt_bytes),
      aes_gcm_encrypt = (\<lambda>k iv_bytes d. demo_wrap (k @ iv_bytes) d),
      aes_gcm_decrypt = (\<lambda>k iv_bytes c. demo_unwrap (k @ iv_bytes) c),
      btoa = demo_binary,
      atob = demo_binary\<rparr>"

definition demo_keyring :: keyring where
  "demo_keyring =
     \<lparr>addFromUri = (\<lambda>uri. if uri = [] then None else Some (KeyringPair ''5Uri'')),
      addFromSeed = (\<lambda>seed. if seed = [] then None else Some (KeyringPair ''5Seed'')),
      addFromJson = (\<lambda>json pass. if json = [] then None else Some (KeyringPair ''5Json''))\<rparr>"

text \<open>
  A store with the coldkey \<open>w1\<close>, whose secret \<open>s\<close> is encrypted under the password \<open>p\<close>,
  the watch-only wallet \<open>w2\<close>, two hotkeys of \<open>w1\<close> (the first under \<open>p\<close>, the second
  under \<open>q\<close>) and one hotkey of \<open>w2\<close>.
\<close>

definition demo_package :: "16 word \<Rightarrow> 16 word \<Rightarrow> EncryptedData" where
  "demo_package pw secret =
     \<lparr>ciphertext = [1, pw, 1, 7, 1, 9, 0, secret], iv = [9], salt = [7],
      algorithm = ''aes-256-gcm'', kdf = ''pbkdf2'',
      kdfParams = Some \<lparr>iterations = Some 900000, hash = Some ''SHA-256''\<rparr>\<rparr>"

text \<open>
  The package of the plaintext that is one unpaired surrogate, under the password \<open>p\<close>, and
  the package of the secret \<open>s\<close> under the password that is one unpaired surrogate.
\<close>

definition demo_surrogate_plaintext :: EncryptedData where
  "demo_surrogate_plaintext =
     \<lparr>ciphertext = [1, 0x70, 1, 7, 1, 9, 0, 0xEF, 0xBF, 0xBD], iv = [9], salt = [7],
      algorithm = ''aes-256-gcm'', kdf = ''pbkdf2'',
      kdfParams = Some \<lparr>iterations = Some 900000, hash = Some ''SHA-256''\<rparr>\<rparr>"


definition demo_wallet :: "string \<Rightarrow> WalletType \<Rightarrow> EncryptedWallet" where
  "demo_wallet i t =
     \<lparr>w_id = i, w_version = 1, w_type = t, w_name = ''wallet'', w_address = ''5A'' @ i,
      w_encrypted = demo_package 0x70 0x73, w_derivationPath = Some [],
      w_keystorePassword = None, w_createdAt = 0, w_updatedAt = 0\<rparr>"

definition demo_hotkey :: "string \<Rightarrow> string \<Rightarrow> 16 word \<Rightarrow> EncryptedHotkey" where
  "demo_hotkey i c pw =
     \<lparr>h_id = i, h_name = ''default'', h_address = ''5H'' @ i, h_coldkeyId = c,
      h_encrypted = demo_package pw 0x6D, h_registeredNeuronets = [], h_createdAt = 0,
      h_backedUp = False\<rparr>"

definition demo_service :: WalletService where
  "demo_service =
     \<lparr>wallets = [demo_wallet ''w1'' HD, demo_wallet ''w2'' Watch],
      activeWalletId = Some ''w1'',
      autoLockTimeout = 15,
      hotkeys = [demo_hotkey ''h1'' ''w1'' 0x70, demo_hotkey ''h2'' ''w1'' 0x71,
                 demo_hotkey ''h3'' ''w2'' 0x70],
      lockState = \<lparr>isLocked = True, lastUnlockedAt = None\<rparr>,
      unlockedWallets = Map.empty,
      unlockedHotkeys = Map.empty,
      unlockAttempts = Map.empty,
      lockTimeout = None\<rparr>"

text \<open>The store after five failed attempts on \<open>w1\<close>, the last one at time 5000.\<close>

definition demo_limited :: WalletService where
  "demo_limited = demo_service\<lparr>unlockAttempts := [''w1'' \<mapsto> \<lparr>count = 5, lastAttempt = 5000\<rparr>]\<rparr>"

text \<open>
  A manager before the first connection and one connected to the main network, over its
  first provider; a chain that knows only the transfer and reports every transaction in a
  block; a chain that reports no transaction in a block; a signer with a fixed signature
  of 64 bytes.
\<close>

definition demo_disconnected :: ConnectionManager where
  "demo_disconnected =
     \<lparr>api = None, provider = None, currentNetwork = None, isConnecting = False,
      reconnectAttempts = 0, providers = [], pendingConnect = Idle, reconnectDelays = [],
      timersFired = 0, connectionChanges = []\<rparr>"

definition demo_connected :: ConnectionManager where
  "demo_connected =
     \<lparr>api = Some 0, provider = Some 0,
      currentNetwork =
        Some (Config \<lparr>n_id = ''mainnet'', n_name = ''Mainnet'',
                       n_url = ''wss://entrypoint-mainnet.aetron.ai:443''\<rparr>),
      isConnecting = False, reconnectAttempts = 0,
      providers = [\<lparr>endpoint = ''wss://entrypoint-mainnet.aetron.ai:443'', socket = OPEN,
                     onDisconnected = True\<rparr>],
      pendingConnect = Idle, reconnectDelays = [], timersFired = 0,
      connectionChanges = [True]\<rparr>"

definition demo_tx :: "Arg list \<Rightarrow> Tx" where
  "demo_tx args = \<lparr>tx_method = ''balances.transferKeepAlive'', tx_args = args, tx_signature = None\<rparr>"

definition demo_chain :: Chain where
  "demo_chain =
     \<lparr>hasModule = (\<lambda>m. m = ''balances''),
      extrinsic =
        (\<lambda>m f args.
           if m = ''balances'' \<and> f = ''transferKeepAlive'' then Some (Inr (demo_tx args))
           else None),
      accountNextIndex = (\<lambda>a. Inr 0),
      createSignerPayload = (\<lambda>tx nonce. Inr [1, 2, 3]),
      addSignature = (\<lambda>tx a sig. None),
      send =
        (\<lambda>tx. Updates [\<lparr>isInBlock = False, isFinalized = False, dispatchError = None\<rparr>,
                        \<lparr>isInBlock = True, isFinalized = False, dispatchError = None\<rparr>]),
      sendPlain = (\<lambda>tx. Inr ''0xabc''),
      txHash = (\<lambda>tx. ''0xabc'')\<rparr>"

definition demo_silent_chain :: Chain where
  "demo_silent_chain =
     demo_chain\<lparr>send :=
       (\<lambda>tx. Updates [\<lparr>isInBlock = False, isFinalized = False, dispatchError = None\<rparr>])\<rparr>"

definition demo_signer :: Signer where
  "demo_signer = \<lparr>address = ''5Aw1'', sign = (\<lambda>data. Inr (replicate 64 0xAB))\<rparr>"

text \<open>A handler that has given out no approval yet.\<close>

definition demo_handler :: DappHandler where
  "demo_handler =
     \<lparr>pendingApprovals = Map.empty, nextApprovalId = 1, approvalTimers = [],
      settlements = [], pendingDappRequest = None\<rparr>"

text \<open>The handler after a request for a signature at time 1000: the approval has the id 1.\<close>

definition demo_requested :: DappHandler where
  "demo_requested =
     snd (requestApproval demo_handler ''https://dapp.example'' ''signMessage'' ''hello'' 1000
            PopupOpened)"

chapter \<open>Properties\<close>

section \<open>The platform instance, evaluated\<close>

lemmas demo_defs = demo_service_def demo_wallet_def demo_hotkey_def demo_package_def

lemmas demo_crypto_defs = decrypt_def encrypt_def demo_api_def deriveKey_def
  TextEncoder_encode_def TextDecoder_decode_def utf8_bytes_def utf16_units_def strip_bom_def
  base64ToUint8Array_def uint8ArrayToBase64_def demo_binary_def iterations_or_default_def
  PBKDF2_ITERATIONS_def

lemma demo_decrypt_wrong: "decrypt demo_api (demo_package 0x70 0x73) [0x71] = Inl OperationError"
  by (simp add: demo_crypto_defs demo_package_def)

lemma demo_decrypt_right: "decrypt demo_api (demo_package 0x70 0x73) [0x70] = Inr [0x73]"
  by (simp add: demo_crypto_defs demo_package_def)

lemma demo_find_w1: "find (\<lambda>w. w_id w = ''w1'') (wallets demo_service) = Some (demo_wallet ''w1'' HD)"
  by (simp add: demo_service_def demo_wallet_def)

lemma demo_find_w2: "find (\<lambda>w. w_id w = ''w2'') (wallets demo_service) = Some (demo_wallet ''w2'' Watch)"
  by (simp add: demo_service_def demo_wallet_def)

section \<open>The encoder and the decoder of text\<close>

subsection \<open>One code point: the steps of the decoder\<close>

lemma decode_1:
  assumes "cp < 0x80"
  shows "utf8_decode 0 0 0x80 0xBF (utf8_bytes cp @ rest) = cp # utf8_decode 0 0 0x80 0xBF rest"
  using assms by (simp add: utf8_bytes_def)

lemma start_2:
  assumes "0xC2 \<le> b" "b \<le> 0xDF"
  shows "utf8_decode 0 0 0x80 0xBF (b # bs) = utf8_decode (b mod 0x20) 1 0x80 0xBF bs"
  using assms by simp

lemma cont_last:
  assumes "lo \<le> b" "b \<le> hi"
  shows "utf8_decode cp 1 lo hi (b # bs) = (cp * 0x40 + b mod 0x40) # utf8_decode 0 0 0x80 0xBF bs"
  using assms by simp

lemma cont_more:
  assumes "lo \<le> b" "b \<le> hi" "1 < needed"
  shows "utf8_decode cp needed lo hi (b # bs) = utf8_decode (cp * 0x40 + b mod 0x40) (needed - 1) 0x80 0xBF bs"
  using assms by simp

lemma start_3:
  assumes "0xE0 \<le> b" "b \<le> 0xEF"
  shows "utf8_decode 0 0 0x80 0xBF (b # bs) =
           utf8_decode (b mod 0x10) 2 (if b = 0xE0 then 0xA0 else 0x80)
             (if b = 0xED then 0x9F else 0xBF) bs"
  using assms by simp

lemma start_4:
  assumes "0xF0 \<le> b" "b \<le> 0xF4"
  shows "utf8_decode 0 0 0x80 0xBF (b # bs) =
           utf8_decode (b mod 0x8) 3 (if b = 0xF0 then 0x90 else 0x80)
             (if b = 0xF4 then 0x8F else 0xBF) bs"
  using assms by simp

lemma mod_digit: "x < m \<Longrightarrow> (k * m + x) mod m = (x::nat)"
  by simp

lemma digits2: "(n::nat) = n div (m * k) * (m * k) + n div m mod k * m + n mod m"
proof -
  have "n mod (m * k) = m * (n div m mod k) + n mod m" by (rule mod_mult2_eq)
  moreover have "n = n div (m * k) * (m * k) + n mod (m * k)"
    by (rule div_mult_mod_eq [symmetric])
  ultimately show ?thesis by (simp add: ac_simps)
qed

lemma digits3:
  "(cp::nat) = cp div 0x1000 * 0x1000 + cp div 0x40 mod 0x40 * 0x40 + cp mod 0x40"
  using digits2 [of cp 64 64] by simp

lemma digits4:
  "(cp::nat) = cp div 0x40000 * 0x40000 + cp div 0x1000 mod 0x40 * 0x1000
                 + cp div 0x40 mod 0x40 * 0x40 + cp mod 0x40"
proof -
  have "cp = cp div 0x40000 * 0x40000 + cp div 0x1000 mod 0x40 * 0x1000 + cp mod 0x1000"
    using digits2 [of cp 4096 64] by simp
  moreover have "cp mod 0x1000 = cp div 0x40 mod 0x40 * 0x40 + cp mod 0x40"
    using mod_mult2_eq [of cp 64 64] by simp
  ultimately show ?thesis by simp
qed

lemma decode_2:
  assumes "0x80 \<le> cp" "cp < 0x800"
  shows "utf8_decode 0 0 0x80 0xBF (utf8_bytes cp @ rest) = cp # utf8_decode 0 0 0x80 0xBF rest"
proof -
  define a where "a = cp div 0x40"
  define c where "c = cp mod 0x40"
  have cp: "cp = a * 0x40 + c" by (simp add: a_def c_def)
  have c: "c < 0x40" by (simp add: c_def)
  have a: "2 \<le> a" "a < 0x20" using assms cp c by arith+
  have b1: "0xC2 \<le> 0xC0 + a" "0xC0 + a \<le> 0xDF" using a by arith+
  have m1: "(0xC0 + a) mod 0x20 = a" using mod_digit [of a 32 6] a by simp
  have b2: "0x80 \<le> 0x80 + c" "0x80 + c \<le> 0xBF" using c by arith+
  have m2: "(0x80 + c) mod 0x40 = c" using mod_digit [of c 64 2] c by simp
  have bytes: "utf8_bytes cp = [0xC0 + a, 0x80 + c]"
    using assms by (simp add: utf8_bytes_def a_def c_def)
  have "utf8_decode 0 0 0x80 0xBF ((0xC0 + a) # (0x80 + c) # rest) =
          utf8_decode a 1 0x80 0xBF ((0x80 + c) # rest)"
    by (simp only: start_2 [OF b1] m1)
  also have "\<dots> = (a * 0x40 + c) # utf8_decode 0 0 0x80 0xBF rest"
    by (simp only: cont_last [OF b2] m2)
  finally show ?thesis unfolding bytes by (simp del: utf8_decode.simps add: cp [symmetric])
qed

lemma decode_3:
  assumes "0x800 \<le> cp" "cp < 0x10000" "\<not> (0xD800 \<le> cp \<and> cp \<le> 0xDFFF)"
  shows "utf8_decode 0 0 0x80 0xBF (utf8_bytes cp @ rest) = cp # utf8_decode 0 0 0x80 0xBF rest"
proof -
  define a where "a = cp div 0x1000"
  define b where "b = cp div 0x40 mod 0x40"
  define c where "c = cp mod 0x40"
  have cp: "cp = a * 0x1000 + b * 0x40 + c" unfolding a_def b_def c_def by (rule digits3)
  have b: "b < 0x40" and c: "c < 0x40" by (simp_all add: b_def c_def)
  have a: "a < 0x10" using assms(2) cp by arith
  let ?lo = "if 0xE0 + a = 0xE0 then 0xA0 else (0x80::nat)"
  let ?hi = "if 0xE0 + a = 0xED then 0x9F else (0xBF::nat)"
  have b1: "0xE0 \<le> 0xE0 + a" "0xE0 + a \<le> 0xEF" using a by arith+
  have m1: "(0xE0 + a) mod 0x10 = a" using mod_digit [of a 16 14] a by simp
  have lo0: "a = 0 \<Longrightarrow> 0x20 \<le> b" using assms(1) cp c by arith
  have hi0: "a = 0xD \<Longrightarrow> b < 0x20" using assms(3) cp b c by arith
  have lo: "?lo \<le> 0x80 + b" using lo0 by auto
  have hi: "0x80 + b \<le> ?hi" using hi0 b by auto
  have m2: "(0x80 + b) mod 0x40 = b" using mod_digit [of b 64 2] b by simp
  have b3: "0x80 \<le> 0x80 + c" "0x80 + c \<le> 0xBF" using c by arith+
  have m3: "(0x80 + c) mod 0x40 = c" using mod_digit [of c 64 2] c by simp
  have v: "(a * 0x40 + b) * 0x40 + c = cp" using cp by arith
  have bytes: "utf8_bytes cp = [0xE0 + a, 0x80 + b, 0x80 + c]"
    using assms by (simp add: utf8_bytes_def a_def b_def c_def)
  have "utf8_decode 0 0 0x80 0xBF ((0xE0 + a) # (0x80 + b) # (0x80 + c) # rest) =
          utf8_decode a 2 ?lo ?hi ((0x80 + b) # (0x80 + c) # rest)"
    by (simp only: start_3 [OF b1] m1)
  also have "\<dots> = utf8_decode (a * 0x40 + b) (2 - 1) 0x80 0xBF ((0x80 + c) # rest)"
    using cont_more [OF lo hi, of 2 a] m2 by (simp del: utf8_decode.simps)
  also have "\<dots> = ((a * 0x40 + b) * 0x40 + c) # utf8_decode 0 0 0x80 0xBF rest"
    using cont_last [OF b3, of "a * 0x40 + b"] m3 by (simp del: utf8_decode.simps)
  finally have e: "utf8_decode 0 0 0x80 0xBF ((0xE0 + a) # (0x80 + b) # (0x80 + c) # rest) =
                    ((a * 0x40 + b) * 0x40 + c) # utf8_decode 0 0 0x80 0xBF rest" .
  show ?thesis unfolding bytes using e by (simp only: v append_Cons append_Nil)
qed

lemma decode_4:
  assumes "0x10000 \<le> cp" "cp < 0x110000"
  shows "utf8_decode 0 0 0x80 0xBF (utf8_bytes cp @ rest) = cp # utf8_decode 0 0 0x80 0xBF rest"
proof -
  define a where "a = cp div 0x40000"
  define b where "b = cp div 0x1000 mod 0x40"
  define c where "c = cp div 0x40 mod 0x40"
  define d where "d = cp mod 0x40"
  have cp: "cp = a * 0x40000 + b * 0x1000 + c * 0x40 + d"
    unfolding a_def b_def c_def d_def by (rule digits4)
  have b: "b < 0x40" and c: "c < 0x40" and d: "d < 0x40" by (simp_all add: b_def c_def d_def)
  have a: "a < 0x5" using assms(2) cp by arith
  let ?lo = "if 0xF0 + a = 0xF0 then 0x90 else (0x80::nat)"
  let ?hi = "if 0xF0 + a = 0xF4 then 0x8F else (0xBF::nat)"
  have b1: "0xF0 \<le> 0xF0 + a" "0xF0 + a \<le> 0xF4" using a by arith+
  have m1: "(0xF0 + a) mod 0x8 = a" using mod_digit [of a 8 30] a by simp
  have lo0: "a = 0 \<Longrightarrow> 0x10 \<le> b" using assms(1) cp c d by arith
  have hi0: "a = 4 \<Longrightarrow> b < 0x10" using assms(2) cp by arith
  have lo: "?lo \<le> 0x80 + b" using lo0 by auto
  have hi: "0x80 + b \<le> ?hi" using hi0 b by auto
  have m2: "(0x80 + b) mod 0x40 = b" using mod_digit [of b 64 2] b by simp
  have b3: "0x80 \<le> 0x80 + c" "0x80 + c \<le> 0xBF" using c by arith+
  have m3: "(0x80 + c) mod 0x40 = c" using mod_digit [of c 64 2] c by simp
  have b4: "0x80 \<le> 0x80 + d" "0x80 + d \<le> 0xBF" using d by arith+
  have m4: "(0x80 + d) mod 0x40 = d" using mod_digit [of d 64 2] d by simp
  have v: "((a * 0x40 + b) * 0x40 + c) * 0x40 + d = cp" using cp by arith
  have bytes: "utf8_bytes cp = [0xF0 + a, 0x80 + b, 0x80 + c, 0x80 + d]"
    using assms by (simp add: utf8_bytes_def a_def b_def c_def d_def)
  have "utf8_decode 0 0 0x80 0xBF ((0xF0 + a) # (0x80 + b) # (0x80 + c) # (0x80 + d) # rest) =
          utf8_decode a 3 ?lo ?hi ((0x80 + b) # (0x80 + c) # (0x80 + d) # rest)"
    by (simp only: start_4 [OF b1] m1)
  also have "\<dots> = utf8_decode (a * 0x40 + b) (3 - 1) 0x80 0xBF
                    ((0x80 + c) # (0x80 + d) # rest)"
    using cont_more [OF lo hi, of 3 a] m2 by (simp del: utf8_decode.simps)
  also have "\<dots> = utf8_decode ((a * 0x40 + b) * 0x40 + c) (2 - 1) 0x80 0xBF ((0x80 + d) # rest)"
    using cont_more [OF b3, of 2 "a * 0x40 + b"] m3 by (simp del: utf8_decode.simps)
  also have "\<dots> = (((a * 0x40 + b) * 0x40 + c) * 0x40 + d) # utf8_decode 0 0 0x80 0xBF rest"
    using cont_last [OF b4, of "(a * 0x40 + b) * 0x40 + c"] m4 by (simp del: utf8_decode.simps)
  finally have e: "utf8_decode 0 0 0x80 0xBF
                     ((0xF0 + a) # (0x80 + b) # (0x80 + c) # (0x80 + d) # rest) =
                   (((a * 0x40 + b) * 0x40 + c) * 0x40 + d) # utf8_decode 0 0 0x80 0xBF rest" .
  show ?thesis unfolding bytes using e by (simp only: v append_Cons append_Nil)
qed

lemma decode_scalar:
  assumes "scalar cp"
  shows "utf8_decode 0 0 0x80 0xBF (utf8_bytes cp @ rest) = cp # utf8_decode 0 0 0x80 0xBF rest"
proof -
  consider "cp < 0x80" | "0x80 \<le> cp \<and> cp < 0x800" | "0x800 \<le> cp \<and> cp < 0x10000"
    | "0x10000 \<le> cp" by arith
  then show ?thesis
  proof cases
    case 1 then show ?thesis by (rule decode_1)
  next
    case 2 then show ?thesis using decode_2 by blast
  next
    case 3 then show ?thesis using decode_3 [of cp rest] assms by (simp del: utf8_decode.simps add: scalar_def)
  next
    case 4 then show ?thesis using decode_4 [of cp rest] assms by (simp del: utf8_decode.simps add: scalar_def)
  qed
qed

lemma decode_scalars:
  "list_all scalar cps \<Longrightarrow> utf8_decode 0 0 0x80 0xBF (concat (map utf8_bytes cps)) = cps"
  by (induction cps) (simp_all del: utf8_decode.simps(2) add: decode_scalar)

subsection \<open>Code units and scalar values\<close>

lemma well_formed_scalars:
  "well_formed_units us \<Longrightarrow> list_all (\<lambda>u. u < 0x10000) us \<Longrightarrow> list_all scalar (scalar_values us)"
proof (induction us rule: scalar_values.induct)
  case 1
  then show ?case by simp
next
  case (2 c)
  then show ?case by (simp add: scalar_def)
next
  case (3 c d cs)
  show ?case
  proof (cases "0xD800 \<le> c \<and> c \<le> 0xDBFF")
    case True
    then have d: "0xDC00 \<le> d" "d \<le> 0xDFFF" and cs: "well_formed_units cs"
      using "3.prems"(1) by simp_all
    have "scalar (0x10000 + (c - 0xD800) * 0x400 + (d - 0xDC00))"
      using True d unfolding scalar_def by arith
    then show ?thesis using True d cs "3.IH"(1) "3.prems"(2) by simp
  next
    case False
    then have c: "\<not> (0xD800 \<le> c \<and> c \<le> 0xDFFF)" and rest: "well_formed_units (d # cs)"
      using "3.prems"(1) by auto
    have sc: "scalar c" using c "3.prems"(2) by (simp add: scalar_def)
    have sv: "scalar_values (c # d # cs) = c # scalar_values (d # cs)" using c by auto
    have "list_all scalar (scalar_values (d # cs))"
      using "3.IH"(3) False c rest "3.prems"(2) by auto
    then show ?thesis using sc unfolding sv by simp
  qed
qed

lemma utf16_pair:
  assumes "0xD800 \<le> c" "c \<le> 0xDBFF" "0xDC00 \<le> d" "d \<le> 0xDFFF"
  shows "utf16_units (0x10000 + (c - 0xD800) * 0x400 + (d - 0xDC00)) = [c, d]"
proof -
  define x where "x = c - 0xD800"
  define y where "y = d - 0xDC00"
  have y: "y < 0x400" using assms by (simp add: y_def)
  have c: "c = 0xD800 + x" and d: "d = 0xDC00 + y" using assms by (simp_all add: x_def y_def)
  have "(x * 0x400 + y) div 0x400 = x" using y by simp
  moreover have "(x * 0x400 + y) mod 0x400 = y" using y by simp
  ultimately show ?thesis by (simp add: utf16_units_def c d)
qed

lemma well_formed_units_back:
  "well_formed_units us \<Longrightarrow> list_all (\<lambda>u. u < 0x10000) us
   \<Longrightarrow> concat (map utf16_units (scalar_values us)) = us"
proof (induction us rule: scalar_values.induct)
  case 1
  then show ?case by simp
next
  case (2 c)
  then show ?case by (simp add: utf16_units_def)
next
  case (3 c d cs)
  show ?case
  proof (cases "0xD800 \<le> c \<and> c \<le> 0xDBFF")
    case True
    then have d: "0xDC00 \<le> d" "d \<le> 0xDFFF" and cs: "well_formed_units cs"
      using "3.prems"(1) by simp_all
    have "utf16_units (0x10000 + (c - 0xD800) * 0x400 + (d - 0xDC00)) = [c, d]"
      using True d by (intro utf16_pair) simp_all
    then show ?thesis using True d cs "3.IH"(1) "3.prems"(2) by simp
  next
    case False
    then have c: "\<not> (0xD800 \<le> c \<and> c \<le> 0xDFFF)" and rest: "well_formed_units (d # cs)"
      using "3.prems"(1) by auto
    have u: "utf16_units c = [c]" using "3.prems"(2) by (simp add: utf16_units_def)
    have sv: "scalar_values (c # d # cs) = c # scalar_values (d # cs)" using c by auto
    have "concat (map utf16_units (scalar_values (d # cs))) = d # cs"
      using "3.IH"(3) False c rest "3.prems"(2) by auto
    then show ?thesis using u unfolding sv by simp
  qed
qed

lemma utf8_bytes_nonempty: "utf8_bytes cp \<noteq> []"
  by (simp add: utf8_bytes_def)

lemma utf8_bytes_bom:
  assumes "take 3 (utf8_bytes cp @ rest) = [0xEF, 0xBB, 0xBF]"
  shows "cp = 0xFEFF"
proof -
  consider "cp < 0x80" | "0x80 \<le> cp \<and> cp < 0x800" | "0x800 \<le> cp \<and> cp < 0x10000"
    | "0x10000 \<le> cp" by arith
  then show ?thesis
  proof cases
    case 1
    then show ?thesis using assms by (simp add: utf8_bytes_def)
  next
    case 2
    define a where "a = cp div 0x40"
    have "a < 0x20" using 2 by (simp add: a_def div_less_iff_less_mult)
    moreover have "0xC0 + a = 0xEF" using assms 2 by (simp add: utf8_bytes_def a_def)
    ultimately show ?thesis by arith
  next
    case 3
    define a where "a = cp div 0x1000"
    define b where "b = cp div 0x40 mod 0x40"
    define c where "c = cp mod 0x40"
    have cp: "cp = a * 0x1000 + b * 0x40 + c" unfolding a_def b_def c_def by (rule digits3)
    have "0xE0 + a = 0xEF" "0x80 + b = 0xBB" "0x80 + c = 0xBF"
      using assms 3 by (simp_all add: utf8_bytes_def a_def b_def c_def)
    then show ?thesis using cp by arith
  next
    case 4
    then show ?thesis using assms by (simp add: utf8_bytes_def)
  qed
qed

lemma strip_bom_scalars:
  assumes "case cps of [] \<Rightarrow> True | cp # _ \<Rightarrow> cp \<noteq> 0xFEFF"
  shows "strip_bom (concat (map utf8_bytes cps)) = concat (map utf8_bytes cps)"
proof (cases cps)
  case Nil
  then show ?thesis by (simp add: strip_bom_def)
next
  case (Cons cp rest)
  then have "cp \<noteq> 0xFEFF" using assms by simp
  then have "take 3 (utf8_bytes cp @ concat (map utf8_bytes rest)) \<noteq> [0xEF, 0xBB, 0xBF]"
    using utf8_bytes_bom by blast
  then show ?thesis using Cons by (simp add: strip_bom_def)
qed

lemma scalar_values_first:
  assumes "well_formed_units us" "case us of [] \<Rightarrow> True | u # _ \<Rightarrow> u \<noteq> 0xFEFF"
  shows "case scalar_values us of [] \<Rightarrow> True | cp # _ \<Rightarrow> cp \<noteq> 0xFEFF"
  using assms by (induction us rule: scalar_values.induct) (auto split: if_splits)

lemma utf8_bytes_bound: "cp < 0x110000 \<Longrightarrow> list_all (\<lambda>b. b < 0x100) (utf8_bytes cp)"
proof -
  assume "cp < 0x110000"
  then have "cp div 0x40000 < 5" by (simp add: div_less_iff_less_mult)
  moreover have "cp < 0x10000 \<Longrightarrow> cp div 0x1000 < 0x10" by (simp add: div_less_iff_less_mult)
  moreover have "cp < 0x800 \<Longrightarrow> cp div 0x40 < 0x20" by (simp add: div_less_iff_less_mult)
  moreover have "cp mod 0x40 < 0x40" "cp div 0x40 mod 0x40 < 0x40" "cp div 0x1000 mod 0x40 < 0x40"
    by simp_all
  ultimately show ?thesis by (auto simp: utf8_bytes_def)
qed

lemma scalar_values_bound:
  "list_all (\<lambda>u. u < 0x10000) us \<Longrightarrow> list_all (\<lambda>cp. cp < 0x110000) (scalar_values us)"
proof (induction us rule: scalar_values.induct)
  case 1
  then show ?case by simp
next
  case (2 c)
  then show ?case by simp
next
  case (3 c d cs)
  have "0xD800 \<le> c \<and> c \<le> 0xDBFF \<and> 0xDC00 \<le> d \<and> d \<le> 0xDFFF
        \<Longrightarrow> 0x10000 + (c - 0xD800) * 0x400 + (d - 0xDC00) < 0x110000"
    by arith
  then show ?case using 3 by auto
qed

subsection \<open>Encoding, then decoding\<close>

text \<open>
  A well-formed string that does not start with the byte order mark is what the decoder
  gives back.  One unpaired surrogate comes back as U+FFFD, and a leading byte order mark
  is lost.
\<close>

lemma unat_byte: "n < 0x100 \<Longrightarrow> unat (of_nat n :: 8 word) = n"
  by (simp add: unat_of_nat)

lemma map_unat_bytes:
  "list_all (\<lambda>b. b < 0x100) bs \<Longrightarrow> map unat (map of_nat bs :: 8 word list) = bs"
  by (induction bs) (simp_all add: unat_byte)

lemma map_of_nat_units: "map of_nat (map unat s) = (s :: 16 word list)"
  by (induction s) simp_all

lemma units_bound: "list_all (\<lambda>u. u < 0x10000) (map unat (s :: 16 word list))"
proof (induction s)
  case Nil
  show ?case by simp
next
  case (Cons c s)
  have "unat c < 2 ^ LENGTH(16)" by (rule unsigned_less)
  then show ?case using Cons by simp
qed

lemma concat_bytes_bound:
  "list_all (\<lambda>cp. cp < 0x110000) cps \<Longrightarrow> list_all (\<lambda>b. b < 0x100) (concat (map utf8_bytes cps))"
  by (induction cps) (simp_all add: utf8_bytes_bound)

lemma encode_bytes:
  "map unat (TextEncoder_encode s) = concat (map utf8_bytes (scalar_values (map unat s)))"
  unfolding TextEncoder_encode_def
  by (intro map_unat_bytes concat_bytes_bound scalar_values_bound units_bound)

lemma text_roundtrip:
  assumes "well_formed s" "\<not> starts_with_bom s"
  shows "TextDecoder_decode (TextEncoder_encode s) = s"
proof -
  let ?us = "map unat s"
  let ?cps = "scalar_values ?us"
  have wf: "well_formed_units ?us" using assms(1) by (simp add: well_formed_def)
  have first: "case ?us of [] \<Rightarrow> True | u # _ \<Rightarrow> u \<noteq> 0xFEFF"
  proof (cases s)
    case Nil
    then show ?thesis by simp
  next
    case (Cons c cs)
    then have "c \<noteq> 0xFEFF" using assms(2) by (simp add: starts_with_bom_def)
    then have "unat c \<noteq> 0xFEFF" by (metis of_nat_unat ucast_id of_nat_numeral)
    then show ?thesis using Cons by simp
  qed
  have "strip_bom (concat (map utf8_bytes ?cps)) = concat (map utf8_bytes ?cps)"
    using scalar_values_first [OF wf first] by (rule strip_bom_scalars)
  moreover have "utf8_decode 0 0 0x80 0xBF (concat (map utf8_bytes ?cps)) = ?cps"
    using well_formed_scalars [OF wf units_bound] by (rule decode_scalars)
  moreover have "concat (map utf16_units ?cps) = ?us"
    using wf units_bound by (rule well_formed_units_back)
  ultimately have "TextDecoder_decode (TextEncoder_encode s) = map of_nat ?us"
    by (simp only: TextDecoder_decode_def encode_bytes)
  then show ?thesis by (simp only: map_of_nat_units)
qed

lemma encode_lone_surrogate: "TextEncoder_encode [0xD800] = TextEncoder_encode [0xFFFD]"
  by (simp add: TextEncoder_encode_def utf8_bytes_def)

lemma roundtrip_lone_surrogate: "TextDecoder_decode (TextEncoder_encode [0xD800]) = [0xFFFD]"
  by (simp add: TextEncoder_encode_def TextDecoder_decode_def utf8_bytes_def strip_bom_def utf16_units_def)

lemma roundtrip_bom: "TextDecoder_decode (TextEncoder_encode [0xFEFF, 0x61]) = [0x61]"
  by (simp add: TextEncoder_encode_def TextDecoder_decode_def utf8_bytes_def strip_bom_def utf16_units_def)

section \<open>The crypto module\<close>

subsection \<open>Bytes and base64\<close>

lemma ucast_byte_le: "(ucast (b :: byte) :: 16 word) \<le> 0xFF"
proof -
  have "unat (ucast b :: 16 word) = take_bit LENGTH(16) (unat b)"
    by (rule unsigned_ucast_eq)
  moreover have u: "unat b < 2 ^ LENGTH(8)" by (rule unsigned_less)
  ultimately have "unat (ucast b :: 16 word) = unat b"
    by (simp add: take_bit_nat_eq_self)
  then show ?thesis using u by (simp add: word_le_nat_alt)
qed

lemma binary_bytes: "binary (map ucast (bs :: byte list))"
  by (induction bs) (simp_all add: binary_def ucast_byte_le)

lemma bytes_back: "map ucast (map ucast (bs :: byte list) :: jsstring) = bs"
proof -
  have "(ucast (ucast (b :: byte) :: 16 word) :: byte) = b" for b
    by (rule ucast_up_ucast_id) (simp add: is_up)
  then show ?thesis by (induction bs) simp_all
qed

lemma base64_there_and_back:
  assumes "base64_roundtrip wc"
  shows "\<exists>s. uint8ArrayToBase64 wc bs = Inr s \<and> base64ToUint8Array wc s = Inr bs"
proof -
  obtain s where "btoa wc (map ucast bs) = Some s" "atob wc s = Some (map ucast bs)"
    using assms binary_bytes [of bs] unfolding base64_roundtrip_def by blast
  then show ?thesis
    using bytes_back [of bs]
    by (simp add: uint8ArrayToBase64_def base64ToUint8Array_def del: map_map)
qed

lemma base64_injective:
  assumes "base64_roundtrip wc" "uint8ArrayToBase64 wc a = Inr s" "uint8ArrayToBase64 wc b = Inr s"
  shows "a = b"
proof -
  obtain t where t: "uint8ArrayToBase64 wc a = Inr t" "base64ToUint8Array wc t = Inr a"
    using base64_there_and_back [OF assms(1)] by blast
  obtain u where u: "uint8ArrayToBase64 wc b = Inr u" "base64ToUint8Array wc u = Inr b"
    using base64_there_and_back [OF assms(1)] by blast
  have "t = s" "u = s" using t u assms by simp_all
  then show ?thesis using t u by simp
qed

subsection \<open>The platform instance keeps the laws\<close>

lemma demo_unwrap_wrap: "demo_unwrap k' (demo_wrap k d) = (if k' = k then Some d else None)"
proof (induction k' arbitrary: k)
  case Nil
  then show ?case by (cases k) simp_all
next
  case (Cons b k')
  show ?case
  proof (cases k)
    case Nil
    then show ?thesis by (cases d) simp_all
  next
    case (Cons c k2)
    then show ?thesis using Cons.IH [of k2] by auto
  qed
qed

lemma demo_base64: "base64_roundtrip demo_api"
  by (simp add: base64_roundtrip_def demo_api_def demo_binary_def binary_def)

lemma demo_aead_correct: "aead_correct demo_api"
  by (simp add: aead_correct_def demo_api_def demo_unwrap_wrap)



subsection \<open>Encrypting, then decrypting\<close>

lemma iterations_of_encrypt:
  "encrypt wc p pw salt_bytes iv_bytes = Inr pkg \<Longrightarrow> iterations_or_default pkg = PBKDF2_ITERATIONS"
  by (auto simp: encrypt_def iterations_or_default_def PBKDF2_ITERATIONS_def Let_def
      split: sum.splits)

lemma encrypt_fields:
  assumes "base64_roundtrip wc"
  shows "\<exists>pkg. encrypt wc p pw salt_bytes iv_bytes = Inr pkg
           \<and> base64ToUint8Array wc (ciphertext pkg) =
               Inr (aes_gcm_encrypt wc (deriveKey wc pw salt_bytes PBKDF2_ITERATIONS) iv_bytes
                      (TextEncoder_encode p))
           \<and> uint8ArrayToBase64 wc iv_bytes = Inr (iv pkg)
           \<and> base64ToUint8Array wc (iv pkg) = Inr iv_bytes
           \<and> uint8ArrayToBase64 wc salt_bytes = Inr (salt pkg)
           \<and> base64ToUint8Array wc (salt pkg) = Inr salt_bytes
           \<and> iterations_or_default pkg = PBKDF2_ITERATIONS"
proof -
  let ?c = "aes_gcm_encrypt wc (deriveKey wc pw salt_bytes PBKDF2_ITERATIONS) iv_bytes
              (TextEncoder_encode p)"
  obtain c where c: "uint8ArrayToBase64 wc ?c = Inr c" "base64ToUint8Array wc c = Inr ?c"
    using base64_there_and_back [OF assms] by blast
  obtain i where i: "uint8ArrayToBase64 wc iv_bytes = Inr i" "base64ToUint8Array wc i = Inr iv_bytes"
    using base64_there_and_back [OF assms] by blast
  obtain s where s: "uint8ArrayToBase64 wc salt_bytes = Inr s"
    "base64ToUint8Array wc s = Inr salt_bytes"
    using base64_there_and_back [OF assms] by blast
  show ?thesis using c i s
    by (simp add: encrypt_def Let_def iterations_or_default_def PBKDF2_ITERATIONS_def)
qed

lemma decrypt_encrypt_text:
  assumes "base64_roundtrip wc" "aead_correct wc"
  shows "\<exists>pkg. encrypt wc p pw salt_bytes iv_bytes = Inr pkg
           \<and> decrypt wc pkg pw = Inr (TextDecoder_decode (TextEncoder_encode p))"
proof -
  obtain pkg where pkg: "encrypt wc p pw salt_bytes iv_bytes = Inr pkg"
    "base64ToUint8Array wc (ciphertext pkg) =
       Inr (aes_gcm_encrypt wc (deriveKey wc pw salt_bytes PBKDF2_ITERATIONS) iv_bytes
              (TextEncoder_encode p))"
    "base64ToUint8Array wc (iv pkg) = Inr iv_bytes"
    "base64ToUint8Array wc (salt pkg) = Inr salt_bytes"
    "iterations_or_default pkg = PBKDF2_ITERATIONS"
    using encrypt_fields [OF assms(1)] by blast
  have "decrypt wc pkg pw = Inr (TextDecoder_decode (TextEncoder_encode p))"
    using pkg(2-5) assms(2) by (simp add: decrypt_def aead_correct_def)
  then show ?thesis using pkg(1) by blast
qed

text \<open>
  Claim C1, as the code has it.  On a platform whose base64 and whose cipher give back what
  they were given, let the plaintext be well formed and not start with the byte order
  mark.  Then \<open>encrypt\<close> gives a package, and \<open>decrypt\<close> gives the plaintext back from it
  under the same password.  The fields \<open>salt\<close> and \<open>iv\<close> of the package are the base64 of the
  two values that the call drew: a call with the same plaintext and password that draws
  another salt gives another \<open>salt\<close> field, and one that draws another nonce gives another
  \<open>iv\<close> field.  How likely two calls are to draw the same values is outside the model.
\<close>

theorem decrypt_encrypt:
  assumes "base64_roundtrip wc" "aead_correct wc" "well_formed p" "\<not> starts_with_bom p"
  shows "\<exists>pkg. encrypt wc p pw salt_bytes iv_bytes = Inr pkg \<and> decrypt wc pkg pw = Inr p
           \<and> (\<forall>salt' iv' pkg'.
                 encrypt wc p pw salt' iv' = Inr pkg'
                 \<longrightarrow> (salt' \<noteq> salt_bytes \<longrightarrow> salt pkg' \<noteq> salt pkg)
                   \<and> (iv' \<noteq> iv_bytes \<longrightarrow> iv pkg' \<noteq> iv pkg))"
proof -
  obtain pkg where pkg: "encrypt wc p pw salt_bytes iv_bytes = Inr pkg"
    "decrypt wc pkg pw = Inr (TextDecoder_decode (TextEncoder_encode p))"
    using decrypt_encrypt_text [OF assms(1,2)] by blast
  have f: "uint8ArrayToBase64 wc iv_bytes = Inr (iv pkg)"
    "uint8ArrayToBase64 wc salt_bytes = Inr (salt pkg)"
    using encrypt_fields [OF assms(1), of p pw salt_bytes iv_bytes] pkg(1) by auto
  have "(salt' \<noteq> salt_bytes \<longrightarrow> salt pkg' \<noteq> salt pkg) \<and> (iv' \<noteq> iv_bytes \<longrightarrow> iv pkg' \<noteq> iv pkg)"
    if e: "encrypt wc p pw salt' iv' = Inr pkg'" for salt' iv' pkg'
  proof -
    have f': "uint8ArrayToBase64 wc iv' = Inr (iv pkg')"
      "uint8ArrayToBase64 wc salt' = Inr (salt pkg')"
      using encrypt_fields [OF assms(1), of p pw salt' iv'] e by auto
    show ?thesis using f f' base64_injective [OF assms(1)] by metis
  qed
  then show ?thesis using pkg text_roundtrip [OF assms(3,4)] by auto
qed

theorem decrypt_encrypt_witness:
  "base64_roundtrip demo_api \<and> aead_correct demo_api
   \<and> well_formed [0x73] \<and> \<not> starts_with_bom [0x73]
   \<and> encrypt demo_api [0x73] [0x70] [7] [9] = Inr (demo_package 0x70 0x73)
   \<and> decrypt demo_api (demo_package 0x70 0x73) [0x70] = Inr [0x73]
   \<and> (\<exists>pkg'. encrypt demo_api [0x73] [0x70] [8] [9] = Inr pkg'
         \<and> salt pkg' \<noteq> salt (demo_package 0x70 0x73))"
proof -
  have w: "well_formed [0x73]" by (simp add: well_formed_def)
  have b: "\<not> starts_with_bom [0x73]" by (simp add: starts_with_bom_def)
  have e: "encrypt demo_api [0x73] [0x70] [7] [9] = Inr (demo_package 0x70 0x73)"
    by (simp add: demo_crypto_defs demo_package_def)
  obtain pkg' where e': "encrypt demo_api [0x73] [0x70] [8] [9] = Inr pkg'"
    using encrypt_fields [OF demo_base64] by blast
  have n: "[8] \<noteq> ([7] :: byte list)" by simp
  obtain pkg where pkg: "encrypt demo_api [0x73] [0x70] [7] [9] = Inr pkg"
    "decrypt demo_api pkg [0x70] = Inr [0x73]"
    "\<forall>salt' iv' pkg'.
        encrypt demo_api [0x73] [0x70] salt' iv' = Inr pkg'
        \<longrightarrow> (salt' \<noteq> [7] \<longrightarrow> salt pkg' \<noteq> salt pkg) \<and> (iv' \<noteq> [9] \<longrightarrow> iv pkg' \<noteq> iv pkg)"
    using decrypt_encrypt [OF demo_base64 demo_aead_correct w b, of "[0x70]" "[7]" "[9]"] by blast
  have p: "pkg = demo_package 0x70 0x73" using pkg(1) e by simp
  have "salt pkg' \<noteq> salt (demo_package 0x70 0x73)" using pkg(3) e' n p by blast
  then show ?thesis using demo_base64 demo_aead_correct w b e pkg(2) p e' by blast
qed

text \<open>
  Claim C1 as stated, for every plaintext, fails: the plaintext that is one unpaired
  surrogate is encrypted as U+FFFD, and that is what \<open>decrypt\<close> returns.  The two lemmas
  after it show the same on every platform that keeps the laws, and that a leading byte
  order mark is lost as well.
\<close>

theorem decrypt_encrypt_unpaired_surrogate:
  "base64_roundtrip demo_api \<and> aead_correct demo_api
   \<and> encrypt demo_api [0xD800] [0x70] [7] [9] = Inr demo_surrogate_plaintext
   \<and> decrypt demo_api demo_surrogate_plaintext [0x70] = Inr [0xFFFD]
   \<and> [0xFFFD] \<noteq> ([0xD800] :: jsstring)"
  by (simp add: demo_base64 demo_aead_correct)
     (simp add: demo_crypto_defs demo_surrogate_plaintext_def)

lemma unpaired_surrogate_on_every_platform:
  assumes "base64_roundtrip wc" "aead_correct wc"
  shows "\<exists>pkg. encrypt wc [0xD800] pw salt_bytes iv_bytes = Inr pkg
           \<and> decrypt wc pkg pw = Inr [0xFFFD]"
  using decrypt_encrypt_text [OF assms, of "[0xD800]" pw salt_bytes iv_bytes]
  by (simp add: roundtrip_lone_surrogate)

lemma byte_order_mark_on_every_platform:
  assumes "base64_roundtrip wc" "aead_correct wc"
  shows "\<exists>pkg. encrypt wc [0xFEFF, 0x61] pw salt_bytes iv_bytes = Inr pkg
           \<and> decrypt wc pkg pw = Inr [0x61]"
  using decrypt_encrypt_text [OF assms, of "[0xFEFF, 0x61]" pw salt_bytes iv_bytes]
  by (simp add: roundtrip_bom)

subsection \<open>Decrypting under another password\<close>

text \<open>
  The password enters \<open>decrypt\<close> through its bytes only: two passwords with the same
  encoding decrypt the same packages.
\<close>

lemma decrypt_password_bytes:
  assumes "TextEncoder_encode pw2 = TextEncoder_encode pw"
  shows "decrypt wc pkg pw2 = decrypt wc pkg pw"
proof -
  have "deriveKey wc pw2 = deriveKey wc pw"
    using assms by (intro ext) (simp add: deriveKey_def)
  then show ?thesis by (simp add: decrypt_def split: sum.splits)
qed

lemma same_bytes_same_plaintext:
  assumes "base64_roundtrip wc" "aead_correct wc" "well_formed p" "\<not> starts_with_bom p"
    and "TextEncoder_encode pw2 = TextEncoder_encode pw"
  shows "\<exists>pkg. encrypt wc p pw salt_bytes iv_bytes = Inr pkg \<and> decrypt wc pkg pw2 = Inr p"
  using decrypt_encrypt_text [OF assms(1,2), of p pw salt_bytes iv_bytes]
    decrypt_password_bytes [OF assms(5)] text_roundtrip [OF assms(3,4)] by auto






section \<open>The wallet service\<close>

subsection \<open>Deleting a coldkey\<close>

lemma deleteWallet_wallets: "wallets (deleteWallet s walletId) = filter (\<lambda>w. w_id w \<noteq> walletId) (wallets s)"
  by (simp add: deleteWallet_def Let_def)

lemma deleteWallet_hotkeys: "hotkeys (deleteWallet s walletId) = filter (\<lambda>h. h_coldkeyId h \<noteq> walletId) (hotkeys s)"
  by (simp add: deleteWallet_def Let_def)

lemma deleteWallet_session: "unlockedWallets (deleteWallet s walletId) = (unlockedWallets s)(walletId := None)"
  by (simp add: deleteWallet_def Let_def)

text \<open>
  Claim C7.  After \<open>deleteWallet s walletId\<close> no wallet of the store has the id, the id has
  no cached session (\<open>isUnlocked\<close> is false and \<open>getKeypair\<close> gives nothing), and no hotkey
  of the hotkey store has the id as its \<open>coldkeyId\<close>; the other wallets and hotkeys stay.
\<close>

theorem deleteWallet_cascade:
  "walletId \<notin> w_id ` set (wallets (deleteWallet s walletId))
   \<and> \<not> isUnlocked (deleteWallet s walletId) walletId
   \<and> getKeypair (deleteWallet s walletId) walletId = None
   \<and> (\<forall>h \<in> set (hotkeys (deleteWallet s walletId)). h_coldkeyId h \<noteq> walletId)
   \<and> wallets (deleteWallet s walletId) = filter (\<lambda>w. w_id w \<noteq> walletId) (wallets s)
   \<and> hotkeys (deleteWallet s walletId) = filter (\<lambda>h. h_coldkeyId h \<noteq> walletId) (hotkeys s)"
  by (auto simp: deleteWallet_wallets deleteWallet_hotkeys deleteWallet_session isUnlocked_def getKeypair_def)

theorem deleteWallet_cascade_witness:
  "''w1'' \<in> w_id ` set (wallets demo_service)
   \<and> ''w1'' \<notin> w_id ` set (wallets (deleteWallet demo_service ''w1''))
   \<and> \<not> isUnlocked (deleteWallet demo_service ''w1'') ''w1''
   \<and> map h_id (hotkeys (deleteWallet demo_service ''w1'')) = [''h3'']"
proof -
  have "map h_id (hotkeys (deleteWallet demo_service ''w1'')) = [''h3'']"
    by (simp add: deleteWallet_hotkeys demo_defs)
  moreover have "''w1'' \<in> w_id ` set (wallets demo_service)"
    by (simp add: demo_defs)
  ultimately show ?thesis
    using deleteWallet_cascade [of "''w1''" demo_service] by blast
qed

subsection \<open>Unlocking: one call\<close>

lemma unlockPair_wrong:
  "isl (decrypt wc (w_encrypted wallet) password) \<Longrightarrow> unlockPair wc kr wallet password = None"
  by (auto simp: unlockPair_def split: sum.splits)

lemma unlock_rate_limited:
  assumes "unlockAttempts s walletId = Some a" "5 \<le> count a" "now - lastAttempt a \<le> 900000"
  shows "unlockWallet wc kr s walletId password now = (Inl (Error ''Too many failed attempts. Please wait 15 minutes.''), s)"
  using assms by (simp add: unlockWallet_def Let_def)

lemma unlock_wrong_first:
  assumes "unlockAttempts s walletId = None"
    and "find (\<lambda>w. w_id w = walletId) (wallets s) = Some wallet"
    and "w_type wallet \<noteq> Watch" "w_type wallet \<noteq> Multisig"
    and "unlockPair wc kr wallet password = None"
  shows "unlockWallet wc kr s walletId password now =
           (Inr False, s\<lparr>unlockAttempts := (unlockAttempts s)(walletId \<mapsto> \<lparr>count = 1, lastAttempt = now\<rparr>)\<rparr>)"
  using assms by (simp add: unlockWallet_def Let_def)

lemma unlock_wrong_again:
  assumes "unlockAttempts s walletId = Some a" "count a < 5" "now - lastAttempt a \<le> 900000"
    and "find (\<lambda>w. w_id w = walletId) (wallets s) = Some wallet"
    and "w_type wallet \<noteq> Watch" "w_type wallet \<noteq> Multisig"
    and "unlockPair wc kr wallet password = None"
  shows "unlockWallet wc kr s walletId password now =
           (Inr False, s\<lparr>unlockAttempts := (unlockAttempts s)(walletId \<mapsto> \<lparr>count = count a + 1, lastAttempt = now\<rparr>)\<rparr>)"
  using assms by (cases a) (simp add: unlockWallet_def Let_def)

lemma unlock_wrong_expired:
  assumes "unlockAttempts s walletId = Some a" "now - lastAttempt a > 900000"
    and "find (\<lambda>w. w_id w = walletId) (wallets s) = Some wallet"
    and "w_type wallet \<noteq> Watch" "w_type wallet \<noteq> Multisig"
    and "unlockPair wc kr wallet password = None"
  shows "unlockWallet wc kr s walletId password now =
           (Inr False, s\<lparr>unlockAttempts := (unlockAttempts s)(walletId \<mapsto> \<lparr>count = 1, lastAttempt = now\<rparr>)\<rparr>)"
  using assms by (cases a) (simp add: unlockWallet_def Let_def)

lemma unlock_success:
  assumes "case unlockAttempts s walletId of None \<Rightarrow> True | Some a \<Rightarrow> count a < 5 \<or> now - lastAttempt a > 900000"
    and "find (\<lambda>w. w_id w = walletId) (wallets s) = Some wallet"
    and "w_type wallet \<noteq> Watch" "w_type wallet \<noteq> Multisig"
    and "unlockPair wc kr wallet password = Some pair"
  shows "fst (unlockWallet wc kr s walletId password now) = Inr True
       \<and> unlockAttempts (snd (unlockWallet wc kr s walletId password now)) walletId = None
       \<and> unlockedWallets (snd (unlockWallet wc kr s walletId password now)) walletId = Some pair"
  using assms by (auto simp add: unlockWallet_def Let_def split: option.splits)

lemma unlock_watch:
  assumes "find (\<lambda>w. w_id w = walletId) (wallets s) = Some wallet"
    and "w_type wallet = Watch \<or> w_type wallet = Multisig"
    and "unlockAttempts s walletId = None"
  shows "unlockWallet wc kr s walletId password now = (Inr True, s)"
  using assms by (auto simp add: unlockWallet_def Let_def)

subsection \<open>Unlocking: consecutive wrong passwords\<close>

text \<open>
  The invariant of the run: the id has no entry, or its entry counts \<open>c\<close> failures, the last
  of them inside the window.
\<close>

lemma unlock_run:
  assumes found: "find (\<lambda>w. w_id w = walletId) (wallets s) = Some wallet"
    and ty: "w_type wallet \<noteq> Watch" "w_type wallet \<noteq> Multisig"
    and wrong: "\<forall>x \<in> set tries. isl (decrypt wc (w_encrypted wallet) (fst x))"
    and window: "\<forall>x \<in> set tries. t0 \<le> snd x \<and> snd x \<le> t0 + 900000"
    and entry: "if c = 0 then unlockAttempts s walletId = None
                else \<exists>a. unlockAttempts s walletId = Some a \<and> count a = c
                       \<and> t0 \<le> lastAttempt a \<and> lastAttempt a \<le> t0 + 900000"
    and c: "c \<le> 5"
  shows "fst (unlockWalletRepeatedly wc kr s walletId tries) =
           replicate (min (5 - c) (length tries)) (Inr False)
           @ replicate (length tries - (5 - c)) (Inl (Error ''Too many failed attempts. Please wait 15 minutes.''))
       \<and> wallets (snd (unlockWalletRepeatedly wc kr s walletId tries)) = wallets s
       \<and> hotkeys (snd (unlockWalletRepeatedly wc kr s walletId tries)) = hotkeys s
       \<and> unlockedWallets (snd (unlockWalletRepeatedly wc kr s walletId tries)) = unlockedWallets s"
  using assms
proof (induction tries arbitrary: s c)
  case Nil
  then show ?case by simp
next
  case (Cons x tries)
  let ?now = "snd x"
  have pairNone: "unlockPair wc kr wallet (fst x) = None"
    using Cons.prems(4) by (simp add: unlockPair_wrong)
  have win: "t0 \<le> ?now" "?now \<le> t0 + 900000"
    using Cons.prems(5) by simp_all
  have wrong': "\<forall>x \<in> set tries. isl (decrypt wc (w_encrypted wallet) (fst x))"
    and window': "\<forall>x \<in> set tries. t0 \<le> snd x \<and> snd x \<le> t0 + 900000"
    using Cons.prems(4,5) by simp_all
  show ?case
  proof (cases "c = 5")
    case True
    then obtain a where a: "unlockAttempts s walletId = Some a" "count a = 5"
      "t0 \<le> lastAttempt a" "lastAttempt a \<le> t0 + 900000"
      using Cons.prems(6) by auto
    have step: "unlockWallet wc kr s walletId (fst x) ?now = (Inl (Error ''Too many failed attempts. Please wait 15 minutes.''), s)"
      using a win by (intro unlock_rate_limited) auto
    have ih: "fst (unlockWalletRepeatedly wc kr s walletId tries) =
           replicate (min (5 - c) (length tries)) (Inr False)
           @ replicate (length tries - (5 - c)) (Inl (Error ''Too many failed attempts. Please wait 15 minutes.''))
       \<and> wallets (snd (unlockWalletRepeatedly wc kr s walletId tries)) = wallets s
       \<and> hotkeys (snd (unlockWalletRepeatedly wc kr s walletId tries)) = hotkeys s
       \<and> unlockedWallets (snd (unlockWalletRepeatedly wc kr s walletId tries)) = unlockedWallets s"
      using Cons.IH [OF Cons.prems(1) ty wrong' window' Cons.prems(6) Cons.prems(7)] .
    show ?thesis using ih step True by (simp add: Let_def)
  next
    case False
    then have c4: "c < 5" using Cons.prems(7) by simp
    define s' where "s' = s\<lparr>unlockAttempts := (unlockAttempts s)(walletId \<mapsto> \<lparr>count = c + 1, lastAttempt = ?now\<rparr>)\<rparr>"
    have step: "unlockWallet wc kr s walletId (fst x) ?now = (Inr False, s')"
    proof (cases "c = 0")
      case True
      then have "unlockAttempts s walletId = None" using Cons.prems(6) by simp
      then show ?thesis
        using unlock_wrong_first [OF _ Cons.prems(1) ty pairNone] True by (simp add: s'_def)
    next
      case False
      then obtain a where a: "unlockAttempts s walletId = Some a" "count a = c"
        "t0 \<le> lastAttempt a" "lastAttempt a \<le> t0 + 900000"
        using Cons.prems(6) by auto
      have "?now - lastAttempt a \<le> 900000" using a win by simp
      then show ?thesis
        using unlock_wrong_again [OF a(1) _ _ Cons.prems(1) ty pairNone] a(2) c4
        by (simp add: s'_def)
    qed
    have found': "find (\<lambda>w. w_id w = walletId) (wallets s') = Some wallet"
      using Cons.prems(1) by (simp add: s'_def)
    have entry': "if c + 1 = 0 then unlockAttempts s' walletId = None
                else \<exists>a. unlockAttempts s' walletId = Some a \<and> count a = c + 1
                       \<and> t0 \<le> lastAttempt a \<and> lastAttempt a \<le> t0 + 900000"
      using win by (simp add: s'_def)
    have c': "c + 1 \<le> 5" using c4 by simp
    have ih: "fst (unlockWalletRepeatedly wc kr s' walletId tries) =
           replicate (min (5 - (c + 1)) (length tries)) (Inr False)
           @ replicate (length tries - (5 - (c + 1))) (Inl (Error ''Too many failed attempts. Please wait 15 minutes.''))
       \<and> wallets (snd (unlockWalletRepeatedly wc kr s' walletId tries)) = wallets s'
       \<and> hotkeys (snd (unlockWalletRepeatedly wc kr s' walletId tries)) = hotkeys s'
       \<and> unlockedWallets (snd (unlockWalletRepeatedly wc kr s' walletId tries)) = unlockedWallets s'"
      using Cons.IH [OF found' ty wrong' window' entry' c'] .
    have m: "min (5 - c) (Suc (length tries)) = Suc (min (5 - (c + 1)) (length tries))"
      using c4 by simp
    have d: "Suc (length tries) - (5 - c) = length tries - (5 - (c + 1))"
      using c4 by simp
    show ?thesis
      using ih step by (simp add: Let_def m d) (simp add: s'_def)
  qed
qed

text \<open>
  Claim C3.  Let the id name a wallet that is neither watch-only nor multisig.
  \<^item> From a state with no recorded failure, consecutive attempts whose passwords do not
    decrypt the secret, all inside a window of 15 minutes: the first five return \<open>false\<close>,
    every later one raises the rate-limit error; the stored wallets and hotkeys are as
    before.
  \<^item> With five or more recorded failures, the last at most 15 minutes ago, the call raises
    the rate-limit error and leaves the whole state as it is, whatever the platform, the
    keyring and the password are: nothing is decrypted.
  \<^item> Once more than 15 minutes have passed since the last failure, a wrong password is
    tried again: the call returns \<open>false\<close> and the count restarts at 1.
  \<^item> A call that unlocks removes the entry of the id.
\<close>

theorem unlockWallet_rate_limit:
  assumes found: "find (\<lambda>w. w_id w = walletId) (wallets s) = Some wallet"
    and ty: "w_type wallet \<noteq> Watch" "w_type wallet \<noteq> Multisig"
  shows "(unlockAttempts s walletId = None
          \<and> (\<forall>x \<in> set tries. isl (decrypt wc (w_encrypted wallet) (fst x)))
          \<and> (\<forall>x \<in> set tries. t0 \<le> snd x \<and> snd x \<le> t0 + 15 * 60 * 1000)
          \<longrightarrow> fst (unlockWalletRepeatedly wc kr s walletId tries) =
                replicate (min 5 (length tries)) (Inr False)
                @ replicate (length tries - 5)
                    (Inl (Error ''Too many failed attempts. Please wait 15 minutes.''))
              \<and> wallets (snd (unlockWalletRepeatedly wc kr s walletId tries)) = wallets s
              \<and> hotkeys (snd (unlockWalletRepeatedly wc kr s walletId tries)) = hotkeys s)
       \<and> (\<forall>a wc' kr' password'.
            unlockAttempts s walletId = Some a \<and> 5 \<le> count a
            \<and> now - lastAttempt a \<le> 15 * 60 * 1000
            \<longrightarrow> unlockWallet wc' kr' s walletId password' now =
                  (Inl (Error ''Too many failed attempts. Please wait 15 minutes.''), s))
       \<and> (\<forall>a. unlockAttempts s walletId = Some a \<and> now - lastAttempt a > 15 * 60 * 1000
            \<and> isl (decrypt wc (w_encrypted wallet) password)
            \<longrightarrow> fst (unlockWallet wc kr s walletId password now) = Inr False
              \<and> unlockAttempts (snd (unlockWallet wc kr s walletId password now)) walletId =
                  Some \<lparr>count = 1, lastAttempt = now\<rparr>)
       \<and> (\<forall>pair. (case unlockAttempts s walletId of
                     None \<Rightarrow> True
                   | Some a \<Rightarrow> count a < 5 \<or> now - lastAttempt a > 15 * 60 * 1000)
            \<and> unlockPair wc kr wallet password = Some pair
            \<longrightarrow> fst (unlockWallet wc kr s walletId password now) = Inr True
              \<and> unlockAttempts (snd (unlockWallet wc kr s walletId password now)) walletId = None)"
proof (intro conjI allI impI)
  assume h: "unlockAttempts s walletId = None
          \<and> (\<forall>x \<in> set tries. isl (decrypt wc (w_encrypted wallet) (fst x)))
          \<and> (\<forall>x \<in> set tries. t0 \<le> snd x \<and> snd x \<le> t0 + 15 * 60 * 1000)"
  have e: "if (0::nat) = 0 then unlockAttempts s walletId = None
                else \<exists>a. unlockAttempts s walletId = Some a \<and> count a = 0
                       \<and> t0 \<le> lastAttempt a \<and> lastAttempt a \<le> t0 + 900000"
    using h by simp
  have w: "\<forall>x \<in> set tries. t0 \<le> snd x \<and> snd x \<le> t0 + 900000"
    using h by simp
  note r = unlock_run [OF found ty _ w e, where wc = wc and kr = kr]
  show "fst (unlockWalletRepeatedly wc kr s walletId tries) =
                replicate (min 5 (length tries)) (Inr False)
                @ replicate (length tries - 5)
                    (Inl (Error ''Too many failed attempts. Please wait 15 minutes.''))"
    using r h by simp
  show "wallets (snd (unlockWalletRepeatedly wc kr s walletId tries)) = wallets s"
    using r h by simp
  show "hotkeys (snd (unlockWalletRepeatedly wc kr s walletId tries)) = hotkeys s"
    using r h by simp
next
  fix a wc' kr' password'
  assume "unlockAttempts s walletId = Some a \<and> 5 \<le> count a
            \<and> now - lastAttempt a \<le> 15 * 60 * 1000"
  then show "unlockWallet wc' kr' s walletId password' now =
                  (Inl (Error ''Too many failed attempts. Please wait 15 minutes.''), s)"
    using unlock_rate_limited [of s walletId a now wc' kr' password'] by simp
next
  fix a
  assume h: "unlockAttempts s walletId = Some a \<and> now - lastAttempt a > 15 * 60 * 1000
            \<and> isl (decrypt wc (w_encrypted wallet) password)"
  then have p: "unlockPair wc kr wallet password = None"
    by (simp add: unlockPair_wrong)
  have x: "900000 < now - lastAttempt a" using h by simp
  note u = unlock_wrong_expired [OF _ x found ty p]
  show "fst (unlockWallet wc kr s walletId password now) = Inr False"
    using u h by simp
  show "unlockAttempts (snd (unlockWallet wc kr s walletId password now)) walletId =
                  Some \<lparr>count = 1, lastAttempt = now\<rparr>"
    using u h by simp
next
  fix pair
  assume h: "(case unlockAttempts s walletId of
                     None \<Rightarrow> True
                   | Some a \<Rightarrow> count a < 5 \<or> now - lastAttempt a > 15 * 60 * 1000)
            \<and> unlockPair wc kr wallet password = Some pair"
  then have l: "case unlockAttempts s walletId of None \<Rightarrow> True | Some a \<Rightarrow> count a < 5 \<or> now - lastAttempt a > 900000"
    by (auto split: option.splits)
  note u = unlock_success [OF l found ty, where wc = wc and kr = kr and password = password and pair = pair]
  show "fst (unlockWallet wc kr s walletId password now) = Inr True"
    using u h by simp
  show "unlockAttempts (snd (unlockWallet wc kr s walletId password now)) walletId = None"
    using u h by simp
qed

theorem unlockWallet_rate_limit_witness:
  "fst (unlockWalletRepeatedly demo_api demo_keyring demo_service ''w1''
          [([0x71], 1000), ([0x71], 2000), ([0x71], 3000), ([0x71], 4000), ([0x71], 5000),
           ([0x71], 6000), ([0x71], 7000)]) =
     replicate 5 (Inr False)
     @ replicate 2 (Inl (Error ''Too many failed attempts. Please wait 15 minutes.''))
   \<and> unlockWallet demo_api demo_keyring demo_limited ''w1'' [0x70] 6000 =
       (Inl (Error ''Too many failed attempts. Please wait 15 minutes.''), demo_limited)
   \<and> fst (unlockWallet demo_api demo_keyring demo_limited ''w1'' [0x71] 905001) = Inr False
   \<and> fst (unlockWallet demo_api demo_keyring demo_limited ''w1'' [0x70] 905001) = Inr True
   \<and> unlockAttempts (snd (unlockWallet demo_api demo_keyring demo_limited ''w1'' [0x70] 905001)) ''w1'' = None"
proof -
  let ?tries = "[([0x71], 1000), ([0x71], 2000), ([0x71], 3000), ([0x71], 4000), ([0x71], 5000),
           ([0x71], 6000), ([0x71], 7000)] :: (jsstring \<times> int) list"
  let ?a = "\<lparr>count = 5, lastAttempt = 5000\<rparr>"
  have f: "find (\<lambda>w. w_id w = ''w1'') (wallets demo_limited) = Some (demo_wallet ''w1'' HD)"
    by (simp add: demo_limited_def demo_find_w1)
  have t: "w_type (demo_wallet ''w1'' HD) \<noteq> Watch" "w_type (demo_wallet ''w1'' HD) \<noteq> Multisig"
    by (simp_all add: demo_wallet_def)
  have e: "w_encrypted (demo_wallet ''w1'' HD) = demo_package 0x70 0x73"
    by (simp add: demo_wallet_def)
  have p: "unlockPair demo_api demo_keyring (demo_wallet ''w1'' HD) [0x70] = Some (KeyringPair ''5Uri'')"
    by (simp add: unlockPair_def e demo_decrypt_right) (simp add: demo_wallet_def demo_keyring_def)
  have h1: "unlockAttempts demo_service ''w1'' = None
          \<and> (\<forall>x \<in> set ?tries. isl (decrypt demo_api (w_encrypted (demo_wallet ''w1'' HD)) (fst x)))
          \<and> (\<forall>x \<in> set ?tries. 1000 \<le> snd x \<and> snd x \<le> 1000 + 15 * 60 * 1000)"
    by (simp add: e demo_decrypt_wrong demo_service_def)
  have 1: "fst (unlockWalletRepeatedly demo_api demo_keyring demo_service ''w1'' ?tries) =
     replicate (min 5 (length ?tries)) (Inr False)
     @ replicate (length ?tries - 5)
         (Inl (Error ''Too many failed attempts. Please wait 15 minutes.''))"
    using unlockWallet_rate_limit [OF demo_find_w1 t, where tries = ?tries and wc = demo_api
        and ?t0.0 = 1000 and kr = demo_keyring] h1
    by blast
  have h2: "unlockAttempts demo_limited ''w1'' = Some ?a \<and> 5 \<le> count ?a
            \<and> 6000 - lastAttempt ?a \<le> 15 * 60 * 1000"
    by (simp add: demo_limited_def)
  have 2: "unlockWallet demo_api demo_keyring demo_limited ''w1'' [0x70] 6000 =
       (Inl (Error ''Too many failed attempts. Please wait 15 minutes.''), demo_limited)"
    using unlockWallet_rate_limit [OF f t, where now = 6000] h2 by blast
  have h3: "unlockAttempts demo_limited ''w1'' = Some ?a \<and> 905001 - lastAttempt ?a > 15 * 60 * 1000
            \<and> isl (decrypt demo_api (w_encrypted (demo_wallet ''w1'' HD)) [0x71])"
    by (simp add: demo_limited_def e demo_decrypt_wrong)
  have 3: "fst (unlockWallet demo_api demo_keyring demo_limited ''w1'' [0x71] 905001) = Inr False"
    using unlockWallet_rate_limit [OF f t, where wc = demo_api and kr = demo_keyring
      and now = 905001 and password = "[0x71]"] h3 by blast
  have h4: "(case unlockAttempts demo_limited ''w1'' of
                     None \<Rightarrow> True
                   | Some a \<Rightarrow> count a < 5 \<or> 905001 - lastAttempt a > 15 * 60 * 1000)
            \<and> unlockPair demo_api demo_keyring (demo_wallet ''w1'' HD) [0x70] = Some (KeyringPair ''5Uri'')"
    by (simp add: demo_limited_def p)
  have 4: "fst (unlockWallet demo_api demo_keyring demo_limited ''w1'' [0x70] 905001) = Inr True
   \<and> unlockAttempts (snd (unlockWallet demo_api demo_keyring demo_limited ''w1'' [0x70] 905001)) ''w1'' = None"
    using unlockWallet_rate_limit [OF f t, where wc = demo_api and kr = demo_keyring
      and now = 905001 and password = "[0x70]"] h4 by blast
  have n: "min 5 (length ?tries) = 5" "length ?tries - 5 = 2"
    by simp_all
  show ?thesis using 1 2 3 4 unfolding n by blast
qed

subsection \<open>Unlocking a watch-only or multisig wallet\<close>

text \<open>
  Claim C10.  For a wallet of type watch or multisig, with no recorded failure and no cached
  pair, \<open>unlockWallet\<close> returns \<open>true\<close> and leaves the state as it is, whatever the platform,
  the keyring and the password are: nothing is decrypted and no pair is cached, so
  \<open>isUnlocked\<close> is still false and \<open>getKeypair\<close> still gives nothing.
\<close>

theorem unlockWallet_watch_only:
  assumes "find (\<lambda>w. w_id w = walletId) (wallets s) = Some wallet"
    and "w_type wallet = Watch \<or> w_type wallet = Multisig"
    and "unlockAttempts s walletId = None"
    and "unlockedWallets s walletId = None"
  shows "unlockWallet wc kr s walletId password now = (Inr True, s)
       \<and> \<not> isUnlocked (snd (unlockWallet wc kr s walletId password now)) walletId
       \<and> getKeypair (snd (unlockWallet wc kr s walletId password now)) walletId = None"
  using assms unlock_watch [of walletId s wallet wc kr password now]
  by (simp add: isUnlocked_def getKeypair_def)

theorem unlockWallet_watch_only_witness:
  "fst (unlockWallet demo_api demo_keyring demo_service ''w2'' [0x78] 1000) = Inr True
   \<and> \<not> isUnlocked (snd (unlockWallet demo_api demo_keyring demo_service ''w2'' [0x78] 1000)) ''w2''
   \<and> getKeypair (snd (unlockWallet demo_api demo_keyring demo_service ''w2'' [0x78] 1000)) ''w2'' = None"
proof -
  have "w_type (demo_wallet ''w2'' Watch) = Watch \<or> w_type (demo_wallet ''w2'' Watch) = Multisig"
    by (simp add: demo_wallet_def)
  moreover have "unlockAttempts demo_service ''w2'' = None" "unlockedWallets demo_service ''w2'' = None"
    by (simp_all add: demo_service_def)
  ultimately have "unlockWallet demo_api demo_keyring demo_service ''w2'' [0x78] 1000 = (Inr True, demo_service)
       \<and> \<not> isUnlocked (snd (unlockWallet demo_api demo_keyring demo_service ''w2'' [0x78] 1000)) ''w2''
       \<and> getKeypair (snd (unlockWallet demo_api demo_keyring demo_service ''w2'' [0x78] 1000)) ''w2'' = None"
    by (rule unlockWallet_watch_only [OF demo_find_w2])
  then show ?thesis by auto
qed

text \<open>
  The two conditions on the state are kept by every call of \<open>unlockWallet\<close>, for any id:
  a failure is recorded, and a pair cached, only for a wallet of another type.
\<close>

lemma unlockWallet_keeps_watch_only:
  assumes "find (\<lambda>w. w_id w = i) (wallets s) = Some wallet"
    and "w_type wallet = Watch \<or> w_type wallet = Multisig"
    and "unlockAttempts s i = None"
    and "unlockedWallets s i = None"
  shows "find (\<lambda>w. w_id w = i) (wallets (snd (unlockWallet wc kr s walletId password now))) = Some wallet
       \<and> unlockAttempts (snd (unlockWallet wc kr s walletId password now)) i = None
       \<and> unlockedWallets (snd (unlockWallet wc kr s walletId password now)) i = None"
proof (cases "walletId = i")
  case True
  then show ?thesis using assms unlock_watch [of i s wallet wc kr password now] by simp
next
  case False
  then show ?thesis using assms
    by (auto simp add: unlockWallet_def Let_def split: option.splits)
qed

subsection \<open>Changing the password\<close>

lemma reencrypted_mono:
  "reencrypted wc walletId cur new draws (Suc k) h h' \<Longrightarrow> reencrypted wc walletId cur new draws k h h'"
  by (auto simp: reencrypted_def split: sum.splits if_splits intro: Suc_leD)

lemma list_all2_reencrypted_mono:
  "list_all2 (reencrypted wc walletId cur new draws (Suc k)) hs hs'
   \<Longrightarrow> list_all2 (reencrypted wc walletId cur new draws k) hs hs'"
  by (erule list_all2_mono) (rule reencrypted_mono)

lemma reencryptHotkeys_pointwise:
  "list_all2 (reencrypted wc walletId cur new draws k) hs
     (reencryptHotkeys wc walletId cur new draws k hs)"
proof (induction hs arbitrary: k)
  case Nil
  then show ?case by simp
next
  case (Cons h hs)
  show ?case
  proof (cases "h_coldkeyId h = walletId")
    case False
    then show ?thesis using Cons.IH [of k] by (simp add: reencrypted_def)
  next
    case True
    show ?thesis
    proof (cases "decrypt wc (h_encrypted h) cur")
      case (Inl e)
      then show ?thesis using True Cons.IH [of k] by (simp add: reencrypted_def)
    next
      case (Inr m)
      have tl: "list_all2 (reencrypted wc walletId cur new draws k) hs
                  (reencryptHotkeys wc walletId cur new draws (Suc k) hs)"
        using Cons.IH [of "Suc k"] by (rule list_all2_reencrypted_mono)
      have hd: "reencrypted wc walletId cur new draws k h
                 (case encrypt wc m new (fst (draws k)) (snd (draws k)) of
                    Inl e \<Rightarrow> h | Inr enc \<Rightarrow> h\<lparr>h_encrypted := enc\<rparr>)"
        using True Inr by (auto simp: reencrypted_def split: sum.splits intro!: exI [of _ k])
      show ?thesis using True Inr tl hd by (simp split: sum.splits)
    qed
  qed
qed

lemma find_update_first_same:
  "find P xs = Some x \<Longrightarrow> (\<And>y. P y \<Longrightarrow> P (f y)) \<Longrightarrow> find P (update_first P f xs) = Some (f x)"
  by (induction xs) (auto split: if_splits)

lemma find_other_wallet:
  "i \<noteq> walletId \<Longrightarrow>
   find (\<lambda>w. w_id w = i)
     (update_first (\<lambda>w. w_id w = walletId) (\<lambda>w. w\<lparr>w_encrypted := enc, w_updatedAt := now\<rparr>) ws) =
   find (\<lambda>w. w_id w = i) ws"
  by (induction ws) auto

text \<open>
  Claim C6, as the code has it.  Let the id name a wallet that is neither watch-only nor
  multisig.
  \<^item> If the current password does not decrypt the secret of the coldkey, the call raises
    \<open>Current password is incorrect\<close> and the state is as before.
  \<^item> Otherwise the call succeeds: the wallet holds its secret encrypted under the new
    password, every other wallet is as before, and every hotkey is as \<open>reencrypted\<close> says:
    encrypted again when it belongs to the coldkey and decrypts under the current
    password, untouched otherwise.
  The method returns nothing, so the caller does not learn which hotkeys were skipped.
\<close>

theorem changePassword_reencrypts:
  assumes found: "find (\<lambda>w. w_id w = walletId) (wallets s) = Some wallet"
    and ty: "w_type wallet \<noteq> Watch" "w_type wallet \<noteq> Multisig"
  shows "(isl (decrypt wc (w_encrypted wallet) currentPassword)
          \<longrightarrow> changePassword wc s walletId currentPassword newPassword draws now =
                (Inl (Error ''Current password is incorrect''), s))
       \<and> (\<forall>decrypted enc.
            decrypt wc (w_encrypted wallet) currentPassword = Inr decrypted
            \<and> encrypt wc decrypted newPassword (fst (draws 0)) (snd (draws 0)) = Inr enc
            \<longrightarrow> fst (changePassword wc s walletId currentPassword newPassword draws now) = Inr ()
              \<and> find (\<lambda>w. w_id w = walletId)
                    (wallets (snd (changePassword wc s walletId currentPassword newPassword draws now))) =
                  Some (wallet\<lparr>w_encrypted := enc, w_updatedAt := now\<rparr>)
              \<and> (\<forall>i. i \<noteq> walletId \<longrightarrow>
                    find (\<lambda>w. w_id w = i)
                      (wallets (snd (changePassword wc s walletId currentPassword newPassword draws now))) =
                    find (\<lambda>w. w_id w = i) (wallets s))
              \<and> list_all2 (reencrypted wc walletId currentPassword newPassword draws 1)
                    (hotkeys s)
                    (hotkeys (snd (changePassword wc s walletId currentPassword newPassword draws now))))"
proof (intro conjI allI impI)
  assume "isl (decrypt wc (w_encrypted wallet) currentPassword)"
  then show "changePassword wc s walletId currentPassword newPassword draws now =
                (Inl (Error ''Current password is incorrect''), s)"
    using found ty by (auto simp: changePassword_def split: sum.splits)
next
  fix decrypted enc
  assume h: "decrypt wc (w_encrypted wallet) currentPassword = Inr decrypted
            \<and> encrypt wc decrypted newPassword (fst (draws 0)) (snd (draws 0)) = Inr enc"
  have r: "changePassword wc s walletId currentPassword newPassword draws now =
             (Inr (),
              s\<lparr>wallets := update_first (\<lambda>w. w_id w = walletId)
                              (\<lambda>w. w\<lparr>w_encrypted := enc, w_updatedAt := now\<rparr>) (wallets s),
                hotkeys := reencryptHotkeys wc walletId currentPassword newPassword draws 1
                              (hotkeys s)\<rparr>)"
    using found ty h by (simp add: changePassword_def)
  show "fst (changePassword wc s walletId currentPassword newPassword draws now) = Inr ()"
    by (simp add: r)
  show "find (\<lambda>w. w_id w = walletId)
          (wallets (snd (changePassword wc s walletId currentPassword newPassword draws now))) =
        Some (wallet\<lparr>w_encrypted := enc, w_updatedAt := now\<rparr>)"
    using find_update_first_same [OF found, of "\<lambda>w. w\<lparr>w_encrypted := enc, w_updatedAt := now\<rparr>"]
    by (simp add: r)
  show "list_all2 (reencrypted wc walletId currentPassword newPassword draws 1)
          (hotkeys s)
          (hotkeys (snd (changePassword wc s walletId currentPassword newPassword draws now)))"
    using reencryptHotkeys_pointwise [of wc walletId currentPassword newPassword draws 1 "hotkeys s"]
    by (simp add: r)
  fix i
  assume "i \<noteq> walletId"
  then show "find (\<lambda>w. w_id w = i)
               (wallets (snd (changePassword wc s walletId currentPassword newPassword draws now))) =
             find (\<lambda>w. w_id w = i) (wallets s)"
    by (simp add: r find_other_wallet)
qed

lemma demo_encrypt_w: "encrypt demo_api [0x73] [0x72] [7] [9] = Inr (demo_package 0x72 0x73)"
  by (simp add: demo_crypto_defs demo_package_def)

lemma demo_encrypt_h: "encrypt demo_api [0x6D] [0x72] [7] [9] = Inr (demo_package 0x72 0x6D)"
  by (simp add: demo_crypto_defs demo_package_def)

lemma demo_decrypt_h1: "decrypt demo_api (demo_package 0x70 0x6D) [0x70] = Inr [0x6D]"
  by (simp add: demo_crypto_defs demo_package_def)

lemma demo_decrypt_h2: "decrypt demo_api (demo_package 0x71 0x6D) [0x70] = Inl OperationError"
  by (simp add: demo_crypto_defs demo_package_def)

lemma demo_changePassword:
  "changePassword demo_api demo_service ''w1'' [0x70] [0x72] (\<lambda>k. ([7], [9])) 5 =
     (Inr (),
      demo_service
        \<lparr>wallets := [(demo_wallet ''w1'' HD)\<lparr>w_encrypted := demo_package 0x72 0x73, w_updatedAt := 5\<rparr>,
                     demo_wallet ''w2'' Watch],
         hotkeys := [(demo_hotkey ''h1'' ''w1'' 0x70)\<lparr>h_encrypted := demo_package 0x72 0x6D\<rparr>,
                     demo_hotkey ''h2'' ''w1'' 0x71, demo_hotkey ''h3'' ''w2'' 0x70]\<rparr>)"
  by (simp add: changePassword_def demo_service_def demo_wallet_def demo_hotkey_def
      demo_decrypt_right demo_encrypt_w demo_decrypt_h1 demo_decrypt_h2 demo_encrypt_h)

theorem changePassword_reencrypts_witness:
  "changePassword demo_api demo_service ''w1'' [0x71] [0x72] (\<lambda>k. ([7], [9])) 5 =
     (Inl (Error ''Current password is incorrect''), demo_service)
   \<and> fst (changePassword demo_api demo_service ''w1'' [0x70] [0x72] (\<lambda>k. ([7], [9])) 5) = Inr ()
   \<and> find (\<lambda>w. w_id w = ''w1'')
        (wallets (snd (changePassword demo_api demo_service ''w1'' [0x70] [0x72] (\<lambda>k. ([7], [9])) 5))) =
      Some ((demo_wallet ''w1'' HD)\<lparr>w_encrypted := demo_package 0x72 0x73, w_updatedAt := 5\<rparr>)
   \<and> hotkeys (snd (changePassword demo_api demo_service ''w1'' [0x70] [0x72] (\<lambda>k. ([7], [9])) 5)) =
       [(demo_hotkey ''h1'' ''w1'' 0x70)\<lparr>h_encrypted := demo_package 0x72 0x6D\<rparr>,
        demo_hotkey ''h2'' ''w1'' 0x71, demo_hotkey ''h3'' ''w2'' 0x70]"
proof -
  have t: "w_type (demo_wallet ''w1'' HD) \<noteq> Watch" "w_type (demo_wallet ''w1'' HD) \<noteq> Multisig"
    by (simp_all add: demo_wallet_def)
  have e: "w_encrypted (demo_wallet ''w1'' HD) = demo_package 0x70 0x73"
    by (simp add: demo_wallet_def)
  have h1: "isl (decrypt demo_api (w_encrypted (demo_wallet ''w1'' HD)) [0x71])"
    by (simp add: e demo_decrypt_wrong)
  have 1: "changePassword demo_api demo_service ''w1'' [0x71] [0x72] (\<lambda>k. ([7], [9])) 5 =
     (Inl (Error ''Current password is incorrect''), demo_service)"
    using changePassword_reencrypts [OF demo_find_w1 t, where wc = demo_api
        and currentPassword = "[0x71]"] h1
    by blast
  have h2: "decrypt demo_api (w_encrypted (demo_wallet ''w1'' HD)) [0x70] = Inr [0x73]
            \<and> encrypt demo_api [0x73] [0x72] (fst (([7], [9]) :: byte list \<times> byte list))
                 (snd (([7], [9]) :: byte list \<times> byte list)) = Inr (demo_package 0x72 0x73)"
    by (simp add: e demo_decrypt_right demo_encrypt_w)
  have 2: "fst (changePassword demo_api demo_service ''w1'' [0x70] [0x72] (\<lambda>k. ([7], [9])) 5) = Inr ()
   \<and> find (\<lambda>w. w_id w = ''w1'')
        (wallets (snd (changePassword demo_api demo_service ''w1'' [0x70] [0x72] (\<lambda>k. ([7], [9])) 5))) =
      Some ((demo_wallet ''w1'' HD)\<lparr>w_encrypted := demo_package 0x72 0x73, w_updatedAt := 5\<rparr>)"
    using changePassword_reencrypts [OF demo_find_w1 t, where wc = demo_api
        and currentPassword = "[0x70]" and newPassword = "[0x72]"
        and draws = "\<lambda>k. ([7], [9])" and now = 5] h2
    by blast
  have 3: "hotkeys (snd (changePassword demo_api demo_service ''w1'' [0x70] [0x72] (\<lambda>k. ([7], [9])) 5)) =
       [(demo_hotkey ''h1'' ''w1'' 0x70)\<lparr>h_encrypted := demo_package 0x72 0x6D\<rparr>,
        demo_hotkey ''h2'' ''w1'' 0x71, demo_hotkey ''h3'' ''w2'' 0x70]"
    by (simp add: demo_changePassword)
  show ?thesis using 1 2 3 by blast
qed

text \<open>
  Claim C6 as stated fails: on the store whose hotkey \<open>h2\<close> is under another password the
  call skips \<open>h2\<close> and returns the same value, nothing, as on a store where no hotkey is
  skipped.
\<close>

theorem changePassword_reports_no_skipped_hotkey:
  "fst (changePassword demo_api demo_service ''w1'' [0x70] [0x72] (\<lambda>k. ([7], [9])) 5) = Inr ()
   \<and> skippedHotkeys demo_api demo_service ''w1'' [0x70] = [''h2'']
   \<and> demo_hotkey ''h2'' ''w1'' 0x71
       \<in> set (hotkeys (snd (changePassword demo_api demo_service ''w1'' [0x70] [0x72] (\<lambda>k. ([7], [9])) 5)))
   \<and> fst (changePassword demo_api (demo_service\<lparr>hotkeys := [demo_hotkey ''h1'' ''w1'' 0x70]\<rparr>)
            ''w1'' [0x70] [0x72] (\<lambda>k. ([7], [9])) 5) = Inr ()
   \<and> skippedHotkeys demo_api (demo_service\<lparr>hotkeys := [demo_hotkey ''h1'' ''w1'' 0x70]\<rparr>)
        ''w1'' [0x70] = []"
  by (simp add: demo_changePassword)
     (simp add: changePassword_def skippedHotkeys_def demo_service_def demo_wallet_def demo_hotkey_def
      demo_decrypt_right demo_encrypt_w demo_decrypt_h1 demo_decrypt_h2 demo_encrypt_h)
section \<open>The connection manager\<close>

subsection \<open>Reconnecting\<close>

text \<open>
  Every event is one step of the backoff: it leaves the counter and the recorded delays as
  they are, or sets the counter to 0, or raises the counter, which was below 5, by one and
  records the delay \<open>min (2000 * counter) 30000\<close> for its new value.  So the counter never
  exceeds 5, no recorded delay exceeds 30000, and with the counter at 5 nothing is
  scheduled.
\<close>

lemma handleDisconnect_schedules:
  assumes "reconnectAttempts s < 5" "currentNetwork s \<noteq> None"
  shows "reconnectAttempts (handleDisconnect s) = Suc (reconnectAttempts s)
       \<and> reconnectDelays (handleDisconnect s) =
           reconnectDelays s @ [min (2000 * Suc (reconnectAttempts s)) 30000]"
  using assms by (simp add: handleDisconnect_def maxReconnectAttempts_def Let_def)

lemma handleDisconnect_stops:
  assumes "5 \<le> reconnectAttempts s \<or> currentNetwork s = None"
  shows "reconnectAttempts (handleDisconnect s) = reconnectAttempts s
       \<and> reconnectDelays (handleDisconnect s) = reconnectDelays s"
  using assms by (auto simp add: handleDisconnect_def maxReconnectAttempts_def Let_def)

lemma handleDisconnect_backoff_step:
  assumes "reconnectAttempts t = reconnectAttempts s" "reconnectDelays t = reconnectDelays s"
  shows "backoff_step s (handleDisconnect t)"
proof (cases "reconnectAttempts t < 5 \<and> currentNetwork t \<noteq> None")
  case True
  then show ?thesis using handleDisconnect_schedules [of t] assms by (simp add: backoff_step_def)
next
  case False
  then have "5 \<le> reconnectAttempts t \<or> currentNetwork t = None" by auto
  then show ?thesis using handleDisconnect_stops [of t] assms by (simp add: backoff_step_def)
qed

lemma updateProvider_counter [simp]:
  "reconnectAttempts (updateProvider s k f) = reconnectAttempts s"
  "reconnectDelays (updateProvider s k f) = reconnectDelays s"
  by (simp_all add: updateProvider_def)

lemma closeSocket_counter [simp]:
  "reconnectAttempts (closeSocket s k) = reconnectAttempts s"
  "reconnectDelays (closeSocket s k) = reconnectDelays s"
  by (simp_all add: closeSocket_def)

lemma disconnectInternal_counter [simp]:
  "reconnectAttempts (disconnectInternal s) = reconnectAttempts s"
  "reconnectDelays (disconnectInternal s) = reconnectDelays s"
  by (simp_all add: disconnectInternal_def Let_def split: option.splits)

lemma connect_counter [simp]:
  "reconnectAttempts (snd (connect s networkId customUrl)) = reconnectAttempts s"
  "reconnectDelays (snd (connect s networkId customUrl)) = reconnectDelays s"
  by (simp_all add: connect_def Let_def split: option.splits)

lemma connectCatch_backoff_step:
  assumes "reconnectAttempts t = reconnectAttempts s" "reconnectDelays t = reconnectDelays s"
  shows "backoff_step s (connectCatch t network)"
  unfolding connectCatch_def using assms by (intro handleDisconnect_backoff_step) simp_all

lemma backoff_step_refl: "backoff_step s s"
  by (simp add: backoff_step_def)

lemma conn_step_backoff: "backoff_step s (conn_step s e)"
proof (cases e)
  case (ConnectCall networkId customUrl)
  then show ?thesis by (simp add: backoff_step_def)
next
  case SocketConnected
  then show ?thesis
    by (simp add: backoff_step_def socketConnected_def split: handshake.splits)
next
  case ApiReady
  then show ?thesis by (simp add: backoff_step_def apiReady_def split: handshake.splits)
next
  case HandshakeFailed
  then show ?thesis
    by (simp add: handshakeFailed_def backoff_step_refl connectCatch_backoff_step
        split: handshake.splits)
next
  case (SocketClosed k)
  then show ?thesis
    by (simp add: socketClosed_def Let_def backoff_step_refl handleDisconnect_backoff_step)
       (simp add: backoff_step_def)
next
  case TimerFired
  then show ?thesis
    by (simp add: timerFired_def Let_def backoff_step_def split: option.splits)
next
  case DisconnectCall
  then show ?thesis by (simp add: disconnect_def backoff_step_def)
qed

lemma conn_run_bounds:
  assumes "reconnectAttempts s \<le> 5" "list_all (\<lambda>d. d \<le> 30000) (reconnectDelays s)"
  shows "reconnectAttempts (conn_run s events) \<le> 5
       \<and> list_all (\<lambda>d. d \<le> 30000) (reconnectDelays (conn_run s events))"
  using assms
proof (induction events arbitrary: s)
  case Nil
  then show ?case by (simp add: conn_run_def)
next
  case (Cons e events)
  have b: "backoff_step s (conn_step s e)" by (rule conn_step_backoff)
  have "reconnectAttempts (conn_step s e) \<le> 5
        \<and> list_all (\<lambda>d. d \<le> 30000) (reconnectDelays (conn_step s e))"
    using b Cons.prems by (auto simp: backoff_step_def)
  then show ?case using Cons.IH [of "conn_step s e"] by (simp add: conn_run_def)
qed

lemma conn_step_stops:
  assumes "reconnectAttempts s = 5"
  shows "reconnectDelays (conn_step s e) = reconnectDelays s"
  using conn_step_backoff [of s e] assms by (auto simp: backoff_step_def)

lemma apiReady_resets:
  assumes "pendingConnect s = AwaitingApi network k" "socketOf s k = OPEN"
  shows "reconnectAttempts (apiReady s) = 0 \<and> isConnecting (apiReady s) = False
       \<and> currentNetwork (apiReady s) = Some network \<and> api (apiReady s) = Some k"
  using assms by (simp add: apiReady_def)

lemmas conn_defs = conn_run_def connect_def lookupNetwork_def NETWORKS_def
  disconnectInternal_def handleDisconnect_def maxReconnectAttempts_def socketConnected_def
  apiReady_def handshakeFailed_def connectCatch_def socketClosed_def timerFired_def
  closeSocket_def updateProvider_def socketOf_def listens_def isConnected_def network_id_def
  network_url_def Let_def

text \<open>
  A name of \<^verbatim>\<open>Object.prototype\<close> is not an unknown network: the call goes on, with the
  default endpoint.
\<close>

lemma connect_inherited_name:
  "fst (connect demo_disconnected ''constructor'' None) = None
   \<and> map endpoint (providers (snd (connect demo_disconnected ''constructor'' None))) =
       [''ws://127.0.0.1:9944'']
   \<and> fst (connect demo_disconnected ''nowhere'' None) =
       Some (Inl (Error ''Unknown network: nowhere''))"
  by (simp add: conn_defs demo_disconnected_def Object_prototype_def WS_URL_def)

text \<open>
  A call of \<^verbatim>\<open>connect\<close> to another network closes the connected provider, whose handler
  then calls \<^verbatim>\<open>handleDisconnect\<close>: the callback is called with \<^verbatim>\<open>false\<close> and a timer
  of 2000 ms is set, during a call that succeeds.
\<close>

lemma connect_to_other_network:
  "reconnectAttempts
     (conn_run demo_connected [ConnectCall ''test'' None, SocketClosed 0, SocketConnected, ApiReady]) = 0
   \<and> reconnectDelays
       (conn_run demo_connected [ConnectCall ''test'' None, SocketClosed 0, SocketConnected, ApiReady]) = [2000]
   \<and> connectionChanges
       (conn_run demo_connected [ConnectCall ''test'' None, SocketClosed 0, SocketConnected, ApiReady]) =
       [True, False, True]
   \<and> isConnected
       (conn_run demo_connected [ConnectCall ''test'' None, SocketClosed 0, SocketConnected, ApiReady])"
  by (simp add: conn_defs demo_connected_def)

text \<open>
  Claim C8, at a failing input.  On a manager that was never connected, \<^verbatim>\<open>connect('mainnet')\<close>
  is called; the socket opens, and the API is not ready in time.
  \<^item> When the call returns \<^verbatim>\<open>false\<close>, the \<^verbatim>\<open>catch\<close> has closed the provider and has
    called \<^verbatim>\<open>handleDisconnect\<close>: the counter is 1, and a timer of 2000 ms is set.
  \<^item> When the provider reports the close, its handler calls \<^verbatim>\<open>handleDisconnect\<close> once
    more: after this one failure the counter is 2, and a second timer, of 4000 ms, is set.
  \<^item> After three such failures, each attempt started by a timer, the counter is 5: no
    further reconnection is scheduled.
  \<^item> When the socket does not open, there is no handler, and the failure counts once.
\<close>

theorem failed_handshake_counts_twice:
  "reconnectAttempts
     (conn_run demo_disconnected [ConnectCall ''mainnet'' None, SocketConnected, HandshakeFailed]) = 1
   \<and> reconnectDelays
       (conn_run demo_disconnected [ConnectCall ''mainnet'' None, SocketConnected, HandshakeFailed]) = [2000]
   \<and> isConnecting
       (conn_run demo_disconnected [ConnectCall ''mainnet'' None, SocketConnected, HandshakeFailed]) = False
   \<and> reconnectAttempts
       (conn_run demo_disconnected
          [ConnectCall ''mainnet'' None, SocketConnected, HandshakeFailed, SocketClosed 0]) = 2
   \<and> reconnectDelays
       (conn_run demo_disconnected
          [ConnectCall ''mainnet'' None, SocketConnected, HandshakeFailed, SocketClosed 0]) = [2000, 4000]
   \<and> connectionChanges
       (conn_run demo_disconnected
          [ConnectCall ''mainnet'' None, SocketConnected, HandshakeFailed, SocketClosed 0]) = [False, False]
   \<and> reconnectAttempts
       (conn_run demo_disconnected
          [ConnectCall ''mainnet'' None, SocketConnected, HandshakeFailed, SocketClosed 0,
           TimerFired, SocketConnected, HandshakeFailed, SocketClosed 1,
           TimerFired, SocketConnected, HandshakeFailed, SocketClosed 2]) = 5
   \<and> reconnectDelays
       (conn_run demo_disconnected
          [ConnectCall ''mainnet'' None, SocketConnected, HandshakeFailed, SocketClosed 0,
           TimerFired, SocketConnected, HandshakeFailed, SocketClosed 1,
           TimerFired, SocketConnected, HandshakeFailed, SocketClosed 2]) =
       [2000, 4000, 6000, 8000, 10000]
   \<and> reconnectAttempts
       (conn_run demo_disconnected [ConnectCall ''mainnet'' None, HandshakeFailed, SocketClosed 0]) = 1
   \<and> reconnectDelays
       (conn_run demo_disconnected [ConnectCall ''mainnet'' None, HandshakeFailed, SocketClosed 0]) = [2000]"
  by (simp add: conn_defs demo_disconnected_def)

subsection \<open>Signing a transaction\<close>

lemma wrapSignature_prefix:
  assumes "length rawSignature = 64"
  shows "wrapSignature rawSignature = Inr (SR25519_TYPE_PREFIX # rawSignature)"
  using assms
  by (simp add: wrapSignature_def typed_array_set_def SR25519_TYPE_PREFIX_def Let_def
        numeral_eq_Suc)

lemma signTx_attaches:
  assumes "length rawSignature = 64"
    and "accountNextIndex chain (address signer) = Inr nonce"
    and "createSignerPayload chain tx nonce = Inr data"
    and "sign signer data = Inr rawSignature"
  shows "signTx chain signer tx =
           (case addSignature chain tx (address signer) (SR25519_TYPE_PREFIX # rawSignature) of
              Some e \<Rightarrow> Inl e
            | None \<Rightarrow>
                Inr (tx\<lparr>tx_signature :=
                          Some (address signer, SR25519_TYPE_PREFIX # rawSignature)\<rparr>))"
  using assms(2-4) wrapSignature_prefix [OF assms(1)] by (simp add: signTx_def)

lemma signTx_raises: "(signTx chain signer tx = Inl e) = raisedWhileSigning chain signer tx e"
  by (auto simp add: signTx_def raisedWhileSigning_def split: sum.splits option.splits)

text \<open>
  Claim C4.  Let the signer give a raw signature of 64 bytes for the payload of the
  transaction.  The wrapped signature has 65 bytes: byte 0 is the scheme discriminator
  \<open>0x01\<close> and bytes 1 to 64 are the bytes of the raw signature.  It is the signature that
  is handed to \<^verbatim>\<open>addSignature\<close> with the address of the signer, and that the signed
  transaction carries; and when \<^verbatim>\<open>addSignature\<close> does not raise, the transaction that
  each of the five methods submits is the transaction it built with this signature
  attached.
\<close>

theorem wrapped_signature_attached:
  assumes "length rawSignature = 64"
    and "accountNextIndex chain (address signer) = Inr nonce"
    and "createSignerPayload chain tx nonce = Inr data"
    and "sign signer data = Inr rawSignature"
  shows "\<exists>ms. wrapSignature rawSignature = Inr ms \<and> length ms = 65 \<and> ms ! 0 = 0x01
           \<and> (\<forall>i<64. ms ! (i + 1) = rawSignature ! i)
           \<and> signTx chain signer tx =
               (case addSignature chain tx (address signer) ms of
                  Some e \<Rightarrow> Inl e
                | None \<Rightarrow> Inr (tx\<lparr>tx_signature := Some (address signer, ms)\<rparr>))
           \<and> (api s \<noteq> None \<and> addSignature chain tx (address signer) ms = None \<longrightarrow>
                (transferKeepAlive chain to amount = Inr tx \<longrightarrow>
                   transfer s chain signer to amount =
                     submitAndWaitForBlock s chain (tx\<lparr>tx_signature := Some (address signer, ms)\<rparr>))
                \<and> (addStakeExtrinsic chain hotkey netuid amount = Inr tx \<longrightarrow>
                     addStake s chain signer hotkey netuid amount =
                       submitAndWaitForBlock s chain (tx\<lparr>tx_signature := Some (address signer, ms)\<rparr>))
                \<and> (removeStakeExtrinsic chain hotkey netuid amount = Inr tx \<longrightarrow>
                     removeStake s chain signer hotkey netuid amount =
                       submitAndWaitForBlock s chain (tx\<lparr>tx_signature := Some (address signer, ms)\<rparr>))
                \<and> (moveStakeExtrinsic chain hotkey destHotkey netuid amount = Inr tx \<longrightarrow>
                     moveStake s chain signer hotkey destHotkey netuid amount =
                       submitAndWaitForBlock s chain (tx\<lparr>tx_signature := Some (address signer, ms)\<rparr>))
                \<and> (addStakeLimitExtrinsic chain hotkey netuid amount limitPrice allowPartial
                      = Inr (Some tx) \<longrightarrow>
                     addStakeLimit s chain signer hotkey netuid amount limitPrice allowPartial =
                       (case sendPlain chain (tx\<lparr>tx_signature := Some (address signer, ms)\<rparr>) of
                          Inl e \<Rightarrow> Returns (failure (message e))
                        | Inr h \<Rightarrow> Returns (included h))))"
proof -
  let ?ms = "SR25519_TYPE_PREFIX # rawSignature"
  have w: "wrapSignature rawSignature = Inr ?ms" using assms(1) by (rule wrapSignature_prefix)
  have l: "length ?ms = 65" "?ms ! 0 = 0x01" "\<forall>i<64. ?ms ! (i + 1) = rawSignature ! i"
    using assms(1) by (simp_all add: SR25519_TYPE_PREFIX_def)
  have st: "signTx chain signer tx =
           (case addSignature chain tx (address signer) ?ms of
              Some e \<Rightarrow> Inl e
            | None \<Rightarrow> Inr (tx\<lparr>tx_signature := Some (address signer, ?ms)\<rparr>))"
    using assms by (rule signTx_attaches)
  have ops: "api s \<noteq> None \<and> addSignature chain tx (address signer) ?ms = None \<longrightarrow>
                (transferKeepAlive chain to amount = Inr tx \<longrightarrow>
                   transfer s chain signer to amount =
                     submitAndWaitForBlock s chain (tx\<lparr>tx_signature := Some (address signer, ?ms)\<rparr>))
                \<and> (addStakeExtrinsic chain hotkey netuid amount = Inr tx \<longrightarrow>
                     addStake s chain signer hotkey netuid amount =
                       submitAndWaitForBlock s chain (tx\<lparr>tx_signature := Some (address signer, ?ms)\<rparr>))
                \<and> (removeStakeExtrinsic chain hotkey netuid amount = Inr tx \<longrightarrow>
                     removeStake s chain signer hotkey netuid amount =
                       submitAndWaitForBlock s chain (tx\<lparr>tx_signature := Some (address signer, ?ms)\<rparr>))
                \<and> (moveStakeExtrinsic chain hotkey destHotkey netuid amount = Inr tx \<longrightarrow>
                     moveStake s chain signer hotkey destHotkey netuid amount =
                       submitAndWaitForBlock s chain (tx\<lparr>tx_signature := Some (address signer, ?ms)\<rparr>))
                \<and> (addStakeLimitExtrinsic chain hotkey netuid amount limitPrice allowPartial
                      = Inr (Some tx) \<longrightarrow>
                     addStakeLimit s chain signer hotkey netuid amount limitPrice allowPartial =
                       (case sendPlain chain (tx\<lparr>tx_signature := Some (address signer, ?ms)\<rparr>) of
                          Inl e \<Rightarrow> Returns (failure (message e))
                        | Inr h \<Rightarrow> Returns (included h)))"
    using st
    by (auto simp add: transfer_def addStake_def removeStake_def moveStake_def addStakeLimit_def
        signAndSubmit_def)
  show ?thesis using w l st ops by blast
qed

lemma demo_wrap_signature: "wrapSignature (replicate 64 0xAB) = Inr (0x01 # replicate 64 0xAB)"
  using wrapSignature_prefix [of "replicate 64 0xAB"] by (simp add: SR25519_TYPE_PREFIX_def)

lemma demo_signTx:
  "signTx demo_chain demo_signer tx =
     Inr (tx\<lparr>tx_signature := Some (''5Aw1'', 0x01 # replicate 64 0xAB)\<rparr>)"
  by (simp add: signTx_def demo_chain_def demo_signer_def demo_wrap_signature)

lemma demo_signTx_silent:
  "signTx demo_silent_chain demo_signer tx =
     Inr (tx\<lparr>tx_signature := Some (''5Aw1'', 0x01 # replicate 64 0xAB)\<rparr>)"
  by (simp add: signTx_def demo_silent_chain_def demo_chain_def demo_signer_def
      demo_wrap_signature)

lemma demo_built_silent:
  "transferKeepAlive demo_silent_chain ''5Dest'' 1 = Inr (demo_tx [AString ''5Dest'', ANumber 1])"
  by (simp add: transferKeepAlive_def demo_silent_chain_def demo_chain_def)

lemma demo_built:
  "transferKeepAlive demo_chain ''5Dest'' 1 = Inr (demo_tx [AString ''5Dest'', ANumber 1])"
  by (simp add: transferKeepAlive_def demo_chain_def)

theorem wrapped_signature_attached_witness:
  "length (replicate 64 (0xAB :: byte)) = 64
   \<and> accountNextIndex demo_chain (address demo_signer) = Inr 0
   \<and> createSignerPayload demo_chain (demo_tx [AString ''5Dest'', ANumber 1]) 0 = Inr [1, 2, 3]
   \<and> sign demo_signer [1, 2, 3] = Inr (replicate 64 0xAB)
   \<and> wrapSignature (replicate 64 0xAB) = Inr (0x01 # replicate 64 0xAB)
   \<and> signTx demo_chain demo_signer (demo_tx [AString ''5Dest'', ANumber 1]) =
       Inr ((demo_tx [AString ''5Dest'', ANumber 1])
              \<lparr>tx_signature := Some (''5Aw1'', 0x01 # replicate 64 0xAB)\<rparr>)
   \<and> transfer demo_connected demo_chain demo_signer ''5Dest'' 1 =
       submitAndWaitForBlock demo_connected demo_chain
         ((demo_tx [AString ''5Dest'', ANumber 1])
            \<lparr>tx_signature := Some (''5Aw1'', 0x01 # replicate 64 0xAB)\<rparr>)"
proof -
  let ?tx = "demo_tx [AString ''5Dest'', ANumber 1]"
  let ?raw = "replicate 64 (0xAB :: byte)"
  have l: "length ?raw = 64" by simp
  have n: "accountNextIndex demo_chain (address demo_signer) = Inr 0"
    by (simp add: demo_chain_def)
  have p: "createSignerPayload demo_chain ?tx 0 = Inr [1, 2, 3]" by (simp add: demo_chain_def)
  have g: "sign demo_signer [1, 2, 3] = Inr ?raw" by (simp add: demo_signer_def)
  have a: "address demo_signer = ''5Aw1''" by (simp add: demo_signer_def)
  have c: "api demo_connected \<noteq> None" by (simp add: demo_connected_def)
  have ok: "addSignature demo_chain tx' a' sg = None" for tx' a' sg by (simp add: demo_chain_def)
  obtain ms where ms: "wrapSignature ?raw = Inr ms" "length ms = 65" "ms ! 0 = 0x01"
    "\<forall>i<64. ms ! (i + 1) = ?raw ! i"
    "signTx demo_chain demo_signer ?tx =
       (case addSignature demo_chain ?tx (address demo_signer) ms of
          Some e \<Rightarrow> Inl e
        | None \<Rightarrow> Inr (?tx\<lparr>tx_signature := Some (address demo_signer, ms)\<rparr>))"
    "api demo_connected \<noteq> None \<and> addSignature demo_chain ?tx (address demo_signer) ms = None \<longrightarrow>
       (transferKeepAlive demo_chain ''5Dest'' 1 = Inr ?tx \<longrightarrow>
          transfer demo_connected demo_chain demo_signer ''5Dest'' 1 =
            submitAndWaitForBlock demo_connected demo_chain
              (?tx\<lparr>tx_signature := Some (address demo_signer, ms)\<rparr>))"
    using wrapped_signature_attached [OF l n p g, where s = demo_connected and to = "''5Dest''"
        and amount = 1]
    by blast
  have w: "wrapSignature ?raw = Inr (0x01 # ?raw)" by (rule demo_wrap_signature)
  have e: "ms = 0x01 # ?raw" using ms(1) w by simp
  have s1: "signTx demo_chain demo_signer ?tx = Inr (?tx\<lparr>tx_signature := Some (''5Aw1'', ms)\<rparr>)"
    using ms(5) ok a by simp
  have s2: "transfer demo_connected demo_chain demo_signer ''5Dest'' 1 =
            submitAndWaitForBlock demo_connected demo_chain
              (?tx\<lparr>tx_signature := Some (''5Aw1'', ms)\<rparr>)"
    using ms(6) c ok demo_built a by simp
  show ?thesis using l n p g w s1 s2 unfolding e by blast
qed

subsection \<open>The signing pipeline\<close>

lemma structured_signAndSubmit:
  assumes "api s \<noteq> None"
  shows "structured s chain signer built (signAndSubmit s chain signer built)"
proof (cases built)
  case (Inl e)
  then show ?thesis using assms
    by (simp add: structured_def signAndSubmit_def failure_def included_def)
next
  case (Inr tx)
  show ?thesis
  proof (cases "signTx chain signer tx")
    case (Inl e)
    then show ?thesis using assms Inr
      by (simp add: structured_def signAndSubmit_def failure_def included_def)
  next
    case signed: (Inr signedTx)
    show ?thesis
    proof (cases "send chain signedTx")
      case (Rejected e)
      then show ?thesis using assms Inr signed
        by (simp add: structured_def signAndSubmit_def submitAndWaitForBlock_def failure_def
            included_def accepted_def neverInBlock_def)
    next
      case (Updates updates)
      show ?thesis
      proof (cases "find inBlock updates")
        case None
        then show ?thesis using assms Inr signed Updates
          by (simp add: structured_def signAndSubmit_def submitAndWaitForBlock_def
              accepted_def neverInBlock_def)
      next
        case (Some u)
        then show ?thesis using assms Inr signed Updates
          by (cases "dispatchError u")
             (simp_all add: structured_def signAndSubmit_def submitAndWaitForBlock_def
               failure_def included_def accepted_def neverInBlock_def)
      qed
    qed
  qed
qed

lemma structured_limit_addStakeLimit:
  assumes "api s \<noteq> None"
  shows "structured_limit chain signer
           (addStakeLimitExtrinsic chain hotkey netuid amount limitPrice allowPartial)
           (addStake s chain signer hotkey netuid amount)
           (addStakeLimit s chain signer hotkey netuid amount limitPrice allowPartial)"
proof -
  have "structured s chain signer (addStakeExtrinsic chain hotkey netuid amount)
          (addStake s chain signer hotkey netuid amount)"
    unfolding addStake_def using assms by (rule structured_signAndSubmit)
  then have f: "\<forall>e. addStake s chain signer hotkey netuid amount \<noteq> Raises e"
    "\<forall>res. addStake s chain signer hotkey netuid amount = Returns res
           \<longrightarrow> (\<exists>h. res = included h) \<or> (\<exists>m. res = failure m)"
    by (simp_all add: structured_def)
  show ?thesis using assms f
    by (auto simp add: structured_limit_def addStakeLimit_def split: sum.splits option.splits)
qed

text \<open>
  Claim C5, as the code has it.  On a manager that holds an API handle, the outcome of
  each of the five methods is structured: the call does not raise; an error raised while
  the transaction is built, signed or sent is returned as \<open>failure\<close> with its message, and
  so is a dispatch error; success, with the hash, is returned exactly when the chain has
  taken the signed transaction; and the call is pending exactly when the chain reports the
  signed transaction neither in a block nor finalized.  On a manager without a handle each
  method raises \<open>Not connected\<close>: the check stands before the \<^verbatim>\<open>try\<close>.
\<close>

theorem pipeline_structured_results:
  "(api s \<noteq> None \<longrightarrow>
      structured s chain signer (transferKeepAlive chain to amount)
        (transfer s chain signer to amount)
      \<and> structured s chain signer (addStakeExtrinsic chain hotkey netuid amount)
          (addStake s chain signer hotkey netuid amount)
      \<and> structured s chain signer (removeStakeExtrinsic chain hotkey netuid amount)
          (removeStake s chain signer hotkey netuid amount)
      \<and> structured s chain signer (moveStakeExtrinsic chain hotkey destHotkey netuid amount)
          (moveStake s chain signer hotkey destHotkey netuid amount)
      \<and> structured_limit chain signer
          (addStakeLimitExtrinsic chain hotkey netuid amount limitPrice allowPartial)
          (addStake s chain signer hotkey netuid amount)
          (addStakeLimit s chain signer hotkey netuid amount limitPrice allowPartial))
   \<and> (\<forall>tx e. (signTx chain signer tx = Inl e) = raisedWhileSigning chain signer tx e)
   \<and> (api s = None \<longrightarrow>
      transfer s chain signer to amount = Raises (Error ''Not connected'')
      \<and> addStake s chain signer hotkey netuid amount = Raises (Error ''Not connected'')
      \<and> removeStake s chain signer hotkey netuid amount = Raises (Error ''Not connected'')
      \<and> moveStake s chain signer hotkey destHotkey netuid amount = Raises (Error ''Not connected'')
      \<and> addStakeLimit s chain signer hotkey netuid amount limitPrice allowPartial =
          Raises (Error ''Not connected''))"
proof (intro conjI impI)
  show "\<forall>tx e. (signTx chain signer tx = Inl e) = raisedWhileSigning chain signer tx e"
    by (simp add: signTx_raises)
next
  assume a: "api s \<noteq> None"
  show "structured s chain signer (transferKeepAlive chain to amount)
          (transfer s chain signer to amount)"
    unfolding transfer_def using a by (rule structured_signAndSubmit)
  show "structured s chain signer (addStakeExtrinsic chain hotkey netuid amount)
          (addStake s chain signer hotkey netuid amount)"
    unfolding addStake_def using a by (rule structured_signAndSubmit)
  show "structured s chain signer (removeStakeExtrinsic chain hotkey netuid amount)
          (removeStake s chain signer hotkey netuid amount)"
    unfolding removeStake_def using a by (rule structured_signAndSubmit)
  show "structured s chain signer (moveStakeExtrinsic chain hotkey destHotkey netuid amount)
          (moveStake s chain signer hotkey destHotkey netuid amount)"
    unfolding moveStake_def using a by (rule structured_signAndSubmit)
  show "structured_limit chain signer
          (addStakeLimitExtrinsic chain hotkey netuid amount limitPrice allowPartial)
          (addStake s chain signer hotkey netuid amount)
          (addStakeLimit s chain signer hotkey netuid amount limitPrice allowPartial)"
    using a by (rule structured_limit_addStakeLimit)
next
  assume "api s = None"
  then show "transfer s chain signer to amount = Raises (Error ''Not connected'')"
    "addStake s chain signer hotkey netuid amount = Raises (Error ''Not connected'')"
    "removeStake s chain signer hotkey netuid amount = Raises (Error ''Not connected'')"
    "moveStake s chain signer hotkey destHotkey netuid amount = Raises (Error ''Not connected'')"
    "addStakeLimit s chain signer hotkey netuid amount limitPrice allowPartial =
       Raises (Error ''Not connected'')"
    by (simp_all add: transfer_def addStake_def removeStake_def moveStake_def addStakeLimit_def
        signAndSubmit_def)
qed

lemma demo_accepted: "accepted demo_chain tx"
  by (simp add: accepted_def demo_chain_def inBlock_def)

lemma demo_unavailable:
  "addStakeExtrinsic demo_chain ''5Hot'' 1 1 = Inl (Error ''Staking not available on this network'')"
  by (simp add: addStakeExtrinsic_def orThrow_def demo_chain_def)

theorem pipeline_structured_results_witness:
  "api demo_connected \<noteq> None
   \<and> transfer demo_connected demo_chain demo_signer ''5Dest'' 1 = Returns (included ''0xabc'')
   \<and> addStake demo_connected demo_chain demo_signer ''5Hot'' 1 1 =
       Returns (failure ''Staking not available on this network'')
   \<and> api demo_disconnected = None
   \<and> addStake demo_disconnected demo_chain demo_signer ''5Hot'' 1 1 = Raises (Error ''Not connected'')"
proof -
  have c: "api demo_connected \<noteq> None" by (simp add: demo_connected_def)
  have d: "api demo_disconnected = None" by (simp add: demo_disconnected_def)
  note t = pipeline_structured_results [where s = demo_connected and chain = demo_chain
      and signer = demo_signer and to = "''5Dest''" and hotkey = "''5Hot''" and netuid = 1
      and amount = 1]
  note u = pipeline_structured_results [where s = demo_disconnected and chain = demo_chain
      and signer = demo_signer and hotkey = "''5Hot''" and netuid = 1 and amount = 1]
  have st: "structured demo_connected demo_chain demo_signer
              (transferKeepAlive demo_chain ''5Dest'' 1)
              (transfer demo_connected demo_chain demo_signer ''5Dest'' 1)"
    using t c by blast
  have sa: "structured demo_connected demo_chain demo_signer
              (addStakeExtrinsic demo_chain ''5Hot'' 1 1)
              (addStake demo_connected demo_chain demo_signer ''5Hot'' 1 1)"
    using t c by blast
  have h: "txHash demo_chain tx = ''0xabc''" for tx by (simp add: demo_chain_def)
  have 1: "transfer demo_connected demo_chain demo_signer ''5Dest'' 1 = Returns (included ''0xabc'')"
    using st demo_built demo_signTx demo_accepted h unfolding structured_def by metis
  have 2: "addStake demo_connected demo_chain demo_signer ''5Hot'' 1 1 =
             Returns (failure ''Staking not available on this network'')"
    using sa demo_unavailable unfolding structured_def by (simp add: message_def)
  have 3: "addStake demo_disconnected demo_chain demo_signer ''5Hot'' 1 1 = Raises (Error ''Not connected'')"
    using u d by blast
  show ?thesis using c d 1 2 3 by blast
qed

text \<open>
  Claim C5 as stated fails twice.  In the not-connected state \<open>transfer\<close> raises.  And on
  a connected manager, with a chain that reports the transaction neither in a block nor
  finalized, the call returns nothing: its promise stays pending.
\<close>

theorem transfer_raises_or_stays_pending:
  "api demo_disconnected = None
   \<and> transfer demo_disconnected demo_chain demo_signer ''5Dest'' 1 = Raises (Error ''Not connected'')
   \<and> api demo_connected \<noteq> None
   \<and> transfer demo_connected demo_silent_chain demo_signer ''5Dest'' 1 = Pending"
  by (simp add: transfer_def signAndSubmit_def demo_disconnected_def demo_connected_def
      demo_built_silent demo_signTx_silent submitAndWaitForBlock_def)
     (simp add: demo_silent_chain_def demo_chain_def inBlock_def)

section \<open>The dApp handler\<close>

subsection \<open>Timers and approvals\<close>

lemma resolveApproval_absent:
  "pendingApprovals s i = None \<Longrightarrow> resolveApproval s i approved result = s"
  by (simp add: resolveApproval_def)

lemma approvalTimeout_absent:
  "pendingApprovals s i = None \<Longrightarrow> approvalTimeout s i = s"
  by (simp add: approvalTimeout_def)

lemma approvalTimeout_fields:
  "nextApprovalId (approvalTimeout s j) = nextApprovalId s"
  "approvalTimers (approvalTimeout s j) = approvalTimers s"
  by (simp_all add: approvalTimeout_def split: option.splits)

lemma foldl_approvalTimeout_fields:
  "nextApprovalId (foldl approvalTimeout s ids) = nextApprovalId s
   \<and> approvalTimers (foldl approvalTimeout s ids) = approvalTimers s"
  by (induction ids arbitrary: s) (simp_all add: approvalTimeout_fields)

lemma approvalTimeout_timedOut: "timedOut s i \<Longrightarrow> timedOut (approvalTimeout s j) i"
  by (cases "j = i") (auto simp: timedOut_def approvalTimeout_def split: option.splits)

lemma approvalTimeout_unsettled:
  "unsettled s i \<Longrightarrow> j \<noteq> i \<Longrightarrow> unsettled (approvalTimeout s j) i"
  by (auto simp: unsettled_def approvalTimeout_def split: option.splits)

lemma filter_none: "i \<notin> fst ` set xs \<Longrightarrow> filter (\<lambda>x. fst x = i) xs = []"
  by (induction xs) auto

lemma approvalTimeout_fires: "unsettled s i \<Longrightarrow> timedOut (approvalTimeout s i) i"
  by (auto simp: unsettled_def timedOut_def approvalTimeout_def filter_none split: option.splits)

lemma foldl_timedOut: "timedOut s i \<Longrightarrow> timedOut (foldl approvalTimeout s ids) i"
  by (induction ids arbitrary: s) (simp_all add: approvalTimeout_timedOut)

lemma foldl_unsettled:
  "unsettled s i \<Longrightarrow> i \<notin> set ids \<Longrightarrow> unsettled (foldl approvalTimeout s ids) i"
  by (induction ids arbitrary: s) (auto simp: approvalTimeout_unsettled)

lemma foldl_fires:
  "unsettled s i \<Longrightarrow> i \<in> set ids \<Longrightarrow> timedOut (foldl approvalTimeout s ids) i"
proof (induction ids arbitrary: s)
  case Nil
  then show ?case by simp
next
  case (Cons j ids)
  show ?case
  proof (cases "j = i")
    case True
    then show ?thesis using Cons.prems(1) by (simp add: approvalTimeout_fires foldl_timedOut)
  next
    case False
    then show ?thesis using Cons by (simp add: approvalTimeout_unsettled)
  qed
qed

lemma waiting_unsettled: "waiting s i due \<Longrightarrow> unsettled s i"
  by (simp add: waiting_def unsettled_def)

lemma timePasses_timedOut:
  assumes "timedOut s i"
  shows "timedOut (timePasses s now) i"
proof -
  have "timedOut (s\<lparr>approvalTimers := filter (\<lambda>t. \<not> fst t \<le> now) (approvalTimers s)\<rparr>) i"
    using assms by (simp add: timedOut_def)
  then show ?thesis by (simp add: timePasses_def foldl_timedOut)
qed

lemma timePasses_waiting:
  assumes "waiting s i due"
  shows "(due \<le> now \<longrightarrow> timedOut (timePasses s now) i)
       \<and> (timedOut (timePasses s now) i \<or> waiting (timePasses s now) i due)"
proof -
  let ?s0 = "s\<lparr>approvalTimers := filter (\<lambda>t. \<not> fst t \<le> now) (approvalTimers s)\<rparr>"
  let ?ids = "map snd (filter (\<lambda>t. fst t \<le> now) (approvalTimers s))"
  have u: "unsettled ?s0 i" using assms by (simp add: waiting_def unsettled_def)
  show ?thesis
  proof (cases "i \<in> set ?ids")
    case True
    then show ?thesis using u by (simp add: timePasses_def foldl_fires)
  next
    case False
    then have nd: "\<not> due \<le> now" using assms by (force simp: waiting_def)
    then have t: "(due, i) \<in> set (approvalTimers ?s0)" using assms by (simp add: waiting_def)
    have "unsettled (foldl approvalTimeout ?s0 ?ids) i"
      using u False by (rule foldl_unsettled)
    then have "waiting (timePasses s now) i due"
      using t foldl_approvalTimeout_fields [of ?s0 ?ids]
      by (simp add: timePasses_def waiting_def unsettled_def)
    then show ?thesis using nd by simp
  qed
qed

lemma resolve_other:
  assumes "j \<noteq> i"
  shows "(waiting s i due \<longrightarrow> waiting (resolveApproval s j approved result) i due)
       \<and> (timedOut s i \<longrightarrow> timedOut (resolveApproval s j approved result) i)"
  using assms
  by (auto simp: waiting_def timedOut_def resolveApproval_def Let_def split: option.splits)

lemma request_other:
  "(waiting s i due \<longrightarrow> waiting (snd (requestApproval s origin methodName params now p)) i due)
   \<and> (timedOut s i \<longrightarrow> timedOut (snd (requestApproval s origin methodName params now p)) i)"
  by (cases p)
     (auto simp: waiting_def timedOut_def requestApproval_def openApprovalPopup_def Let_def)

lemma step_keeps:
  assumes "\<not> resolves i e" "waiting s i due \<or> timedOut s i"
  shows "waiting (dapp_step s e) i due \<or> timedOut (dapp_step s e) i"
proof (cases e)
  case (Request origin methodName params now p)
  then show ?thesis using assms(2) request_other [of s i due origin methodName params now p] by auto
next
  case (Resolve j approved result)
  then have "j \<noteq> i" using assms(1) by simp
  then show ?thesis using Resolve assms(2) resolve_other [of j i s due approved result] by auto
next
  case (TimePasses now)
  then show ?thesis
    using assms(2) timePasses_waiting [of s i due now] timePasses_timedOut [of s i now] by auto
qed

lemma run_keeps:
  assumes "\<forall>e \<in> set events. \<not> resolves i e" "waiting s i due \<or> timedOut s i"
  shows "waiting (dapp_run s events) i due \<or> timedOut (dapp_run s events) i"
  using assms
proof (induction events arbitrary: s)
  case Nil
  then show ?case by (simp add: dapp_run_def)
next
  case (Cons e events)
  have "waiting (dapp_step s e) i due \<or> timedOut (dapp_step s e) i"
    using Cons.prems by (intro step_keeps) auto
  then have "waiting (dapp_run (dapp_step s e) events) i due
             \<or> timedOut (dapp_run (dapp_step s e) events) i"
    using Cons.IH Cons.prems(1) by simp
  then show ?case by (simp add: dapp_run_def)
qed

subsection \<open>Ids are given out once\<close>

lemma approvalTimeout_givenOut: "givenOut s \<Longrightarrow> givenOut (approvalTimeout s j)"
  by (auto simp: givenOut_def approvalTimeout_def split: option.splits)

lemma foldl_givenOut: "givenOut s \<Longrightarrow> givenOut (foldl approvalTimeout s ids)"
  by (induction ids arbitrary: s) (simp_all add: approvalTimeout_givenOut)

lemma step_givenOut:
  assumes "givenOut s"
  shows "givenOut (dapp_step s e)"
proof (cases e)
  case (Request origin methodName params now p)
  then show ?thesis using assms
    by (cases p)
       (auto simp: givenOut_def requestApproval_def openApprovalPopup_def Let_def less_Suc_eq)
next
  case (Resolve j approved result)
  then show ?thesis using assms
    by (auto simp: givenOut_def resolveApproval_def Let_def split: option.splits)
next
  case (TimePasses now)
  have "givenOut (s\<lparr>approvalTimers := filter (\<lambda>t. \<not> fst t \<le> now) (approvalTimers s)\<rparr>)"
    using assms by (simp add: givenOut_def)
  then show ?thesis using TimePasses by (simp add: timePasses_def foldl_givenOut)
qed

lemma run_givenOut: "givenOut s \<Longrightarrow> givenOut (dapp_run s events)"
  by (induction events arbitrary: s) (simp_all add: dapp_run_def step_givenOut)

lemma demo_givenOut: "givenOut demo_handler"
  by (simp add: givenOut_def demo_handler_def)

lemma request_waiting:
  assumes "requestApproval s origin methodName params now p = (Inr i, s1)" "givenOut s"
  shows "waiting s1 i (now + 5 * 60 * 1000) \<and> i = nextApprovalId s
       \<and> pendingApprovals s1 i =
           Some \<lparr>pa_id = i, pa_origin = origin, pa_method = methodName, pa_params = params\<rparr>"
proof (cases p)
  case PopupOpened
  then have i: "i = nextApprovalId s" using assms(1)
    by (auto simp: requestApproval_def openApprovalPopup_def Let_def)
  have "i \<notin> fst ` set (settlements s)" using assms(2) i by (auto simp: givenOut_def)
  then show ?thesis using assms(1) PopupOpened i
    by (auto simp: requestApproval_def openApprovalPopup_def Let_def waiting_def)
next
  case (StorageRaises e)
  then show ?thesis using assms(1) by (simp add: requestApproval_def openApprovalPopup_def)
next
  case (OpenRaises e)
  then show ?thesis using assms(1) by (simp add: requestApproval_def openApprovalPopup_def)
qed

text \<open>
  Claim C9.  Let \<open>requestApproval\<close> at time \<open>now\<close> give the approval \<open>i\<close>, in a handler whose
  ids were all given out by its counter, and let any events follow among which no call of
  \<open>resolveApproval\<close> names \<open>i\<close>.  The approval is pending after the request.  Once the time
  is 5 minutes after \<open>now\<close> or later, it is no longer in the map and its promise has been
  settled exactly once, by a rejection with \<open>Request timeout\<close>.  A call of
  \<open>resolveApproval\<close> for \<open>i\<close> after that leaves the state as it is, and so does every call
  of \<open>resolveApproval\<close> for an id that is not in the map.
\<close>

theorem approval_times_out:
  assumes req: "requestApproval s origin methodName params now p = (Inr i, s1)"
    and given: "givenOut s"
    and unresolved: "\<forall>e \<in> set events. \<not> resolves i e"
    and late: "now + 5 * 60 * 1000 \<le> later"
  shows "pendingApprovals s1 i =
           Some \<lparr>pa_id = i, pa_origin = origin, pa_method = methodName, pa_params = params\<rparr>
       \<and> pendingApprovals (timePasses (dapp_run s1 events) later) i = None
       \<and> filter (\<lambda>x. fst x = i) (settlements (timePasses (dapp_run s1 events) later)) =
           [(i, Refused (Error ''Request timeout''))]
       \<and> (\<forall>approved result.
            resolveApproval (timePasses (dapp_run s1 events) later) i approved result =
            timePasses (dapp_run s1 events) later)
       \<and> (\<forall>t j approved result.
            pendingApprovals t j = None \<longrightarrow> resolveApproval t j approved result = t)"
proof -
  let ?due = "now + 5 * 60 * 1000"
  have w: "waiting s1 i ?due" and pa: "pendingApprovals s1 i =
           Some \<lparr>pa_id = i, pa_origin = origin, pa_method = methodName, pa_params = params\<rparr>"
    using request_waiting [OF req given] by blast+
  have "waiting (dapp_run s1 events) i ?due \<or> timedOut (dapp_run s1 events) i"
    using run_keeps [OF unresolved] w by blast
  then have t: "timedOut (timePasses (dapp_run s1 events) later) i"
    using timePasses_waiting [of "dapp_run s1 events" i ?due later]
      timePasses_timedOut [of "dapp_run s1 events" i later] late
    by blast
  then have n: "pendingApprovals (timePasses (dapp_run s1 events) later) i = None"
    by (simp add: timedOut_def)
  show ?thesis using pa t n by (simp add: timedOut_def resolveApproval_absent)
qed

lemma demo_request:
  "requestApproval demo_handler ''https://dapp.example'' ''signMessage'' ''hello'' 1000 PopupOpened =
     (Inr 1, demo_requested)"
  by (simp add: demo_requested_def requestApproval_def openApprovalPopup_def demo_handler_def Let_def)

theorem approval_times_out_witness:
  "pendingApprovals demo_requested 1 =
     Some \<lparr>pa_id = 1, pa_origin = ''https://dapp.example'', pa_method = ''signMessage'',
           pa_params = ''hello''\<rparr>
   \<and> pendingApprovals
        (timePasses
           (dapp_run demo_requested
              [Request ''https://dapp.example'' ''sendTransaction'' ''tx'' 2000 PopupOpened,
               Resolve 2 True ''ok'', TimePasses 5000])
           301000) 1 = None
   \<and> filter (\<lambda>x. fst x = 1)
        (settlements
           (timePasses
              (dapp_run demo_requested
                 [Request ''https://dapp.example'' ''sendTransaction'' ''tx'' 2000 PopupOpened,
                  Resolve 2 True ''ok'', TimePasses 5000])
              301000)) =
       [(1, Refused (Error ''Request timeout''))]
   \<and> resolveApproval
        (timePasses
           (dapp_run demo_requested
              [Request ''https://dapp.example'' ''sendTransaction'' ''tx'' 2000 PopupOpened,
               Resolve 2 True ''ok'', TimePasses 5000])
           301000) 1 True ''late'' =
       timePasses
         (dapp_run demo_requested
            [Request ''https://dapp.example'' ''sendTransaction'' ''tx'' 2000 PopupOpened,
             Resolve 2 True ''ok'', TimePasses 5000])
         301000"
proof -
  let ?events = "[Request ''https://dapp.example'' ''sendTransaction'' ''tx'' 2000 PopupOpened,
               Resolve 2 True ''ok'', TimePasses 5000]"
  have u: "\<forall>e \<in> set ?events. \<not> resolves 1 e" by simp
  have l: "(1000::int) + 5 * 60 * 1000 \<le> 301000" by simp
  show ?thesis
    using approval_times_out [OF demo_request demo_givenOut u l] by blast
qed

end
